(* ===== verification/Scopion_Prelude.thy ===== *)
theory Scopion_Prelude
  imports Main "HOL-Library.Word" "HOL-Library.List_Lexorder" "HOL-Library.Char_ord"
begin

text \<open>
  The prelude of the development: the machine types the C++ sources use, the ordered maps that
  stand for \<open>std::map\<close> and \<open>std::unordered_map\<close>, and the generic lemmas on lists that the
  component theories share.
\<close>

section \<open>Machine types\<close>

text \<open>
  \<open>int\<close> and \<open>uint32_t\<close> are 32 bits wide; a \<open>double\<close> is kept as its IEEE-754 bit pattern, and
  only the comparison the sources make on it is modelled.
\<close>

type_synonym int32 = "32 word"
type_synonym uint32 = "32 word"
type_synonym double = "64 word"

definition double_exponent :: "double \<Rightarrow> double" where
  "double_exponent d = take_bit 11 (drop_bit 52 d)"

definition double_mantissa :: "double \<Rightarrow> double" where
  "double_mantissa d = take_bit 52 d"

definition is_nan :: "double \<Rightarrow> bool" where
  "is_nan d \<longleftrightarrow> double_exponent d = 2047 \<and> double_mantissa d \<noteq> 0"

definition is_zero :: "double \<Rightarrow> bool" where
  "is_zero d \<longleftrightarrow> take_bit 63 d = 0"

definition double_eq :: "double \<Rightarrow> double \<Rightarrow> bool" where
  "double_eq a b \<longleftrightarrow> \<not> is_nan a \<and> \<not> is_nan b \<and> (a = b \<or> is_zero a \<and> is_zero b)"

text \<open>The representative of a double among the doubles it compares equal to.\<close>

definition double_canon :: "double \<Rightarrow> double" where
  "double_canon d = (if is_zero d then 0 else d)"

lemma is_zero_0 [simp]: "is_zero 0"
  by (simp add: is_zero_def)

lemma is_nan_0 [simp]: "\<not> is_nan 0"
  by (simp add: is_nan_def double_exponent_def)

lemma double_eq_canon:
  "double_eq a b \<longleftrightarrow> \<not> is_nan a \<and> \<not> is_nan b \<and> double_canon a = double_canon b"
  by (auto simp: double_eq_def double_canon_def)

section \<open>Ordered maps\<close>

text \<open>
  A \<open>std::map\<close> is its sequence of entries in ascending key order. Two keys are the same entry
  when neither is less than the other, which the sources decide on a part of the key only
  (\<open>value_wrapper\<close> compares its \<open>value\<close>), so the order is taken on a projection \<open>p\<close> of the key.
  Assigning through \<open>operator[]\<close> keeps the key object that is already in the map. The order of
  the entries of a \<open>std::unordered_map\<close> is never observed by the sources, so the same type
  stands for it. The order on \<open>std::string\<close> compares characters as unsigned bytes, as the
  library's order on \<open>char list\<close> does.
\<close>

fun om_put :: "('k \<Rightarrow> 'o::linorder) \<Rightarrow> 'k \<Rightarrow> 'v \<Rightarrow> ('k \<times> 'v) list \<Rightarrow> ('k \<times> 'v) list" where
  "om_put p k v [] = [(k, v)]"
| "om_put p k v ((k', v') # m) =
     (if p k < p k' then (k, v) # (k', v') # m
      else if p k = p k' then (k', v) # m
      else (k', v') # om_put p k v m)"

fun om_find :: "('k \<Rightarrow> 'o::linorder) \<Rightarrow> ('k \<times> 'v) list \<Rightarrow> 'o \<Rightarrow> 'v option" where
  "om_find p [] x = None"
| "om_find p ((k, v) # m) x = (if p k = x then Some v else om_find p m x)"

definition om_wf :: "('k \<Rightarrow> 'o::linorder) \<Rightarrow> ('k \<times> 'v) list \<Rightarrow> bool" where
  "om_wf p m \<longleftrightarrow> sorted_wrt (<) (map (p \<circ> fst) m)"

text \<open>The contract of a map: what a look-up returns after an assignment.\<close>

locale keyed_map =
  fixes find :: "'m \<Rightarrow> 'o \<Rightarrow> 'v option"
    and put :: "'k \<Rightarrow> 'v \<Rightarrow> 'm \<Rightarrow> 'm"
    and key_of :: "'k \<Rightarrow> 'o"
    and wf :: "'m \<Rightarrow> bool"
    and new :: "'m"
  assumes find_new: "find new x = None"
    and find_put: "wf m \<Longrightarrow> find (put k v m) x = (if x = key_of k then Some v else find m x)"
    and wf_new: "wf new"
    and wf_put: "wf m \<Longrightarrow> wf (put k v m)"
begin

lemma find_put_same: "wf m \<Longrightarrow> find (put k v m) (key_of k) = Some v"
  by (simp add: find_put)

lemma find_put_other: "wf m \<Longrightarrow> x \<noteq> key_of k \<Longrightarrow> find (put k v m) x = find m x"
  by (simp add: find_put)

lemma wf_fold_put: "wf m \<Longrightarrow> wf (fold (\<lambda>(k, v). put k v) kvs m)"
  by (induction kvs arbitrary: m) (auto simp: wf_put)

text \<open>Assignments in sequence: the last one to a key decides.\<close>

lemma find_fold_put:
  "wf m \<Longrightarrow> find (fold (\<lambda>(k, v). put k v) kvs m) x =
     (case map_of (rev (map (\<lambda>(k, v). (key_of k, v)) kvs)) x of
        None \<Rightarrow> find m x
      | Some v \<Rightarrow> Some v)"
  by (induction kvs rule: rev_induct)
     (auto simp: find_put wf_fold_put split: option.splits)

end

lemma om_find_None: "om_find p m x = None \<longleftrightarrow> (\<forall>kv \<in> set m. p (fst kv) \<noteq> x)"
  by (induction p m x rule: om_find.induct) auto

lemma om_wf_Nil [simp]: "om_wf p []"
  by (simp add: om_wf_def)

lemma om_wf_Cons [simp]:
  "om_wf p (kv # m) \<longleftrightarrow> (\<forall>kv' \<in> set m. p (fst kv) < p (fst kv')) \<and> om_wf p m"
  by (auto simp: om_wf_def)

lemma fst_om_put: "(p \<circ> fst) ` set (om_put p k v m) = insert (p k) ((p \<circ> fst) ` set m)"
  by (induction p k v m rule: om_put.induct) auto

lemma om_find_less_None:
  "\<forall>kv \<in> set m. x < p (fst kv) \<Longrightarrow> om_find p m x = None"
  by (induction m) auto

lemma om_find_put:
  "om_wf p m \<Longrightarrow> om_find p (om_put p k v m) x = (if x = p k then Some v else om_find p m x)"
  by (induction p k v m rule: om_put.induct) (auto simp: om_find_less_None)

lemma om_put_less:
  "(\<forall>kv \<in> set (om_put p k v m). x < p (fst kv)) \<longleftrightarrow> x < p k \<and> (\<forall>kv \<in> set m. x < p (fst kv))"
proof -
  have "(\<forall>y \<in> (p \<circ> fst) ` set (om_put p k v m). x < y) \<longleftrightarrow>
        (\<forall>y \<in> insert (p k) ((p \<circ> fst) ` set m). x < y)"
    by (simp only: fst_om_put)
  then show ?thesis by simp
qed

lemma om_wf_put: "om_wf p m \<Longrightarrow> om_wf p (om_put p k v m)"
proof (induction p k v m rule: om_put.induct)
  case (1 p k v)
  then show ?case by simp
next
  case (2 p k v k' v' m)
  show ?case
  proof (cases "p k < p k'")
    case True
    with "2.prems" show ?thesis by auto
  next
    case False
    with 2 show ?thesis by (auto simp: om_put_less)
  qed
qed

interpretation om: keyed_map "om_find p" "om_put p" p "om_wf p" "[]" for p :: "'k \<Rightarrow> 'o::linorder"
  by unfold_locales (simp_all add: om_find_put om_wf_put)

text \<open>A map whose keys are plain strings.\<close>

type_synonym 'v smap = "(string \<times> 'v) list"

abbreviation sm_find :: "'v smap \<Rightarrow> string \<Rightarrow> 'v option" where
  "sm_find \<equiv> om_find (\<lambda>k. k)"

abbreviation sm_put :: "string \<Rightarrow> 'v \<Rightarrow> 'v smap \<Rightarrow> 'v smap" where
  "sm_put \<equiv> om_put (\<lambda>k. k)"

abbreviation sm_wf :: "'v smap \<Rightarrow> bool" where
  "sm_wf \<equiv> om_wf (\<lambda>k. k)"

lemma om_find_Some_wf: "om_wf p m \<Longrightarrow> (k, v) \<in> set m \<Longrightarrow> om_find p m (p k) = Some v"
  by (induction m) force+

lemma om_find_SomeD: "om_find p m x = Some v \<Longrightarrow> \<exists>k. (k, v) \<in> set m \<and> p k = x"
  by (induction m) (auto split: if_splits)

section \<open>Numbers as text\<close>

text \<open>
  \<open>std::to_string\<close> of an unsigned value and of an \<open>int\<close>, and the stream output of both.
\<close>

definition digit_char :: "nat \<Rightarrow> char" where
  "digit_char d = char_of (48 + d)"

fun nat_string :: "nat \<Rightarrow> string" where
  "nat_string n = (if n < 10 then [digit_char n] else nat_string (n div 10) @ [digit_char (n mod 10)])"

declare nat_string.simps [simp del]

definition int_string :: "int32 \<Rightarrow> string" where
  "int_string w =
     (if 0 \<le> sint w then nat_string (nat (sint w)) else CHR ''-'' # nat_string (nat (- sint w)))"

definition string_nat :: "string \<Rightarrow> nat" where
  "string_nat s = foldl (\<lambda>n c. 10 * n + (of_char c - 48)) 0 s"

lemma of_char_digit [simp]: "d < 10 \<Longrightarrow> (of_char (digit_char d) :: nat) = 48 + d"
  by (simp add: digit_char_def of_char_of take_bit_eq_mod)

lemma string_nat_nat_string [simp]: "string_nat (nat_string n) = n"
proof (induction n rule: nat_string.induct)
  case (1 n)
  then show ?case
    by (subst nat_string.simps) (auto simp: string_nat_def)
qed

lemma nat_string_inject [simp]: "nat_string m = nat_string n \<longleftrightarrow> m = n"
  by (metis string_nat_nat_string)

text \<open>Conversions to 32 bits that do not wrap.\<close>

lemma unat_of_nat32: "n < 2 ^ 32 \<Longrightarrow> unat (of_nat n :: uint32) = n"
  by (simp add: unat_of_nat)

lemma unat_of_nat_Suc32: "n < 2 ^ 32 - 1 \<Longrightarrow> unat (of_nat n + 1 :: uint32) = n + 1"
  using unat_of_nat32 [of "n + 1"] by (simp add: add.commute)

lemma sint_of_nat32: "n < 2 ^ 31 \<Longrightarrow> sint (of_nat n :: uint32) = int n"
  by (simp add: signed_of_nat signed_take_bit_int_eq_self)

section \<open>Equality up to a canonical form\<close>

text \<open>
  The contract of a comparison: on the values it accepts (\<open>ok\<close>) it decides whether the canonical
  forms agree, and it rejects every other value, even against itself.
\<close>

locale canonical_eq =
  fixes eq :: "'a \<Rightarrow> 'a \<Rightarrow> bool"
    and ok :: "'a \<Rightarrow> bool"
    and canon :: "'a \<Rightarrow> 'c"
  assumes eq_iff: "eq a b \<longleftrightarrow> ok a \<and> ok b \<and> canon a = canon b"
begin

lemma eq_refl_iff: "eq a a \<longleftrightarrow> ok a"
  by (simp add: eq_iff)

lemma eq_sym: "eq a b \<longleftrightarrow> eq b a"
  by (auto simp: eq_iff)

lemma eq_trans: "eq a b \<Longrightarrow> eq b c \<Longrightarrow> eq a c"
  by (simp add: eq_iff)

end

interpretation double: canonical_eq double_eq "\<lambda>d. \<not> is_nan d" double_canon
  by unfold_locales (simp add: double_eq_canon)

text \<open>A comparison of vectors element by element inherits the canonical form.\<close>

lemma list_all2_canonical:
  "(\<And>x y. x \<in> set xs \<Longrightarrow> eq x y \<longleftrightarrow> ok x \<and> ok y \<and> canon x = canon y) \<Longrightarrow>
   list_all2 eq xs ys \<longleftrightarrow> list_all ok xs \<and> list_all ok ys \<and> map canon xs = map canon ys"
proof (induction xs arbitrary: ys)
  case Nil
  then show ?case by (cases ys) auto
next
  case (Cons x xs)
  then show ?case by (cases ys) auto
qed

lemma list_all2_canonical_flip:
  assumes "\<And>x y. x \<in> set xs \<Longrightarrow> eq y x \<longleftrightarrow> ok y \<and> ok x \<and> canon y = canon x"
  shows "list_all2 eq ys xs \<longleftrightarrow> list_all ok ys \<and> list_all ok xs \<and> map canon ys = map canon xs"
proof -
  have "list_all2 (\<lambda>x y. eq y x) xs ys \<longleftrightarrow>
      list_all ok xs \<and> list_all ok ys \<and> map canon xs = map canon ys"
    by (rule list_all2_canonical) (use assms in auto)
  then show ?thesis
    by (simp add: list_all2_conv_all_nth) metis
qed

lemma size_snd_mem_le:
  "(k, x) \<in> set ms \<Longrightarrow> size x \<le> size_list (size_prod (\<lambda>_. 0) size) ms"
  by (induction ms) auto

lemma size_mem_le: "x \<in> set xs \<Longrightarrow> size x \<le> size_list size xs"
  by (induction xs) auto

end
