(* ===== verification/Location.thy ===== *)
theory Location
  imports Scopion_Prelude
begin

text \<open>
  Source locations and error values: \<open>include/scopion/error.hpp\<close>. An iterator range of the
  source text is a pair of offsets into it. \<open>boost::filesystem::path\<close> is only carried and
  printed, so a path is the string it prints as; the terminal styles of the \<open>rang\<close> library are
  an argument of the printing function.
\<close>

section \<open>Locations\<close>

type_synonym strRange = "nat \<times> nat"

abbreviation newline :: char where
  "newline \<equiv> CHR 0x0A"

definition slice :: "string \<Rightarrow> nat \<Rightarrow> nat \<Rightarrow> string" where
  "slice buf b e = take (e - b) (drop b buf)"

lemma slice_split:
  assumes "b \<le> m" "m \<le> e"
  shows "slice buf b e = slice buf b m @ slice buf m e"
proof -
  have "take ((m - b) + (e - m)) (drop b buf) =
      take (m - b) (drop b buf) @ take (e - m) (drop (m - b) (drop b buf))"
    by (rule take_add)
  with assms show ?thesis by (simp add: slice_def)
qed

text \<open>\<open>line_range\<close>: the line of \<open>code\<close> around the first position of \<open>wh\<close>.\<close>

definition line_range :: "string \<Rightarrow> strRange \<Rightarrow> strRange \<Rightarrow> strRange" where
  "line_range buf wh code =
     (let range = slice buf (fst code) (fst wh);
          sol = fst wh - length (takeWhile (\<lambda>c. c \<noteq> newline) (rev range));
          eol = fst wh + length (takeWhile (\<lambda>c. c \<noteq> newline) (slice buf (fst wh) (snd code)))
      in (sol, eol))"

text \<open>
  The default constructor sets \<open>is_empty_\<close> and leaves the numbers uninitialised, so that the
  getters of an empty location have no value.
\<close>

datatype locationInfo =
    LocEmpty
  | LocAt (line_number: uint32) (distance: uint32) (line_text: string) (loc_path: "string option")

definition mk_location :: "string \<Rightarrow> strRange \<Rightarrow> strRange \<Rightarrow> string option \<Rightarrow> locationInfo" where
  "mk_location buf wh code path =
     (let r = line_range buf wh code
      in LocAt (of_nat (count_list (slice buf (fst code) (fst wh)) newline) + 1)
               (of_nat (fst wh - fst r))
               (slice buf (fst r) (snd r))
               path)"

fun isEmpty :: "locationInfo \<Rightarrow> bool" where
  "isEmpty LocEmpty = True"
| "isEmpty (LocAt _ _ _ _) = False"

fun getLineNumber :: "locationInfo \<Rightarrow> uint32 option" where
  "getLineNumber LocEmpty = None"
| "getLineNumber (LocAt n _ _ _) = Some n"

fun getColumnNumber :: "locationInfo \<Rightarrow> uint32 option" where
  "getColumnNumber LocEmpty = None"
| "getColumnNumber (LocAt _ d _ _) = Some d"

fun getLineContent :: "locationInfo \<Rightarrow> string" where
  "getLineContent LocEmpty = []"
| "getLineContent (LocAt _ _ l _) = l"

fun getPath :: "locationInfo \<Rightarrow> string option" where
  "getPath LocEmpty = None"
| "getPath (LocAt _ _ _ p) = p"

definition getPathString :: "locationInfo \<Rightarrow> string" where
  "getPathString l = (case getPath l of Some p \<Rightarrow> p | None \<Rightarrow> ''<not a file>'')"

section \<open>Errors\<close>

datatype errorType = Parse | Translate | Internal | Bug | NoError

fun getErrorTypeString :: "errorType \<Rightarrow> string" where
  "getErrorTypeString Parse = ''Parse Error''"
| "getErrorTypeString Translate = ''Translate Error''"
| "getErrorTypeString Internal = ''Internal Error''"
| "getErrorTypeString Bug = ''Bug''"
| "getErrorTypeString NoError = ''No Error''"

record error =
  message :: string
  location :: locationInfo
  err_type :: errorType
  has_error :: bool

definition mk_error :: "string \<Rightarrow> locationInfo \<Rightarrow> errorType \<Rightarrow> error" where
  "mk_error msg wh t = \<lparr>message = msg, location = wh, err_type = t, has_error = True\<rparr>"

definition no_error :: error where
  "no_error = \<lparr>message = [], location = LocEmpty, err_type = NoError, has_error = False\<rparr>"

datatype rang_code = StyleReset | StyleBold | BgRed | FgGray | FgRed | FgMagenta | FgGreen

text \<open>\<open>std::setw\<close> applied to the next output: pad on the left up to the width.\<close>

definition setw :: "int \<Rightarrow> string \<Rightarrow> string" where
  "setw w s = replicate (nat w - length s) CHR '' '' @ s"

definition print_error :: "(rang_code \<Rightarrow> string) \<Rightarrow> error \<Rightarrow> string" where
  "print_error rang e =
     (let loc = location e in
      (if err_type e = Bug
       then rang StyleReset @ rang BgRed @ rang FgGray @ ''[BUG]'' @ rang StyleReset @ rang FgRed
            @ '' Please submit a bug report to https://github.com/coord-e/scopion/issues with messages ''
            @ ''shown below.'' @ [newline]
       else rang StyleReset @ rang BgRed @ rang FgGray @ ''[ERROR]'' @ rang StyleReset
            @ '' '' @ getErrorTypeString (err_type e) @ '': '')
      @ (case loc of
           LocEmpty \<Rightarrow> []
         | LocAt n _ _ _ \<Rightarrow>
             rang FgMagenta @ getPathString loc @ ''@'' @ nat_string (unat n) @ rang StyleReset @ '': '')
      @ rang StyleReset @ message e @ [newline]
      @ (case loc of
           LocEmpty \<Rightarrow> []
         | LocAt _ d l _ \<Rightarrow>
             l @ [newline] @ rang FgGreen @ setw (sint d + 1) ''^'' @ rang StyleReset))"

section \<open>Lines of a text\<close>

text \<open>The specification: the text split at its newlines, and the offset at which a line starts.\<close>

fun lines_of :: "string \<Rightarrow> string list" where
  "lines_of [] = [[]]"
| "lines_of (c # cs) =
     (if c = newline then [] # lines_of cs else (c # hd (lines_of cs)) # tl (lines_of cs))"

definition line_offset :: "string list \<Rightarrow> nat \<Rightarrow> nat" where
  "line_offset ls k = sum_list (map (\<lambda>l. Suc (length l)) (take k ls))"

lemma lines_of_not_Nil [simp]: "lines_of s \<noteq> []"
  by (cases s) auto

lemma length_lines_of: "length (lines_of s) = Suc (count_list s newline)"
  by (induction s) auto

lemma hd_lines_of: "hd (lines_of s) = takeWhile (\<lambda>c. c \<noteq> newline) s"
  by (induction s) auto

lemma lines_of_append:
  "lines_of (xs @ ys) =
     butlast (lines_of xs) @ (last (lines_of xs) @ hd (lines_of ys)) # tl (lines_of ys)"
proof (induction xs)
  case Nil
  then show ?case by simp
next
  case (Cons c xs)
  then show ?case
    by (cases "lines_of xs") auto
qed

lemma lines_of_no_newline: "newline \<notin> set s \<Longrightarrow> lines_of s = [s]"
  by (induction s) auto

lemma last_lines_of: "last (lines_of s) = rev (takeWhile (\<lambda>c. c \<noteq> newline) (rev s))"
proof (induction s rule: rev_induct)
  case Nil
  then show ?case by simp
next
  case (snoc c s)
  then show ?case
    by (cases "c = newline") (simp_all add: lines_of_append)
qed

lemma line_offset_last:
  "line_offset (lines_of s) (length (lines_of s) - 1) + length (last (lines_of s)) = length s"
proof (induction s)
  case Nil
  then show ?case by (simp add: line_offset_def)
next
  case (Cons c s)
  then show ?case
    by (cases "lines_of s"; cases "tl (lines_of s)") (auto simp: line_offset_def)
qed

lemma line_offset_append: "k \<le> length xs \<Longrightarrow> line_offset (xs @ ys) k = line_offset xs k"
  by (simp add: line_offset_def)

text \<open>The parts of a text on both sides of a position.\<close>

lemma line_split:
  fixes code :: string
  defines "L \<equiv> lines_of code"
  assumes "p \<le> length code"
  shows "count_list (take p code) newline < length L"
    and "L ! count_list (take p code) newline =
           rev (takeWhile (\<lambda>c. c \<noteq> newline) (rev (take p code)))
           @ takeWhile (\<lambda>c. c \<noteq> newline) (drop p code)"
    and "line_offset L (count_list (take p code) newline)
           + length (takeWhile (\<lambda>c. c \<noteq> newline) (rev (take p code))) = p"
proof -
  define before after where "before = take p code" and "after = drop p code"
  have code: "code = before @ after"
    by (simp add: before_def after_def)
  define B where "B = lines_of before"
  have lenB: "length B = Suc (count_list before newline)"
    by (simp add: B_def length_lines_of)
  have L: "L = butlast B @ (last B @ hd (lines_of after)) # tl (lines_of after)"
    by (simp add: L_def code lines_of_append B_def)
  have idx: "count_list before newline = length (butlast B)"
    using lenB by simp
  show "count_list (take p code) newline < length L"
    using lenB by (simp add: L flip: before_def)
  show "L ! count_list (take p code) newline =
           rev (takeWhile (\<lambda>c. c \<noteq> newline) (rev (take p code)))
           @ takeWhile (\<lambda>c. c \<noteq> newline) (drop p code)"
    unfolding before_def [symmetric] after_def [symmetric] idx L nth_append_length
    by (simp add: B_def last_lines_of hd_lines_of)
  have "line_offset L (length (butlast B)) = line_offset B (length B - 1)"
    by (simp add: L line_offset_def take_butlast butlast_conv_take)
  moreover have "line_offset B (length B - 1) + length (last B) = p"
    using line_offset_last [of before] assms(2) by (simp add: B_def before_def)
  ultimately show "line_offset L (count_list (take p code) newline)
           + length (takeWhile (\<lambda>c. c \<noteq> newline) (rev (take p code))) = p"
    unfolding before_def [symmetric] idx by (simp add: B_def last_lines_of)
qed

lemma mk_location_whole:
  "p \<le> length code \<Longrightarrow>
   mk_location code (p, q) (0, length code) path =
     LocAt (of_nat (count_list (take p code) newline) + 1)
           (of_nat (length (takeWhile (\<lambda>c. c \<noteq> newline) (rev (take p code)))))
           (lines_of code ! count_list (take p code) newline)
           path"
proof -
  assume p: "p \<le> length code"
  define b a where "b = takeWhile (\<lambda>c. c \<noteq> newline) (rev (take p code))"
    and "a = takeWhile (\<lambda>c. c \<noteq> newline) (drop p code)"
  have lb: "length b \<le> p"
    using length_takeWhile_le [of "\<lambda>c. c \<noteq> newline" "rev (take p code)"] p by (simp add: b_def)
  have "take p code = rev (dropWhile (\<lambda>c. c \<noteq> newline) (rev (take p code))) @ rev b"
    by (metis b_def rev_append rev_rev_ident takeWhile_dropWhile_id)
  then have "drop (length (take p code) - length (rev b)) (take p code) = rev b"
    by (metis append_eq_conv_conj length_append add_diff_cancel_right')
  then have "slice code (p - length b) p = rev b"
    using p lb by (simp add: slice_def drop_take min.absorb2)
  moreover have "slice code p (p + length a) = a"
    by (simp add: slice_def a_def takeWhile_eq_take [symmetric])
  moreover have "slice code (p - length b) (p + length a) =
      slice code (p - length b) p @ slice code p (p + length a)"
    by (rule slice_split) auto
  ultimately have "slice code (p - length b) (p + length a) = rev b @ a"
    by simp
  moreover have "lines_of code ! count_list (take p code) newline = rev b @ a"
    using line_split(2) [OF p] by (simp add: a_def b_def)
  moreover have "slice code 0 p = take p code" "slice code p (length code) = drop p code"
    by (simp_all add: slice_def)
  ultimately show ?thesis
    using lb by (simp add: mk_location_def line_range_def Let_def flip: a_def b_def)
qed

text \<open>
  C18. A location points at the line and the column of its position: the line number selects, in
  the text split at newlines, the line that is recorded, and the position is the start of that
  line plus the column. The bound keeps the 32-bit counters from wrapping.
\<close>

theorem location_sound:
  assumes "p \<le> length code" and "length code < 2 ^ 32 - 1"
  shows "\<exists>n d l. mk_location code (p, q) (0, length code) path = LocAt n d l path \<and>
           1 \<le> unat n \<and> unat n \<le> length (lines_of code) \<and>
           l = lines_of code ! (unat n - 1) \<and> unat d \<le> length l \<and>
           p = line_offset (lines_of code) (unat n - 1) + unat d"
proof -
  define k where "k = count_list (take p code) newline"
  define b where "b = length (takeWhile (\<lambda>c. c \<noteq> newline) (rev (take p code)))"
  have "k \<le> p" "b \<le> p"
    using count_le_length [of "take p code" newline]
      length_takeWhile_le [of "\<lambda>c. c \<noteq> newline" "rev (take p code)"] assms(1)
    by (simp_all add: k_def b_def)
  with assms have k: "unat (of_nat k + 1 :: uint32) = k + 1" and b: "unat (of_nat b :: uint32) = b"
    by (simp_all add: unat_of_nat32 unat_of_nat_Suc32)
  show ?thesis
    using line_split [OF assms(1)] k b
    by (auto simp: mk_location_whole [OF assms(1)] simp flip: k_def b_def)
qed

theorem location_sound_witness:
  "\<exists>n d l. mk_location ''a'' (1, 1) (0, length ''a'') None = LocAt n d l None \<and>
     1 \<le> unat n \<and> unat n \<le> length (lines_of ''a'') \<and>
     l = lines_of ''a'' ! (unat n - 1) \<and> unat d \<le> length l \<and>
     1 = line_offset (lines_of ''a'') (unat n - 1) + unat d"
  by (rule location_sound) simp_all

text \<open>
  C31. The printed error shows, under the offending line, a caret below the offending character:
  with the terminal styles switched off, the report ends with the recorded line and a line of
  blanks followed by the caret, at the index of the character at the error's position.
\<close>

theorem print_error_caret:
  assumes "p < length code" and "length code < 2 ^ 31 - 1" and "code ! p \<noteq> newline"
  shows "\<exists>header l i.
           print_error (\<lambda>_. []) (mk_error msg (mk_location code (p, q) (0, length code) path) t) =
             header @ l @ [newline] @ replicate i CHR '' '' @ ''^'' \<and>
           i < length l \<and> l ! i = code ! p"
proof -
  define b where "b = takeWhile (\<lambda>c. c \<noteq> newline) (rev (take p code))"
  have p: "p \<le> length code" using assms(1) by simp
  have lb: "length b \<le> p"
    using length_takeWhile_le [of "\<lambda>c. c \<noteq> newline" "rev (take p code)"] p by (simp add: b_def)
  have sint: "sint (of_nat (length b) :: uint32) = int (length b)"
    using lb assms(1,2) by (simp add: sint_of_nat32)
  obtain r where "drop p code = code ! p # r"
    using assms(1) by (metis Cons_nth_drop_Suc)
  then have line: "lines_of code ! count_list (take p code) newline =
      rev b @ code ! p # takeWhile (\<lambda>c. c \<noteq> newline) r"
    using line_split(2) [OF p] assms(3) by (simp add: b_def)
  show ?thesis
    by (intro exI [of _ "lines_of code ! count_list (take p code) newline"] exI [of _ "length b"] exI)
       (auto simp: print_error_def mk_error_def mk_location_whole [OF p] setw_def sint nat_add_distrib
          line nth_append Let_def simp flip: b_def)
qed

theorem print_error_caret_witness:
  "\<exists>header l i.
     print_error (\<lambda>_. []) (mk_error ''m'' (mk_location ''ab'' (1, 1) (0, length ''ab'') None) Parse) =
       header @ l @ [newline] @ replicate i CHR '' '' @ ''^'' \<and>
     i < length l \<and> l ! i = ''ab'' ! 1"
  by (rule print_error_caret) simp_all

end
