(* ===== verification/Ast.thy ===== *)
theory Ast
  imports Location
begin

text \<open>
  The syntax tree: \<open>include/scopion/ast/\<close> (\<open>attribute.hpp\<close>, \<open>value_wrapper.hpp\<close>,
  \<open>value.hpp\<close>, \<open>operators.hpp\<close>, \<open>expr.hpp\<close>) and the functions of \<open>util.hpp\<close> on it.

  Every node is a \<open>value_wrapper\<close>: a payload with an \<open>attribute\<close>. The alternatives of the
  variants \<open>value\<close> and \<open>operators\<close>, and of \<open>expr\<close> over these two, are the constructors of
  one datatype, with \<open>is_operators\<close> telling the two variants apart. A node \<open>op<Op, N>\<close> is a
  constructor for its \<open>N\<close> applied to the operator \<open>Op\<close>.
\<close>

section \<open>Attributes\<close>

record attribute =
  where_at :: locationInfo
  attributes :: "string smap"
  lval :: bool
  to_call :: bool
  survey :: bool

definition new_attribute :: attribute where
  "new_attribute =
     \<lparr>where_at = LocEmpty, attributes = [], lval = False, to_call = False, survey = False\<rparr>"

section \<open>Operators\<close>

datatype binop =
    Add | Sub | Pow | Mul | Div | Rem | Shl | Shr | IAnd | IOr | IXor | LAnd | LOr
  | Eeq | Neq | Gt | Lt | Gtq | Ltq | Assign | Call | At | Dot | ODot | ADot

datatype sinop = Ret | LNot | INot | Inc | Dec

datatype ternop = Cond

fun binop_str :: "binop \<Rightarrow> string" where
  "binop_str Add = ''+''"
| "binop_str Sub = ''-''"
| "binop_str Pow = ''**''"
| "binop_str Mul = ''*''"
| "binop_str Div = ''/''"
| "binop_str Rem = ''%''"
| "binop_str Shl = ''<<''"
| "binop_str Shr = ''>>''"
| "binop_str IAnd = ''&''"
| "binop_str IOr = ''|''"
| "binop_str IXor = ''^''"
| "binop_str LAnd = ''&&''"
| "binop_str LOr = ''||''"
| "binop_str Eeq = ''==''"
| "binop_str Neq = ''!=''"
| "binop_str Gt = ''>''"
| "binop_str Lt = ''<''"
| "binop_str Gtq = ''>=''"
| "binop_str Ltq = ''<=''"
| "binop_str Assign = ''=''"
| "binop_str Call = ''()''"
| "binop_str At = ''[]''"
| "binop_str Dot = ''.''"
| "binop_str ODot = ''.:''"
| "binop_str ADot = ''.=''"

fun binop_is_customizable :: "binop \<Rightarrow> bool" where
  "binop_is_customizable Assign = False"
| "binop_is_customizable Dot = False"
| "binop_is_customizable ODot = False"
| "binop_is_customizable ADot = False"
| "binop_is_customizable _ = True"

fun sinop_str :: "sinop \<Rightarrow> string" where
  "sinop_str Ret = ''|>''"
| "sinop_str LNot = ''!''"
| "sinop_str INot = ''~''"
| "sinop_str Inc = ''++''"
| "sinop_str Dec = ''--''"

fun sinop_is_customizable :: "sinop \<Rightarrow> bool" where
  "sinop_is_customizable Ret = False"
| "sinop_is_customizable _ = True"

fun ternop_str :: "ternop \<Rightarrow> string" where
  "ternop_str Cond = ''?:''"

fun ternop_is_customizable :: "ternop \<Rightarrow> bool" where
  "ternop_is_customizable Cond = False"

section \<open>Expressions\<close>

text \<open>
  An \<open>identifier\<close> in a parameter list and a \<open>struct_key\<close> in a structure are wrapped strings;
  a structure is a map from \<open>struct_key\<close>, ordered by the wrapped string alone.
\<close>

type_synonym wrapped = "attribute \<times> string"

datatype expr =
    Integer attribute int32
  | Decimal attribute double
  | Boolean attribute bool
  | String attribute string
  | Variable attribute string
  | PreVariable attribute string
  | Identifier attribute string
  | StructKey attribute string
  | Array attribute "expr list"
  | ArgList attribute "expr list"
  | Structure attribute "(wrapped \<times> expr) list"
  | Function attribute "wrapped list" "expr list"
  | Scope attribute "expr list"
  | AttributeVal attribute string
  | SingleOp sinop attribute expr
  | BinaryOp binop attribute expr expr
  | TernaryOp ternop attribute expr expr expr

fun is_operators :: "expr \<Rightarrow> bool" where
  "is_operators (SingleOp _ _ _) = True"
| "is_operators (BinaryOp _ _ _ _) = True"
| "is_operators (TernaryOp _ _ _ _ _) = True"
| "is_operators _ = False"

text \<open>The default constructor of \<open>expr\<close>: the first alternative, a default integer.\<close>

definition default_expr :: expr where
  "default_expr = Integer new_attribute 0"

fun attr :: "expr \<Rightarrow> attribute" where
  "attr (Integer a _) = a"
| "attr (Decimal a _) = a"
| "attr (Boolean a _) = a"
| "attr (String a _) = a"
| "attr (Variable a _) = a"
| "attr (PreVariable a _) = a"
| "attr (Identifier a _) = a"
| "attr (StructKey a _) = a"
| "attr (Array a _) = a"
| "attr (ArgList a _) = a"
| "attr (Structure a _) = a"
| "attr (Function a _ _) = a"
| "attr (Scope a _) = a"
| "attr (AttributeVal a _) = a"
| "attr (SingleOp _ a _) = a"
| "attr (BinaryOp _ a _ _) = a"
| "attr (TernaryOp _ a _ _ _) = a"

text \<open>The operands of an operator node, in order.\<close>

fun operands :: "expr \<Rightarrow> expr list" where
  "operands (SingleOp _ _ x) = [x]"
| "operands (BinaryOp _ _ x y) = [x, y]"
| "operands (TernaryOp _ _ x y z) = [x, y, z]"
| "operands _ = []"

section \<open>Visitors that set attributes\<close>

text \<open>\<open>setter_visitor\<close> applies a function to the attribute of the outermost node.\<close>

fun setter_visitor :: "(attribute \<Rightarrow> attribute) \<Rightarrow> expr \<Rightarrow> expr" where
  "setter_visitor f (Integer a v) = Integer (f a) v"
| "setter_visitor f (Decimal a v) = Decimal (f a) v"
| "setter_visitor f (Boolean a v) = Boolean (f a) v"
| "setter_visitor f (String a v) = String (f a) v"
| "setter_visitor f (Variable a v) = Variable (f a) v"
| "setter_visitor f (PreVariable a v) = PreVariable (f a) v"
| "setter_visitor f (Identifier a v) = Identifier (f a) v"
| "setter_visitor f (StructKey a v) = StructKey (f a) v"
| "setter_visitor f (Array a v) = Array (f a) v"
| "setter_visitor f (ArgList a v) = ArgList (f a) v"
| "setter_visitor f (Structure a v) = Structure (f a) v"
| "setter_visitor f (Function a ps v) = Function (f a) ps v"
| "setter_visitor f (Scope a v) = Scope (f a) v"
| "setter_visitor f (AttributeVal a v) = AttributeVal (f a) v"
| "setter_visitor f (SingleOp op a x) = SingleOp op (f a) x"
| "setter_visitor f (BinaryOp op a x y) = BinaryOp op (f a) x y"
| "setter_visitor f (TernaryOp op a x y z) = TernaryOp op (f a) x y z"

text \<open>
  \<open>setter_recursive_visitor\<close> goes on into the operands of operator nodes; the payload of every
  other node is left alone.
\<close>

fun setter_recursive_visitor :: "(attribute \<Rightarrow> attribute) \<Rightarrow> expr \<Rightarrow> expr" where
  "setter_recursive_visitor f (SingleOp op a x) =
     SingleOp op (f a) (setter_recursive_visitor f x)"
| "setter_recursive_visitor f (BinaryOp op a x y) =
     BinaryOp op (f a) (setter_recursive_visitor f x) (setter_recursive_visitor f y)"
| "setter_recursive_visitor f (TernaryOp op a x y z) =
     TernaryOp op (f a) (setter_recursive_visitor f x) (setter_recursive_visitor f y)
       (setter_recursive_visitor f z)"
| "setter_recursive_visitor f e = setter_visitor f e"

definition set_lval :: "expr \<Rightarrow> bool \<Rightarrow> expr" where
  "set_lval t v = setter_visitor (\<lambda>a. a\<lparr>lval := v\<rparr>) t"

definition set_to_call :: "expr \<Rightarrow> bool \<Rightarrow> expr" where
  "set_to_call t v = setter_visitor (\<lambda>a. a\<lparr>to_call := v\<rparr>) t"

definition set_survey :: "expr \<Rightarrow> bool \<Rightarrow> expr" where
  "set_survey t v = setter_recursive_visitor (\<lambda>a. a\<lparr>survey := v\<rparr>) t"

definition set_attr :: "expr \<Rightarrow> string \<Rightarrow> string \<Rightarrow> expr" where
  "set_attr t k v = setter_visitor (\<lambda>a. a\<lparr>attributes := sm_put k v (attributes a)\<rparr>) t"

definition set_where :: "expr \<Rightarrow> locationInfo \<Rightarrow> expr" where
  "set_where t r = setter_visitor (\<lambda>a. a\<lparr>where_at := r\<rparr>) t"

section \<open>Taking a node apart\<close>

text \<open>
  \<open>unpack<Dest>\<close> is \<open>boost::get\<close> through both variants: it throws \<open>bad_get\<close>, here \<open>None\<close>,
  when the node is not a \<open>Dest\<close>; \<open>isa<Dest>\<close> is its domain.
\<close>

fun unpack_identifier :: "expr \<Rightarrow> wrapped option" where
  "unpack_identifier (Identifier a s) = Some (a, s)"
| "unpack_identifier _ = None"

fun unpack_struct_key :: "expr \<Rightarrow> wrapped option" where
  "unpack_struct_key (StructKey a s) = Some (a, s)"
| "unpack_struct_key _ = None"

fun unpack_attribute_val :: "expr \<Rightarrow> wrapped option" where
  "unpack_attribute_val (AttributeVal a s) = Some (a, s)"
| "unpack_attribute_val _ = None"

fun unpack_variable :: "expr \<Rightarrow> wrapped option" where
  "unpack_variable (Variable a s) = Some (a, s)"
| "unpack_variable _ = None"

fun unpack_arglist :: "expr \<Rightarrow> (attribute \<times> expr list) option" where
  "unpack_arglist (ArgList a xs) = Some (a, xs)"
| "unpack_arglist _ = None"

fun unpack_scope :: "expr \<Rightarrow> (attribute \<times> expr list) option" where
  "unpack_scope (Scope a xs) = Some (a, xs)"
| "unpack_scope _ = None"

fun unpack_binop :: "binop \<Rightarrow> expr \<Rightarrow> (attribute \<times> expr \<times> expr) option" where
  "unpack_binop op (BinaryOp op' a x y) = (if op = op' then Some (a, x, y) else None)"
| "unpack_binop _ _ = None"

section \<open>Lemmas on the setters\<close>

lemma attr_setter_visitor [simp]: "attr (setter_visitor f e) = f (attr e)"
  by (cases e) auto

lemma attr_setter_recursive_visitor [simp]: "attr (setter_recursive_visitor f e) = f (attr e)"
  by (cases e) auto

lemma operands_setter_visitor [simp]: "operands (setter_visitor f e) = operands e"
  by (cases e) auto

lemma is_operators_setter_visitor [simp]: "is_operators (setter_visitor f e) = is_operators e"
  by (cases e) auto

lemma setter_visitor_comp: "setter_visitor f (setter_visitor g e) = setter_visitor (f \<circ> g) e"
  by (cases e) auto

lemma setter_visitor_id [simp]: "setter_visitor (\<lambda>a. a) e = e"
  by (cases e) auto

text \<open>The maps of attributes of every node stay well-formed under the setters.\<close>

lemma set_attr_find:
  "sm_wf (attributes (attr e)) \<Longrightarrow>
   sm_find (attributes (attr (set_attr e k v))) x =
     (if x = k then Some v else sm_find (attributes (attr e)) x)"
  by (simp add: set_attr_def om.find_put)

lemma set_attr_wf: "sm_wf (attributes (attr e)) \<Longrightarrow> sm_wf (attributes (attr (set_attr e k v)))"
  by (simp add: set_attr_def om.wf_put)

text \<open>
  The nodes that \<open>set_survey\<close> reaches: the node itself and the nodes under it through operator
  nodes only.
\<close>

inductive op_reach :: "expr \<Rightarrow> expr \<Rightarrow> bool" where
  self: "op_reach e e"
| down: "x \<in> set (operands e) \<Longrightarrow> op_reach x y \<Longrightarrow> op_reach e y"

lemma operands_setter_recursive [simp]:
  "operands (setter_recursive_visitor f e) = map (setter_recursive_visitor f) (operands e)"
  by (cases e) auto

lemma op_reach_setter_recursive:
  "op_reach e y \<Longrightarrow> op_reach (setter_recursive_visitor f e) (setter_recursive_visitor f y)"
proof (induction rule: op_reach.induct)
  case (self e)
  show ?case by (rule op_reach.self)
next
  case (down x e y)
  then have "setter_recursive_visitor f x \<in> set (operands (setter_recursive_visitor f e))"
    by simp
  then show ?case using down.IH by (rule op_reach.down)
qed

lemma op_reach_setter_recursiveD:
  "op_reach e' y \<Longrightarrow> e' = setter_recursive_visitor f e \<Longrightarrow>
   \<exists>z. op_reach e z \<and> y = setter_recursive_visitor f z"
proof (induction arbitrary: e rule: op_reach.induct)
  case (self e')
  then show ?case by (auto intro: op_reach.self)
next
  case (down x e' y)
  then obtain z where "z \<in> set (operands e)" "x = setter_recursive_visitor f z"
    by auto
  with down.IH [OF this(2)] show ?case
    by (auto intro: op_reach.down)
qed


end
