(* ===== verification/Ast_Compare.thy ===== *)
theory Ast_Compare
  imports Ast
begin

text \<open>
  Equality of syntax trees: \<open>lib/ast/compare_expr.cpp\<close>. The comparison of an operator node looks
  at its operands only; every other node is compared with its attribute, of which \<open>lval\<close>,
  \<open>to_call\<close> and \<open>attributes\<close> count.
\<close>

definition attribute_eq :: "attribute \<Rightarrow> attribute \<Rightarrow> bool" where
  "attribute_eq lhs rhs \<longleftrightarrow>
     lval lhs = lval rhs \<and> to_call lhs = to_call rhs \<and> attributes lhs = attributes rhs"

definition wrapped_eq :: "wrapped \<Rightarrow> wrapped \<Rightarrow> bool" where
  "wrapped_eq lhs rhs \<longleftrightarrow> snd lhs = snd rhs \<and> attribute_eq (fst rhs) (fst lhs)"

text \<open>
  \<open>operator==(expr, expr)\<close>: the right operand is visited by a comparison that holds the left
  one; two nodes of different alternatives differ, and the payloads of equal alternatives are
  compared as \<open>right == left\<close>. Vectors are equal when they have the same length and equal
  elements, maps when their entries are equal in order.
\<close>

function expr_eq :: "expr \<Rightarrow> expr \<Rightarrow> bool" where
  "expr_eq lhs rhs =
     (case (rhs, lhs) of
        (Integer a v, Integer b w) \<Rightarrow> v = w \<and> attribute_eq b a
      | (Decimal a v, Decimal b w) \<Rightarrow> double_eq v w \<and> attribute_eq b a
      | (Boolean a v, Boolean b w) \<Rightarrow> v = w \<and> attribute_eq b a
      | (String a v, String b w) \<Rightarrow> v = w \<and> attribute_eq b a
      | (Variable a v, Variable b w) \<Rightarrow> v = w \<and> attribute_eq b a
      | (PreVariable a v, PreVariable b w) \<Rightarrow> v = w \<and> attribute_eq b a
      | (Identifier a v, Identifier b w) \<Rightarrow> v = w \<and> attribute_eq b a
      | (StructKey a v, StructKey b w) \<Rightarrow> v = w \<and> attribute_eq b a
      | (AttributeVal a v, AttributeVal b w) \<Rightarrow> v = w \<and> attribute_eq b a
      | (Array a xs, Array b ys) \<Rightarrow> list_all2 expr_eq xs ys \<and> attribute_eq b a
      | (ArgList a xs, ArgList b ys) \<Rightarrow> list_all2 expr_eq xs ys \<and> attribute_eq b a
      | (Scope a xs, Scope b ys) \<Rightarrow> list_all2 expr_eq xs ys \<and> attribute_eq b a
      | (Structure a xs, Structure b ys) \<Rightarrow>
          list_all2 (\<lambda>p q. wrapped_eq (fst p) (fst q) \<and> expr_eq (snd p) (snd q)) xs ys \<and>
          attribute_eq b a
      | (Function a ps xs, Function b qs ys) \<Rightarrow>
          list_all2 wrapped_eq ps qs \<and> list_all2 expr_eq xs ys \<and> attribute_eq b a
      | (SingleOp o1 a x, SingleOp o2 b y) \<Rightarrow> o1 = o2 \<and> expr_eq y x
      | (BinaryOp o1 a x1 x2, BinaryOp o2 b y1 y2) \<Rightarrow> o1 = o2 \<and> expr_eq y1 x1 \<and> expr_eq y2 x2
      | (TernaryOp o1 a x1 x2 x3, TernaryOp o2 b y1 y2 y3) \<Rightarrow>
          o1 = o2 \<and> expr_eq y1 x1 \<and> expr_eq y2 x2 \<and> expr_eq y3 x3
      | _ \<Rightarrow> False)"
  by pat_completeness auto
termination
  by (relation "measure (\<lambda>(lhs, rhs). size lhs + size rhs)")
     (auto dest!: size_mem_le size_snd_mem_le)

declare expr_eq.simps [simp del]

section \<open>The canonical form\<close>

text \<open>What the comparison can see of a tree.\<close>

definition canon_attr :: "attribute \<Rightarrow> attribute" where
  "canon_attr a =
     \<lparr>where_at = LocEmpty, attributes = attributes a, lval = lval a, to_call = to_call a,
      survey = False\<rparr>"

definition canon_wrapped :: "wrapped \<Rightarrow> wrapped" where
  "canon_wrapped w = (canon_attr (fst w), snd w)"

fun canon :: "expr \<Rightarrow> expr" where
  "canon (Integer a v) = Integer (canon_attr a) v"
| "canon (Decimal a v) = Decimal (canon_attr a) (double_canon v)"
| "canon (Boolean a v) = Boolean (canon_attr a) v"
| "canon (String a v) = String (canon_attr a) v"
| "canon (Variable a v) = Variable (canon_attr a) v"
| "canon (PreVariable a v) = PreVariable (canon_attr a) v"
| "canon (Identifier a v) = Identifier (canon_attr a) v"
| "canon (StructKey a v) = StructKey (canon_attr a) v"
| "canon (Array a xs) = Array (canon_attr a) (map canon xs)"
| "canon (ArgList a xs) = ArgList (canon_attr a) (map canon xs)"
| "canon (Structure a ms) =
     Structure (canon_attr a) (map (\<lambda>m. (canon_wrapped (fst m), canon (snd m))) ms)"
| "canon (Function a ps xs) = Function (canon_attr a) (map canon_wrapped ps) (map canon xs)"
| "canon (Scope a xs) = Scope (canon_attr a) (map canon xs)"
| "canon (AttributeVal a v) = AttributeVal (canon_attr a) v"
| "canon (SingleOp op a x) = SingleOp op new_attribute (canon x)"
| "canon (BinaryOp op a x y) = BinaryOp op new_attribute (canon x) (canon y)"
| "canon (TernaryOp op a x y z) = TernaryOp op new_attribute (canon x) (canon y) (canon z)"

text \<open>No decimal in the tree is a NaN.\<close>

fun no_nan :: "expr \<Rightarrow> bool" where
  "no_nan (Decimal a v) = (\<not> is_nan v)"
| "no_nan (Array a xs) = list_all no_nan xs"
| "no_nan (ArgList a xs) = list_all no_nan xs"
| "no_nan (Structure a ms) = list_all (\<lambda>m. no_nan (snd m)) ms"
| "no_nan (Function a ps xs) = list_all no_nan xs"
| "no_nan (Scope a xs) = list_all no_nan xs"
| "no_nan (SingleOp op a x) = no_nan x"
| "no_nan (BinaryOp op a x y) = (no_nan x \<and> no_nan y)"
| "no_nan (TernaryOp op a x y z) = (no_nan x \<and> no_nan y \<and> no_nan z)"
| "no_nan _ = True"

interpretation attr_cmp: canonical_eq attribute_eq "\<lambda>_. True" canon_attr
  by unfold_locales (auto simp: attribute_eq_def canon_attr_def)

interpretation wrapped_cmp: canonical_eq wrapped_eq "\<lambda>_. True" canon_wrapped
  by unfold_locales (auto simp: wrapped_eq_def canon_wrapped_def attr_cmp.eq_iff)

lemma wrapped_list_eq: "list_all2 wrapped_eq ps qs \<longleftrightarrow> map canon_wrapped ps = map canon_wrapped qs"
  using list_all2_canonical [of ps wrapped_eq "\<lambda>_. True" canon_wrapped qs]
  by (simp add: wrapped_cmp.eq_iff list_all_iff)

abbreviation same_tree :: "expr \<Rightarrow> expr \<Rightarrow> bool" where
  "same_tree a b \<equiv> no_nan a \<and> no_nan b \<and> canon a = canon b"

lemma expr_list_eq:
  "(\<And>x y. x \<in> set xs \<Longrightarrow> expr_eq x y \<longleftrightarrow> same_tree x y) \<Longrightarrow>
   list_all2 expr_eq xs ys \<longleftrightarrow> list_all no_nan xs \<and> list_all no_nan ys \<and> map canon xs = map canon ys"
  by (rule list_all2_canonical)

lemma expr_list_eq_flip:
  "(\<And>x y. x \<in> set xs \<Longrightarrow> expr_eq y x \<longleftrightarrow> same_tree y x) \<Longrightarrow>
   list_all2 expr_eq ys xs \<longleftrightarrow> list_all no_nan ys \<and> list_all no_nan xs \<and> map canon ys = map canon xs"
  by (rule list_all2_canonical_flip)

lemmas member_eq = list_all2_canonical [where canon = "\<lambda>m. (canon_wrapped (fst m), canon (snd m))"
  and ok = "\<lambda>m. no_nan (snd m)"]

lemmas member_eq_flip = list_all2_canonical_flip
  [where canon = "\<lambda>m. (canon_wrapped (fst m), canon (snd m))" and ok = "\<lambda>m. no_nan (snd m)"]

lemma expr_eq_canon_both:
  "(\<forall>b. expr_eq a b \<longleftrightarrow> same_tree a b) \<and> (\<forall>b. expr_eq b a \<longleftrightarrow> same_tree b a)"
proof (induction a)
  case (Structure a ms)
  have 1: "list_all2 (\<lambda>p q. wrapped_eq (fst p) (fst q) \<and> expr_eq (snd p) (snd q)) ms ns \<longleftrightarrow>
      list_all (\<lambda>m. no_nan (snd m)) ms \<and> list_all (\<lambda>m. no_nan (snd m)) ns \<and>
      map (\<lambda>m. (canon_wrapped (fst m), canon (snd m))) ms =
      map (\<lambda>m. (canon_wrapped (fst m), canon (snd m))) ns" for ns
    by (rule member_eq) (use Structure in \<open>force simp: wrapped_cmp.eq_iff\<close>)
  have 2: "list_all2 (\<lambda>p q. wrapped_eq (fst p) (fst q) \<and> expr_eq (snd p) (snd q)) ns ms \<longleftrightarrow>
      list_all (\<lambda>m. no_nan (snd m)) ns \<and> list_all (\<lambda>m. no_nan (snd m)) ms \<and>
      map (\<lambda>m. (canon_wrapped (fst m), canon (snd m))) ns =
      map (\<lambda>m. (canon_wrapped (fst m), canon (snd m))) ms" for ns
    by (rule member_eq_flip) (use Structure in \<open>force simp: wrapped_cmp.eq_iff\<close>)
  show ?case
    by (intro conjI allI; subst expr_eq.simps)
       (auto simp: 1 2 attr_cmp.eq_iff split: expr.splits)
next
  case (Array a xs)
  then show ?case
    by (intro conjI allI; subst expr_eq.simps)
       (auto simp: expr_list_eq expr_list_eq_flip attr_cmp.eq_iff split: expr.splits)
next
  case (ArgList a xs)
  then show ?case
    by (intro conjI allI; subst expr_eq.simps)
       (auto simp: expr_list_eq expr_list_eq_flip attr_cmp.eq_iff split: expr.splits)
next
  case (Scope a xs)
  then show ?case
    by (intro conjI allI; subst expr_eq.simps)
       (auto simp: expr_list_eq expr_list_eq_flip attr_cmp.eq_iff split: expr.splits)
next
  case (Function a ps xs)
  then show ?case
    by (intro conjI allI; subst expr_eq.simps)
       (auto simp: expr_list_eq expr_list_eq_flip wrapped_list_eq attr_cmp.eq_iff split: expr.splits)
qed (intro conjI allI; subst expr_eq.simps;
     auto simp: double_eq_canon attr_cmp.eq_iff split: expr.splits)+

lemma expr_eq_canon: "expr_eq a b \<longleftrightarrow> same_tree a b"
  using expr_eq_canon_both by blast

interpretation expr_cmp: canonical_eq expr_eq no_nan canon
  by unfold_locales (rule expr_eq_canon)

section \<open>Properties\<close>

text \<open>
  C17. The comparison of two trees decides whether they have the same canonical form, on trees
  whose decimals are numbers: locations and survey flags never matter, the attribute of a literal
  matters (its \<open>lval\<close>, its \<open>to_call\<close> and its attribute map), the attribute of an operator node
  does not, and a tree that holds a NaN differs from every tree.
\<close>

theorem expr_eq_decides_canon:
  "expr_eq a b = (no_nan a \<and> no_nan b \<and> canon a = canon b)"
  by (rule expr_cmp.eq_iff)

text \<open>
  On trees without NaN the comparison is an equivalence relation.
\<close>

lemma expr_eq_equivalence:
  "(expr_eq a a \<longleftrightarrow> no_nan a) \<and> (expr_eq a b \<longleftrightarrow> expr_eq b a) \<and>
   (expr_eq a b \<and> expr_eq b c \<longrightarrow> expr_eq a c)"
  using expr_cmp.eq_refl_iff expr_cmp.eq_sym expr_cmp.eq_trans by blast

text \<open>
  The attribute of an operator node is invisible to the comparison: the two trees that differ
  only in whether an operator node is marked as an assignment target or as a callee are equal.
\<close>

lemma expr_eq_ignores_operator_attribute:
  "expr_eq (BinaryOp op a x y) (BinaryOp op b x y) = (no_nan x \<and> no_nan y)"
  by (auto simp: expr_eq_canon)

end
