(* ===== verification/Ast_Printer.thy ===== *)
theory Ast_Printer
  imports Ast
begin

text \<open>
  Printing of syntax trees: \<open>include/scopion/ast/printer.hpp\<close>. The visitor writes to a stream; the
  model returns what is written. The text of a \<open>double\<close> depends on the formatting state of the
  stream and is the argument \<open>sd\<close>.
\<close>

definition bool_string :: "bool \<Rightarrow> string" where
  "bool_string b = (if b then ''true'' else ''false'')"

definition lhs_mark :: "attribute \<Rightarrow> string" where
  "lhs_mark a = (if lval a then ''(lhs)'' else [])"

definition paren :: "string \<Rightarrow> string" where
  "paren s = ''('' @ s @ '')''"

text \<open>
  Visiting a node through the variants \<open>value\<close> and \<open>operators\<close> puts it in parentheses; the
  identifiers of a parameter list and the keys of a structure are printed directly. There is no
  overload for \<open>pre_variable\<close> and \<open>attribute_val\<close>: they convert to their base class \<open>string\<close>
  and are printed in quotes.
\<close>

fun print_expr :: "(double \<Rightarrow> string) \<Rightarrow> expr \<Rightarrow> string" where
  "print_expr sd (Integer a v) =
     paren (int_string v)"
| "print_expr sd (Decimal a v) =
     paren (sd v)"
| "print_expr sd (Boolean a v) =
     paren (bool_string v)"
| "print_expr sd (String a v) =
     paren ([CHR 0x22] @ v @ [CHR 0x22])"
| "print_expr sd (Variable a v) =
     paren (v @ (if to_call a then ''{}'' else []) @ lhs_mark a)"
| "print_expr sd (PreVariable a v) =
     paren ([CHR 0x22] @ v @ [CHR 0x22])"
| "print_expr sd (Identifier a v) =
     paren v"
| "print_expr sd (StructKey a v) =
     paren v"
| "print_expr sd (AttributeVal a v) =
     paren ([CHR 0x22] @ v @ [CHR 0x22])"
| "print_expr sd (Array a xs) =
     paren (''[ '' @ concat (map (\<lambda>x. print_expr sd x @ '', '') xs) @ '']'')"
| "print_expr sd (ArgList a xs) =
     paren (concat (map (\<lambda>x. print_expr sd x @ '', '') xs))"
| "print_expr sd (Structure a ms) =
     paren (''{ '' @ concat (map (\<lambda>m. snd (fst m) @ '':'' @ print_expr sd (snd m) @ '', '') ms) @ ''}'')"
| "print_expr sd (Function a ps xs) =
     paren (''( '' @ concat (map (\<lambda>p. snd p @ '', '') ps) @ ''){ ''
     @ concat (map (\<lambda>x. print_expr sd x @ ''; '') xs) @ ''} '')"
| "print_expr sd (Scope a xs) =
     paren (''{ '' @ concat (map (\<lambda>x. print_expr sd x @ ''; '') xs) @ ''} '')"
| "print_expr sd (SingleOp op a x) =
     paren (''{ '' @ print_expr sd x @ '' '' @ sinop_str op @ '' '' @ '' }'' @ lhs_mark a)"
| "print_expr sd (BinaryOp op a x y) =
     paren (''{ '' @ print_expr sd x @ '' '' @ binop_str op @ '' ''
     @ print_expr sd y @ '' '' @ binop_str op @ '' '' @ '' }'' @ lhs_mark a)"
| "print_expr sd (TernaryOp op a x y z) =
     paren (''{ '' @ print_expr sd x @ '' '' @ [ternop_str op ! 0] @ '' ''
     @ print_expr sd y @ '' '' @ [ternop_str op ! 1] @ '' '' @ print_expr sd z @ '' }''
     @ lhs_mark a)"

section \<open>Balanced output\<close>

text \<open>The texts in which every parenthesis has its partner.\<close>

inductive balanced :: "string \<Rightarrow> bool" where
  empty: "balanced []"
| char: "c \<noteq> CHR ''('' \<Longrightarrow> c \<noteq> CHR '')'' \<Longrightarrow> balanced s \<Longrightarrow> balanced (c # s)"
| nest: "balanced s \<Longrightarrow> balanced t \<Longrightarrow> balanced (CHR ''('' # s @ CHR '')'' # t)"

text \<open>The free texts of a tree: the contents of its names, keys and string literals.\<close>

fun texts :: "expr \<Rightarrow> string list" where
  "texts (Integer a v) = []"
| "texts (Decimal a v) = []"
| "texts (Boolean a v) = []"
| "texts (String a v) = [v]"
| "texts (Variable a v) = [v]"
| "texts (PreVariable a v) = [v]"
| "texts (Identifier a v) = [v]"
| "texts (StructKey a v) = [v]"
| "texts (AttributeVal a v) = [v]"
| "texts (Array a xs) = concat (map texts xs)"
| "texts (ArgList a xs) = concat (map texts xs)"
| "texts (Structure a ms) = map (\<lambda>m. snd (fst m)) ms @ concat (map (\<lambda>m. texts (snd m)) ms)"
| "texts (Function a ps xs) = map snd ps @ concat (map texts xs)"
| "texts (Scope a xs) = concat (map texts xs)"
| "texts (SingleOp op a x) = texts x"
| "texts (BinaryOp op a x y) = texts x @ texts y"
| "texts (TernaryOp op a x y z) = texts x @ texts y @ texts z"

named_theorems balanced_intros

lemma balanced_append [balanced_intros]: "balanced s \<Longrightarrow> balanced t \<Longrightarrow> balanced (s @ t)"
  by (induction rule: balanced.induct) (auto intro: balanced.intros)

lemma balanced_concat [balanced_intros]: "(\<And>s. s \<in> set ss \<Longrightarrow> balanced s) \<Longrightarrow> balanced (concat ss)"
  by (induction ss) (auto intro: balanced.intros balanced_append)

lemma balanced_parens: "balanced s \<Longrightarrow> balanced (CHR ''('' # s @ '')'')"
  using balanced.nest [OF _ balanced.empty] by simp

lemma balanced_paren [balanced_intros]: "balanced s \<Longrightarrow> balanced (paren s)"
  by (simp add: paren_def balanced_parens)

lemma balanced_nest1 [balanced_intros]:
  "c \<noteq> CHR ''('' \<Longrightarrow> c \<noteq> CHR '')'' \<Longrightarrow> balanced s \<Longrightarrow> balanced t \<Longrightarrow>
   balanced (CHR ''('' # c # s @ CHR '')'' # t)"
  using balanced.nest [OF balanced.char] by simp

lemma balanced_plain:
  "CHR ''('' \<notin> set s \<Longrightarrow> CHR '')'' \<notin> set s \<Longrightarrow> balanced s"
  by (induction s) (auto intro: balanced.intros)

lemma balanced_Cons_iff [simp]:
  "c \<noteq> CHR ''('' \<Longrightarrow> c \<noteq> CHR '')'' \<Longrightarrow> balanced (c # s) \<longleftrightarrow> balanced s"
  by (auto intro: balanced.char elim: balanced.cases)

lemma balanced_Nil [simp]: "balanced []"
  by (rule balanced.empty)

lemma balanced_marks [balanced_intros]:
  "balanced (lhs_mark a)" "balanced (bool_string b)" "balanced (binop_str op)"
  "balanced (sinop_str op1)"
proof -
  show "balanced (lhs_mark a)"
    using balanced_parens [of "''lhs''"] by (simp add: lhs_mark_def)
  show "balanced (bool_string b)"
    by (simp add: bool_string_def)
  show "balanced (binop_str op)"
    using balanced_parens [of "[]"] by (cases op) simp_all
  show "balanced (sinop_str op1)" by (cases op1) simp_all
qed

lemma ternop_chars [simp]:
  "ternop_str op ! 0 = CHR ''?''" "ternop_str op ! Suc 0 = CHR '':''"
  by (cases op; simp)+

lemma set_nat_string: "c \<in> set (nat_string n) \<Longrightarrow> 48 \<le> (of_char c :: nat)"
  by (induction n rule: nat_string.induct) (subst (asm) nat_string.simps, auto split: if_splits)

lemma balanced_nat_string [balanced_intros]: "balanced (nat_string n)"
  by (rule balanced_plain) (auto dest!: set_nat_string)

lemma balanced_int_string [balanced_intros]: "balanced (int_string v)"
  by (auto simp: int_string_def intro: balanced_nat_string balanced.char)

lemma print_expr_balanced_aux:
  assumes "\<And>d. balanced (sd d)"
  shows "(\<forall>s \<in> set (texts e). balanced s) \<longrightarrow> balanced (print_expr sd e)"
proof (induction e)
  case (Structure a ms)
  have "balanced (snd (fst m) @ '':'' @ print_expr sd (snd m) @ '', '')"
    if "m \<in> set ms" "\<forall>s \<in> set (texts (Structure a ms)). balanced s" for m
  proof -
    have "balanced (snd (fst m))" "\<forall>s \<in> set (texts (snd m)). balanced s"
      using that by auto
    moreover have "balanced (print_expr sd (snd m))"
      using Structure.IH [of m "snd m"] that(1) calculation(2) by (cases m) auto
    ultimately show ?thesis by (auto intro!: balanced_append)
  qed
  then have "balanced (concat (map (\<lambda>m. snd (fst m) @ '':'' @ print_expr sd (snd m) @ '', '') ms))"
    if "\<forall>s \<in> set (texts (Structure a ms)). balanced s"
    using that by (intro balanced_concat) auto
  then show ?case
    by (simp only: print_expr.simps) (auto intro!: balanced_paren balanced_append)
next
  case (Function a ps xs)
  have "balanced (print_expr sd x)"
    if "x \<in> set xs" "\<forall>s \<in> set (texts (Function a ps xs)). balanced s" for x
    using Function that by auto
  moreover have "balanced (snd p)"
    if "p \<in> set ps" "\<forall>s \<in> set (texts (Function a ps xs)). balanced s" for p
    using that by simp
  ultimately show ?case
    by (simp only: print_expr.simps) (auto intro!: balanced_intros simp del: texts.simps)
qed (auto intro!: balanced_intros assms)

section \<open>Properties\<close>



end
