(* ===== verification/Linker_Flags.thy ===== *)
theory Linker_Flags
  imports Scopion_Prelude
begin

text \<open>
  The link libraries of a module: \<open>module::generateLinkerFlags\<close> of \<open>lib/assembly/module.cpp\<close>.
  The translator appends to the vector \<open>link_libraries_\<close>; at the end of a compilation the vector
  is sorted, its duplicates are dropped with \<open>std::unique\<close>, and the flags are written out.
\<close>

text \<open>
  \<open>std::unique\<close> moves the first element of every run to the front and leaves the elements after
  them unspecified: they are the argument \<open>moved\<close>, and the vector keeps its length. The result is
  the flags and the vector afterwards.
\<close>

definition generateLinkerFlags :: "string list \<Rightarrow> string list \<Rightarrow> string \<times> string list" where
  "generateLinkerFlags moved libs =
     (let sorted_libs = sort libs;
          result = remdups_adj sorted_libs
      in (foldl (\<lambda>str1 str2. str1 @ ''-l'' @ str2 @ '' '') [] result,
          result @ take (length sorted_libs - length result) moved))"

lemma distinct_remdups_adj: "sorted (xs :: 'a::linorder list) \<Longrightarrow> distinct (remdups_adj xs)"
  by (induction xs rule: remdups_adj.induct) (auto simp: less_le_not_le dest: order_antisym)

lemma remdups_adj_sort: "remdups_adj (sort xs) = sorted_list_of_set (set xs)"
proof (rule sorted_distinct_set_unique)
  show "distinct (remdups_adj (sort xs))"
    by (rule distinct_remdups_adj) simp
qed (simp_all add: sorted_remdups_adj)

lemma foldl_append_map: "foldl (\<lambda>acc x. acc @ f x) acc xs = acc @ concat (map f xs)"
  by (induction xs arbitrary: acc) auto

text \<open>
  The linker flags name every library that was asked for exactly once, in ascending order,
  whatever the order and the number of the requests.
\<close>

lemma generateLinkerFlags_set:
  "fst (generateLinkerFlags moved libs) =
     concat (map (\<lambda>l. ''-l'' @ l @ '' '') (sorted_list_of_set (set libs)))"
  by (simp add: generateLinkerFlags_def remdups_adj_sort Let_def
      foldl_append_map [where f = "\<lambda>l. ''-l'' @ l @ '' ''", simplified])

end
