(* ===== verification/Peg.thy ===== *)
theory Peg
  imports Ast
begin

text \<open>
  The parser-combinator interface of the grammar. The grammar of \<open>lib/parser/parser.cpp\<close> is an
  expression over the combinators of Boost.Spirit X3, a library the repository only calls. Such an
  expression is a value of the datatype \<open>peg\<close>. The engine that runs it is an argument of the
  parser; what the parser relies on is stated by the relation \<open>derives\<close>, one rule per documented
  behaviour of a combinator, and by \<open>x3_conforms\<close>, which says that an engine returns exactly the
  results that are derivable. \<open>x3_exec\<close> is one such engine and shows that the assumption can be
  met.
\<close>

section \<open>Grammar expressions\<close>

datatype charset = Alpha | Alnum | Space | AnyChar | OneOf string

datatype prim = Lit string | Chr charset | RealP | IntP | BoolP

text \<open>
  \<open>Seq\<close> is \<open>>>\<close>, \<open>Expect\<close> is \<open>>\<close> (its right side must match), \<open>Alt\<close> is \<open>|\<close>, \<open>Star\<close> is the
  prefix \<open>*\<close>, \<open>Opt\<close> the prefix \<open>-\<close>, \<open>Diff\<close> the infix \<open>-\<close>, \<open>Rep n\<close> is \<open>repeat(n)[]\<close>, \<open>Act\<close>
  attaches a semantic action, \<open>NT\<close> calls a rule. \<open>PreSkip\<close> is the skipping that a primitive
  parser, \<open>lexeme\<close> and \<open>raw\<close> do before they match.
\<close>

datatype ('n, 'f) peg =
    Prim prim
  | PreSkip
  | Seq "('n, 'f) peg" "('n, 'f) peg"
  | Expect "('n, 'f) peg" "('n, 'f) peg"
  | Alt "('n, 'f) peg" "('n, 'f) peg"
  | Star "('n, 'f) peg"
  | Opt "('n, 'f) peg"
  | Diff "('n, 'f) peg" "('n, 'f) peg"
  | Rep nat "('n, 'f) peg"
  | Lexeme "('n, 'f) peg"
  | Raw "('n, 'f) peg"
  | Act "('n, 'f) peg" 'f
  | NT 'n

text \<open>Synthesised attributes.\<close>

datatype attrv =
    AUnused
  | AChar char
  | AStr string
  | AInt int32
  | AReal double
  | ABool bool
  | AExpr expr
  | ATup "attrv list"
  | AVec "attrv list"
  | AOpt "attrv option"

fun has_attr :: "('n, 'f) peg \<Rightarrow> bool" where
  "has_attr (Prim (Lit s)) = False"
| "has_attr (Prim p) = True"
| "has_attr PreSkip = False"
| "has_attr (Seq l r) = (has_attr l \<or> has_attr r)"
| "has_attr (Expect l r) = (has_attr l \<or> has_attr r)"
| "has_attr (Alt l r) = (has_attr l \<or> has_attr r)"
| "has_attr (Star g) = has_attr g"
| "has_attr (Opt g) = has_attr g"
| "has_attr (Diff l r) = has_attr l"
| "has_attr (Rep n g) = has_attr g"
| "has_attr (Lexeme g) = has_attr g"
| "has_attr (Raw g) = True"
| "has_attr (Act g f) = has_attr g"
| "has_attr (NT n) = True"

text \<open>
  The attribute of a sequence: unused parts are left out, a single part stands for itself, several
  parts form a flat tuple. An alternative of a used and an unused part is optional.
\<close>

definition seq_parts :: "('n, 'f) peg \<Rightarrow> attrv \<Rightarrow> attrv list" where
  "seq_parts g a = (if has_attr g then (case a of ATup xs \<Rightarrow> xs | _ \<Rightarrow> [a]) else [])"

fun tuple_attr :: "attrv list \<Rightarrow> attrv" where
  "tuple_attr [] = AUnused"
| "tuple_attr [a] = a"
| "tuple_attr as = ATup as"

definition seq_attr :: "('n, 'f) peg \<Rightarrow> ('n, 'f) peg \<Rightarrow> attrv \<Rightarrow> attrv \<Rightarrow> attrv" where
  "seq_attr l r a b = tuple_attr (seq_parts l a @ seq_parts r b)"

definition alt_attr :: "('n, 'f) peg \<Rightarrow> ('n, 'f) peg \<Rightarrow> attrv \<Rightarrow> attrv" where
  "alt_attr taken other a =
     (if has_attr taken = has_attr other then a
      else if has_attr taken then AOpt (Some a)
      else AOpt None)"

section \<open>The engine's surroundings\<close>

text \<open>
  What the engine is given by the program: the input, the rules with their error handlers, the
  skipper and the meaning of the actions; and what it brings: the numeric parsers (value and number
  of characters on a matching prefix), the name \<open>what\<close> of a parser in a failed expectation, the
  position \<open>where_pos\<close> an action sees for a match, and the position \<open>fail_at\<close> a failed expectation
  reports.
\<close>

record ('n, 'f) x3 =
  input :: string
  rule_def :: "'n \<Rightarrow> ('n, 'f) peg"
  on_error :: "'n \<Rightarrow> (nat \<Rightarrow> nat \<Rightarrow> string \<Rightarrow> error) option"
  skipper :: "('n, 'f) peg"
  action :: "'f \<Rightarrow> nat \<Rightarrow> attrv \<Rightarrow> expr \<Rightarrow> expr option"
  real_p :: "string \<Rightarrow> (double \<times> nat) option"
  int_p :: "string \<Rightarrow> (int32 \<times> nat) option"
  bool_p :: "string \<Rightarrow> (bool \<times> nat) option"
  what :: "('n, 'f) peg \<Rightarrow> string"
  where_pos :: "nat \<Rightarrow> nat \<Rightarrow> nat"
  fail_at :: "('n, 'f) peg \<Rightarrow> nat \<Rightarrow> nat"

datatype exn = ExpectFail nat string | ThrowError error | BadGet

text \<open>A match with its end, its attribute and the value of the enclosing rule; a mismatch; an exception.\<close>

datatype pres = POk nat attrv expr | PFail expr | PRaise exn

definition is_alpha :: "char \<Rightarrow> bool" where
  "is_alpha c \<longleftrightarrow>
     (let n = (of_char c :: nat) in 65 \<le> n \<and> n \<le> 90 \<or> 97 \<le> n \<and> n \<le> 122)"

definition is_digit :: "char \<Rightarrow> bool" where
  "is_digit c \<longleftrightarrow> (let n = (of_char c :: nat) in 48 \<le> n \<and> n \<le> 57)"

fun in_charset :: "charset \<Rightarrow> char \<Rightarrow> bool" where
  "in_charset Alpha c = is_alpha c"
| "in_charset Alnum c = (is_alpha c \<or> is_digit c)"
| "in_charset Space c = (let n = (of_char c :: nat) in n = 32 \<or> 9 \<le> n \<and> n \<le> 13)"
| "in_charset AnyChar c = True"
| "in_charset (OneOf s) c = List.member s c"

fun prim_match :: "('n, 'f) x3 \<Rightarrow> prim \<Rightarrow> string \<Rightarrow> (nat \<times> attrv) option" where
  "prim_match X (Lit s) t = (if take (length s) t = s then Some (length s, AUnused) else None)"
| "prim_match X (Chr cs) [] = None"
| "prim_match X (Chr cs) (c # t) = (if in_charset cs c then Some (1, AChar c) else None)"
| "prim_match X RealP t = map_option (\<lambda>(d, n). (n, AReal d)) (real_p X t)"
| "prim_match X IntP t = map_option (\<lambda>(d, n). (n, AInt d)) (int_p X t)"
| "prim_match X BoolP t = map_option (\<lambda>(d, n). (n, ABool d)) (bool_p X t)"

section \<open>Documented behaviour\<close>

text \<open>
  \<open>derives X sk g i v r\<close>: with skipping \<open>sk\<close>, the parser \<open>g\<close> started at \<open>i\<close> with the rule value
  \<open>v\<close> has the result \<open>r\<close>. Actions run when their parser has matched, and what they did to the rule
  value stays when an enclosing parser fails later.
\<close>

inductive derives :: "('n, 'f) x3 \<Rightarrow> bool \<Rightarrow> ('n, 'f) peg \<Rightarrow> nat \<Rightarrow> expr \<Rightarrow> pres \<Rightarrow> bool"
  for X :: "('n, 'f) x3" where
  skip_off: "derives X False PreSkip i v (POk i AUnused v)"
| skip_on: "derives X False (Star (skipper X)) i v (POk j a w) \<Longrightarrow>
    derives X True PreSkip i v (POk j AUnused v)"
| skip_raise: "derives X False (Star (skipper X)) i v (PRaise x) \<Longrightarrow>
    derives X True PreSkip i v (PRaise x)"
| prim_ok: "derives X sk PreSkip i v (POk j b w) \<Longrightarrow>
    prim_match X p (drop j (input X)) = Some (n, a) \<Longrightarrow>
    derives X sk (Prim p) i v (POk (j + n) a v)"
| prim_fail: "derives X sk PreSkip i v (POk j b w) \<Longrightarrow>
    prim_match X p (drop j (input X)) = None \<Longrightarrow>
    derives X sk (Prim p) i v (PFail v)"
| prim_raise: "derives X sk PreSkip i v (PRaise x) \<Longrightarrow> derives X sk (Prim p) i v (PRaise x)"
| seq_ok: "derives X sk l i v (POk j a v1) \<Longrightarrow> derives X sk r j v1 (POk k b v2) \<Longrightarrow>
    derives X sk (Seq l r) i v (POk k (seq_attr l r a b) v2)"
| seq_fail_l: "derives X sk l i v (PFail v1) \<Longrightarrow> derives X sk (Seq l r) i v (PFail v1)"
| seq_fail_r: "derives X sk l i v (POk j a v1) \<Longrightarrow> derives X sk r j v1 (PFail v2) \<Longrightarrow>
    derives X sk (Seq l r) i v (PFail v2)"
| seq_raise_l: "derives X sk l i v (PRaise x) \<Longrightarrow> derives X sk (Seq l r) i v (PRaise x)"
| seq_raise_r: "derives X sk l i v (POk j a v1) \<Longrightarrow> derives X sk r j v1 (PRaise x) \<Longrightarrow>
    derives X sk (Seq l r) i v (PRaise x)"
| expect_ok: "derives X sk l i v (POk j a v1) \<Longrightarrow> derives X sk r j v1 (POk k b v2) \<Longrightarrow>
    derives X sk (Expect l r) i v (POk k (seq_attr l r a b) v2)"
| expect_fail_l: "derives X sk l i v (PFail v1) \<Longrightarrow> derives X sk (Expect l r) i v (PFail v1)"
| expect_fail_r: "derives X sk l i v (POk j a v1) \<Longrightarrow> derives X sk r j v1 (PFail v2) \<Longrightarrow>
    derives X sk (Expect l r) i v (PRaise (ExpectFail (fail_at X r j) (what X r)))"
| expect_raise_l: "derives X sk l i v (PRaise x) \<Longrightarrow> derives X sk (Expect l r) i v (PRaise x)"
| expect_raise_r: "derives X sk l i v (POk j a v1) \<Longrightarrow> derives X sk r j v1 (PRaise x) \<Longrightarrow>
    derives X sk (Expect l r) i v (PRaise x)"
| alt_ok_l: "derives X sk l i v (POk j a v1) \<Longrightarrow>
    derives X sk (Alt l r) i v (POk j (alt_attr l r a) v1)"
| alt_ok_r: "derives X sk l i v (PFail v1) \<Longrightarrow> derives X sk r i v1 (POk j a v2) \<Longrightarrow>
    derives X sk (Alt l r) i v (POk j (alt_attr r l a) v2)"
| alt_fail: "derives X sk l i v (PFail v1) \<Longrightarrow> derives X sk r i v1 (PFail v2) \<Longrightarrow>
    derives X sk (Alt l r) i v (PFail v2)"
| alt_raise_l: "derives X sk l i v (PRaise x) \<Longrightarrow> derives X sk (Alt l r) i v (PRaise x)"
| alt_raise_r: "derives X sk l i v (PFail v1) \<Longrightarrow> derives X sk r i v1 (PRaise x) \<Longrightarrow>
    derives X sk (Alt l r) i v (PRaise x)"
| star_more: "derives X sk g i v (POk j a v1) \<Longrightarrow>
    derives X sk (Star g) j v1 (POk k (AVec as) v2) \<Longrightarrow>
    derives X sk (Star g) i v (POk k (AVec (a # as)) v2)"
| star_stop: "derives X sk g i v (PFail v1) \<Longrightarrow> derives X sk (Star g) i v (POk i (AVec []) v1)"
| star_raise: "derives X sk g i v (PRaise x) \<Longrightarrow> derives X sk (Star g) i v (PRaise x)"
| star_raise_more: "derives X sk g i v (POk j a v1) \<Longrightarrow>
    derives X sk (Star g) j v1 (PRaise x) \<Longrightarrow> derives X sk (Star g) i v (PRaise x)"
| opt_some: "derives X sk g i v (POk j a v1) \<Longrightarrow> derives X sk (Opt g) i v (POk j (AOpt (Some a)) v1)"
| opt_none: "derives X sk g i v (PFail v1) \<Longrightarrow> derives X sk (Opt g) i v (POk i (AOpt None) v1)"
| opt_raise: "derives X sk g i v (PRaise x) \<Longrightarrow> derives X sk (Opt g) i v (PRaise x)"
| diff_hit: "derives X sk r i v (POk j a v1) \<Longrightarrow> derives X sk (Diff l r) i v (PFail v1)"
| diff_miss: "derives X sk r i v (PFail v1) \<Longrightarrow> derives X sk l i v1 res \<Longrightarrow>
    derives X sk (Diff l r) i v res"
| diff_raise: "derives X sk r i v (PRaise x) \<Longrightarrow> derives X sk (Diff l r) i v (PRaise x)"
| rep_done: "derives X sk (Rep 0 g) i v (POk i (AVec []) v)"
| rep_more: "derives X sk g i v (POk j a v1) \<Longrightarrow>
    derives X sk (Rep n g) j v1 (POk k (AVec as) v2) \<Longrightarrow>
    derives X sk (Rep (Suc n) g) i v (POk k (AVec (a # as)) v2)"
| rep_fail: "derives X sk g i v (PFail v1) \<Longrightarrow> derives X sk (Rep (Suc n) g) i v (PFail v1)"
| rep_fail_more: "derives X sk g i v (POk j a v1) \<Longrightarrow> derives X sk (Rep n g) j v1 (PFail v2) \<Longrightarrow>
    derives X sk (Rep (Suc n) g) i v (PFail v2)"
| rep_raise: "derives X sk g i v (PRaise x) \<Longrightarrow> derives X sk (Rep (Suc n) g) i v (PRaise x)"
| rep_raise_more: "derives X sk g i v (POk j a v1) \<Longrightarrow> derives X sk (Rep n g) j v1 (PRaise x) \<Longrightarrow>
    derives X sk (Rep (Suc n) g) i v (PRaise x)"
| lexeme: "derives X sk PreSkip i v (POk j b w) \<Longrightarrow> derives X False g j v res \<Longrightarrow>
    derives X sk (Lexeme g) i v res"
| lexeme_raise: "derives X sk PreSkip i v (PRaise x) \<Longrightarrow> derives X sk (Lexeme g) i v (PRaise x)"
| raw_ok: "derives X sk PreSkip i v (POk j b w) \<Longrightarrow> derives X sk g j v (POk k a v1) \<Longrightarrow>
    derives X sk (Raw g) i v (POk k (AStr (slice (input X) j k)) v1)"
| raw_fail: "derives X sk PreSkip i v (POk j b w) \<Longrightarrow> derives X sk g j v (PFail v1) \<Longrightarrow>
    derives X sk (Raw g) i v (PFail v1)"
| raw_raise: "derives X sk PreSkip i v (POk j b w) \<Longrightarrow> derives X sk g j v (PRaise x) \<Longrightarrow>
    derives X sk (Raw g) i v (PRaise x)"
| raw_skip_raise: "derives X sk PreSkip i v (PRaise x) \<Longrightarrow> derives X sk (Raw g) i v (PRaise x)"
| act_ok: "derives X sk g i v (POk j a v1) \<Longrightarrow> action X f (where_pos X i j) a v1 = Some v2 \<Longrightarrow>
    derives X sk (Act g f) i v (POk j a v2)"
| act_bad: "derives X sk g i v (POk j a v1) \<Longrightarrow> action X f (where_pos X i j) a v1 = None \<Longrightarrow>
    derives X sk (Act g f) i v (PRaise BadGet)"
| act_fail: "derives X sk g i v (PFail v1) \<Longrightarrow> derives X sk (Act g f) i v (PFail v1)"
| act_raise: "derives X sk g i v (PRaise x) \<Longrightarrow> derives X sk (Act g f) i v (PRaise x)"
| nt_ok: "derives X sk (rule_def X n) i default_expr (POk j a w) \<Longrightarrow>
    derives X sk (NT n) i v (POk j (AExpr w) v)"
| nt_fail: "derives X sk (rule_def X n) i default_expr (PFail w) \<Longrightarrow>
    derives X sk (NT n) i v (PFail v)"
| nt_handled: "derives X sk (rule_def X n) i default_expr (PRaise (ExpectFail p s)) \<Longrightarrow>
    on_error X n = Some h \<Longrightarrow> derives X sk (NT n) i v (PRaise (ThrowError (h i p s)))"
| nt_raise: "derives X sk (rule_def X n) i default_expr (PRaise x) \<Longrightarrow>
    (on_error X n = None \<or> (\<forall>p s. x \<noteq> ExpectFail p s)) \<Longrightarrow>
    derives X sk (NT n) i v (PRaise x)"

text \<open>An engine conforms when it returns what is derivable and nothing else.\<close>

type_synonym ('n, 'f) engine =
  "('n, 'f) x3 \<Rightarrow> bool \<Rightarrow> ('n, 'f) peg \<Rightarrow> nat \<Rightarrow> expr \<Rightarrow> pres option"

definition x3_conforms :: "('n, 'f) engine \<Rightarrow> bool" where
  "x3_conforms E \<longleftrightarrow> (\<forall>X sk g i v r. E X sk g i v = Some r \<longleftrightarrow> derives X sk g i v r)"

end
