(* ===== verification/Parser_Actions.thy ===== *)
theory Parser_Actions
  imports Peg
begin

text \<open>
  The semantic actions of the grammar: namespace \<open>grammar::detail\<close> of \<open>lib/parser/parser.cpp\<close>.
  An action reads the attribute and the position of its match and the value of its rule, and
  gives the new value. It has no value where \<open>unpack\<close> throws \<open>bad_get\<close>, and for an attribute of
  another type than the action is instantiated for, which the C++ type checker excludes.
\<close>

section \<open>The holder of the range and the path\<close>

text \<open>
  The singleton \<open>rangePathHolder\<close>. A range of iterators is a pair of offsets into a text, so the
  text is kept with it.
\<close>

record rangePathHolder =
  current_text :: string
  current_range :: strRange
  current_path :: "string option"

definition new_holder :: rangePathHolder where
  "new_holder = \<lparr>current_text = [], current_range = (0, 0), current_path = None\<rparr>"

definition set_where_r :: "rangePathHolder \<Rightarrow> expr \<Rightarrow> strRange \<Rightarrow> expr" where
  "set_where_r h v wh =
     set_where v (mk_location (current_text h) wh (current_range h) (current_path h))"

section \<open>Escapes\<close>

definition escape_char :: "char \<Rightarrow> char" where
  "escape_char c =
     (if c = CHR ''n'' then CHR 0x0A
      else if c = CHR ''t'' then CHR 0x09
      else if c = CHR ''b'' then CHR 0x08
      else if c = CHR ''f'' then CHR 0x0C
      else if c = CHR ''r'' then CHR 0x0D
      else if c = CHR ''v'' then CHR 0x0B
      else if c = CHR ''a'' then CHR 0x07
      else c)"

fun unescape :: "string \<Rightarrow> string" where
  "unescape [] = []"
| "unescape [c] = [c]"
| "unescape (c # d # s) =
     (if c = CHR 0x5C then escape_char d # unescape s else c # unescape (d # s))"

section \<open>The actions\<close>

datatype str_node = NIdentifier | NVariable | NPreVariable | NStructKey | NAttributeVal

fun str_node_expr :: "str_node \<Rightarrow> string \<Rightarrow> expr" where
  "str_node_expr NIdentifier s = Identifier new_attribute s"
| "str_node_expr NVariable s = Variable new_attribute s"
| "str_node_expr NPreVariable s = PreVariable new_attribute s"
| "str_node_expr NStructKey s = StructKey new_attribute s"
| "str_node_expr NAttributeVal s = AttributeVal new_attribute s"

datatype as_node = NDecimal | NInteger | NBoolean | NArray | NScope

fun as_expr :: "attrv \<Rightarrow> expr option" where
  "as_expr (AExpr e) = Some e"
| "as_expr _ = None"

fun as_exprs :: "attrv \<Rightarrow> expr list option" where
  "as_exprs (AVec as) = those (map as_expr as)"
| "as_exprs _ = None"

fun as_node_expr :: "as_node \<Rightarrow> attrv \<Rightarrow> expr option" where
  "as_node_expr NDecimal (AReal d) = Some (Decimal new_attribute d)"
| "as_node_expr NInteger (AInt n) = Some (Integer new_attribute n)"
| "as_node_expr NBoolean (ABool b) = Some (Boolean new_attribute b)"
| "as_node_expr NArray a = map_option (Array new_attribute) (as_exprs a)"
| "as_node_expr NScope a = map_option (Scope new_attribute) (as_exprs a)"
| "as_node_expr _ _ = None"

definition assign :: "attrv \<Rightarrow> expr \<Rightarrow> expr option" where
  "assign a v = as_expr a"

definition assign_str_as ::
  "rangePathHolder \<Rightarrow> str_node \<Rightarrow> strRange \<Rightarrow> attrv \<Rightarrow> expr \<Rightarrow> expr option" where
  "assign_str_as h t wh a v =
     (case a of AStr s \<Rightarrow> Some (set_where_r h (str_node_expr t s) wh) | _ \<Rightarrow> None)"

text \<open>
  One element of the attribute of the string rules, a variant that holds a character, or its
  default, the null character, when the escaped quote was matched.
\<close>

fun element_char :: "char \<Rightarrow> attrv \<Rightarrow> char option" where
  "element_char q (AOpt (Some (AChar c))) = Some (if c \<noteq> CHR 0x00 then c else q)"
| "element_char q (AOpt None) = Some q"
| "element_char q _ = None"

fun element_chars :: "char \<Rightarrow> attrv \<Rightarrow> string option" where
  "element_chars q (AVec as) = those (map (element_char q) as)"
| "element_chars q _ = None"

definition assign_str_escaped_as ::
  "rangePathHolder \<Rightarrow> char \<Rightarrow> bool \<Rightarrow> strRange \<Rightarrow> attrv \<Rightarrow> expr \<Rightarrow> expr option" where
  "assign_str_escaped_as h q es wh a v =
     map_option
       (\<lambda>rs. set_where_r h (String new_attribute (if es then unescape rs else rs)) wh)
       (element_chars q a)"

definition assign_as ::
  "rangePathHolder \<Rightarrow> as_node \<Rightarrow> strRange \<Rightarrow> attrv \<Rightarrow> expr \<Rightarrow> expr option" where
  "assign_as h t wh a v = map_option (\<lambda>e. set_where_r h e wh) (as_node_expr t a)"

definition unpack_params :: "attrv \<Rightarrow> wrapped list option" where
  "unpack_params a = Option.bind (as_exprs a) (\<lambda>es. those (map unpack_identifier es))"

definition assign_short_func ::
  "rangePathHolder \<Rightarrow> strRange \<Rightarrow> attrv \<Rightarrow> expr \<Rightarrow> expr option" where
  "assign_short_func h wh a v =
     (case a of
        ATup [args, AExpr line] \<Rightarrow>
          map_option (\<lambda>ps. set_where_r h (Function new_attribute ps [line]) wh) (unpack_params args)
      | _ \<Rightarrow> None)"

definition assign_func :: "rangePathHolder \<Rightarrow> strRange \<Rightarrow> attrv \<Rightarrow> expr \<Rightarrow> expr option" where
  "assign_func h wh a v =
     (case a of
        ATup [args, lines] \<Rightarrow>
          Option.bind (unpack_params args) (\<lambda>ps.
          Option.bind (as_exprs lines) (\<lambda>ls.
            Some (set_where_r h (Function new_attribute ps ls) wh)))
      | _ \<Rightarrow> None)"

definition assign_pipe :: "rangePathHolder \<Rightarrow> strRange \<Rightarrow> attrv \<Rightarrow> expr \<Rightarrow> expr option" where
  "assign_pipe h wh a v =
     map_option
       (\<lambda>f. set_where_r h (BinaryOp Call new_attribute f (ArgList new_attribute [v])) wh)
       (as_expr a)"

text \<open>\<open>result[name] = val\<close>: a key that is present stays and gets the new value.\<close>

fun struct_entry :: "attrv \<Rightarrow> (wrapped \<times> expr) option" where
  "struct_entry (ATup [AExpr k, AExpr e]) = map_option (\<lambda>n. (n, e)) (unpack_struct_key k)"
| "struct_entry _ = None"

definition assign_struct :: "rangePathHolder \<Rightarrow> strRange \<Rightarrow> attrv \<Rightarrow> expr \<Rightarrow> expr option" where
  "assign_struct h wh a v =
     (case a of
        AVec es \<Rightarrow>
          map_option
            (\<lambda>kvs. set_where_r h
               (Structure new_attribute (fold (\<lambda>(k, e) m. om_put snd k e m) kvs [])) wh)
            (those (map struct_entry es))
      | _ \<Rightarrow> None)"

fun assign_op2 ::
  "rangePathHolder \<Rightarrow> binop \<Rightarrow> strRange \<Rightarrow> attrv \<Rightarrow> expr \<Rightarrow> expr option" where
  "assign_op2 h Assign wh a v =
     map_option
       (\<lambda>e. set_where_r h (BinaryOp Assign new_attribute (set_lval v True) e) wh) (as_expr a)"
| "assign_op2 h Call wh a v =
     map_option
       (\<lambda>es. set_where_r h
          (BinaryOp Call new_attribute (set_to_call v True) (ArgList new_attribute es)) wh)
       (as_exprs a)"
| "assign_op2 h op wh a v =
     map_option (\<lambda>e. set_where_r h (BinaryOp op new_attribute v e) wh) (as_expr a)"

text \<open>The assignment that stands for an increment or a decrement of \<open>e\<close>.\<close>

definition step_assignment :: "binop \<Rightarrow> expr \<Rightarrow> expr" where
  "step_assignment op e =
     BinaryOp Assign new_attribute (set_lval e True)
       (BinaryOp op new_attribute e (Integer new_attribute 1))"

fun assign_op1 ::
  "rangePathHolder \<Rightarrow> sinop \<Rightarrow> strRange \<Rightarrow> attrv \<Rightarrow> expr \<Rightarrow> expr option" where
  "assign_op1 h Inc wh a v =
     map_option (\<lambda>e. set_where_r h (step_assignment Add e) wh) (as_expr a)"
| "assign_op1 h Dec wh a v =
     map_option (\<lambda>e. set_where_r h (step_assignment Sub e) wh) (as_expr a)"
| "assign_op1 h op wh a v =
     map_option (\<lambda>e. set_where_r h (SingleOp op new_attribute e) wh) (as_expr a)"

definition assign_op3 ::
  "rangePathHolder \<Rightarrow> ternop \<Rightarrow> strRange \<Rightarrow> attrv \<Rightarrow> expr \<Rightarrow> expr option" where
  "assign_op3 h op wh a v =
     (case a of
        ATup [AExpr x, AExpr y] \<Rightarrow> Some (set_where_r h (TernaryOp op new_attribute v x y) wh)
      | _ \<Rightarrow> None)"

text \<open>The value of an attribute is optional; without one it is the empty string.\<close>

definition assign_attr :: "attrv \<Rightarrow> expr \<Rightarrow> expr option" where
  "assign_attr a v =
     (case a of
        ATup [AExpr key, AOpt val] \<Rightarrow>
          Option.bind (unpack_identifier key) (\<lambda>k.
            case val of
              None \<Rightarrow> Some (set_attr v (snd k) [])
            | Some b \<Rightarrow>
                Option.bind (Option.bind (as_expr b) unpack_attribute_val) (\<lambda>w.
                  Some (set_attr v (snd k) (snd w))))
      | _ \<Rightarrow> None)"

section \<open>Actions as data\<close>

datatype act =
    DoAssign
  | StrAs str_node
  | StrEscapedAs char bool
  | AssignAs as_node
  | ShortFunc
  | Func
  | Pipe
  | Struct
  | Op2 binop
  | Op1 sinop
  | Op3 ternop
  | SetAttr

fun run_act :: "rangePathHolder \<Rightarrow> act \<Rightarrow> strRange \<Rightarrow> attrv \<Rightarrow> expr \<Rightarrow> expr option" where
  "run_act h DoAssign wh a v = assign a v"
| "run_act h (StrAs t) wh a v = assign_str_as h t wh a v"
| "run_act h (StrEscapedAs q es) wh a v = assign_str_escaped_as h q es wh a v"
| "run_act h (AssignAs t) wh a v = assign_as h t wh a v"
| "run_act h ShortFunc wh a v = assign_short_func h wh a v"
| "run_act h Func wh a v = assign_func h wh a v"
| "run_act h Pipe wh a v = assign_pipe h wh a v"
| "run_act h Struct wh a v = assign_struct h wh a v"
| "run_act h (Op2 op) wh a v = assign_op2 h op wh a v"
| "run_act h (Op1 op) wh a v = assign_op1 h op wh a v"
| "run_act h (Op3 op) wh a v = assign_op3 h op wh a v"
| "run_act h SetAttr wh a v = assign_attr a v"

section \<open>Lemmas on the actions\<close>

lemma as_expr_Some [simp]: "as_expr a = Some e \<longleftrightarrow> a = AExpr e"
  by (cases a) auto

lemma those_Some: "those xs = Some ys \<longleftrightarrow> xs = map Some ys"
proof (induction xs arbitrary: ys)
  case Nil
  then show ?case by auto
next
  case (Cons x xs)
  then show ?case by (cases ys) (auto split: option.splits)
qed

text \<open>Unescaping undoes escaping: every string has an escaped form.\<close>

definition escape1 :: "char \<Rightarrow> string" where
  "escape1 c =
     (if c = CHR 0x0A then [CHR 0x5C, CHR ''n'']
      else if c = CHR 0x09 then [CHR 0x5C, CHR ''t'']
      else if c = CHR 0x08 then [CHR 0x5C, CHR ''b'']
      else if c = CHR 0x0C then [CHR 0x5C, CHR ''f'']
      else if c = CHR 0x0D then [CHR 0x5C, CHR ''r'']
      else if c = CHR 0x0B then [CHR 0x5C, CHR ''v'']
      else if c = CHR 0x07 then [CHR 0x5C, CHR ''a'']
      else if c = CHR 0x5C then [CHR 0x5C, CHR 0x5C]
      else [c])"

lemma unescape_Cons:
  "unescape (c # s) =
     (if c = CHR 0x5C \<and> s \<noteq> [] then escape_char (hd s) # unescape (tl s) else c # unescape s)"
  by (cases s) auto

lemma unescape_escape1: "unescape (escape1 c @ s) = c # unescape s"
  by (simp add: escape1_def unescape_Cons escape_char_def)

lemma unescape_escape: "unescape (concat (map escape1 s)) = s"
  by (induction s) (simp_all add: unescape_escape1)

lemma length_unescape_le: "length (unescape s) \<le> length s"
  by (induction s rule: unescape.induct) auto

end
