(* ===== verification/Parser_Grammar.thy ===== *)
theory Parser_Grammar
  imports Parser_Actions
begin

text \<open>
  The grammar of \<open>lib/parser/parser.cpp\<close>: one definition per rule, with the combinators nested as
  the precedence of the C++ operators nests them, the skipper of \<open>parse\<close>, and the handler of
  failed expectations that the rule \<open>expression\<close> has.
\<close>

datatype nonterm =
    RVariable | RPreVariable | RIdentifier | RStructKey | RString | RRawString | RArray
  | RStructure | RShortFunction | RFunction | RScope | RAttributeVal
  | RPrimary | RAttrExpr | RCallExpr | RPreSinopExpr | RPostSinopExpr | RPowExpr | RMulExpr
  | RAddExpr | RShiftExpr | RCmpExpr | RIAndExpr | RIXorExpr | RIOrExpr | RLAndExpr | RLOrExpr
  | RCondExpr | RDotExpr | RAssignExpr | RPipeExpr | RRetExpr | RExpression

type_synonym g = "(nonterm, act) peg"

abbreviation lit :: "string \<Rightarrow> g" where
  "lit s \<equiv> Prim (Lit s)"

abbreviation chr_p :: "charset \<Rightarrow> g" where
  "chr_p cs \<equiv> Prim (Chr cs)"

abbreviation quote_char :: char where
  "quote_char \<equiv> CHR 0x22"

abbreviation squote_char :: char where
  "squote_char \<equiv> CHR 0x27"

abbreviation backslash :: char where
  "backslash \<equiv> CHR 0x5C"

named_theorems grammar_defs

section \<open>Names, literals and containers\<close>

definition identifier_p :: g where [grammar_defs]:
  "identifier_p = Expect (chr_p Alpha) (Star (Alt (chr_p Alnum) (lit ''_'')))"

text \<open>\<open>*("#" >> identifier >> -(":" > attribute_val))[assign_attr]\<close>\<close>

definition attributes_p :: g where [grammar_defs]:
  "attributes_p =
     Star (Act (Seq (Seq (lit ''#'') (NT RIdentifier)) (Opt (Expect (lit '':'') (NT RAttributeVal))))
             SetAttr)"

definition identifier_rule :: g where [grammar_defs]:
  "identifier_rule = Seq (Act (Raw (Lexeme identifier_p)) (StrAs NIdentifier)) attributes_p"

definition variable_rule :: g where [grammar_defs]:
  "variable_rule = Act (Raw (Lexeme identifier_p)) (StrAs NVariable)"

definition string_rule :: g where [grammar_defs]:
  "string_rule =
     Act (Seq (Seq (lit [quote_char])
                (Lexeme (Star (Alt (lit [backslash, quote_char])
                                   (Diff (chr_p AnyChar) (lit [quote_char]))))))
           (lit [quote_char]))
         (StrEscapedAs quote_char True)"

definition raw_string_rule :: g where [grammar_defs]:
  "raw_string_rule =
     Act (Seq (Seq (lit [squote_char])
                (Lexeme (Star (Alt (lit [backslash, squote_char])
                                   (Diff (chr_p AnyChar) (lit [squote_char]))))))
           (lit [squote_char]))
         (StrEscapedAs squote_char False)"

definition pre_variable_rule :: g where [grammar_defs]:
  "pre_variable_rule = Act (Raw (Lexeme (Expect (lit ''@'') identifier_p))) (StrAs NPreVariable)"

definition comma_list :: "nonterm \<Rightarrow> g" where [grammar_defs]:
  "comma_list n = Star (Seq (NT n) (Opt (lit '','')))"

definition array_rule :: g where [grammar_defs]:
  "array_rule = Act (Expect (Expect (lit ''['') (comma_list RExpression)) (lit '']'')) (AssignAs NArray)"

definition struct_key_rule :: g where [grammar_defs]:
  "struct_key_rule =
     Act (Raw (Lexeme
       (Alt (Alt (Alt (Alt (Alt
          identifier_p
          (Rep 2 (chr_p (OneOf ''<>&|''))))
          (Expect (chr_p (OneOf ''!=<>'')) (lit ''='')))
          (chr_p (OneOf ''-+*/%<>&|^~!'')))
          (lit ''[]''))
          (lit ''()''))))
       (StrAs NStructKey)"

definition structure_rule :: g where [grammar_defs]:
  "structure_rule =
     Act (Seq (Seq (lit ''['')
                (Star (Seq (Seq (Seq (NT RStructKey) (lit '':'')) (NT RExpression)) (Opt (lit '','')))))
           (lit '']''))
         Struct"

definition lines_p :: g where [grammar_defs]:
  "lines_p = Star (Seq (NT RExpression) (lit '';''))"

definition function_rule :: g where [grammar_defs]:
  "function_rule =
     Act (Expect (Expect
            (Seq (Seq (Expect (lit ''('') (comma_list RIdentifier)) (lit '')'')) (lit ''{''))
            lines_p)
            (lit ''}''))
         Func"

definition short_function_rule :: g where [grammar_defs]:
  "short_function_rule =
     Act (Expect (Seq (Expect (lit ''('') (comma_list RIdentifier)) (lit '')'')) (NT RExpression))
         ShortFunc"

definition scope_rule :: g where [grammar_defs]:
  "scope_rule = Act (Expect (Expect (lit ''{'') lines_p) (lit ''}'')) (AssignAs NScope)"

definition attribute_val_rule :: g where [grammar_defs]:
  "attribute_val_rule =
     Act (Raw (Lexeme (Star (Alt (chr_p Alnum) (chr_p (OneOf ''-_./*[]{}'')))))) (StrAs NAttributeVal)"

definition primary_rule :: g where [grammar_defs]:
  "primary_rule =
     foldl Alt (Act (Prim RealP) (AssignAs NDecimal))
       [Act (Prim IntP) (AssignAs NInteger),
        Act (Prim BoolP) (AssignAs NBoolean),
        Act (NT RString) DoAssign,
        Act (NT RRawString) DoAssign,
        Act (NT RVariable) DoAssign,
        Act (NT RPreVariable) DoAssign,
        Act (NT RStructure) DoAssign,
        Act (NT RArray) DoAssign,
        Act (NT RFunction) DoAssign,
        Act (NT RShortFunction) DoAssign,
        Act (NT RScope) DoAssign,
        Act (Seq (Seq (lit ''('') (NT RExpression)) (lit '')'')) DoAssign]"

section \<open>Operators, from the tightest to the loosest\<close>

text \<open>\<open>(op > operand)[assign_op<Op, 2>]\<close>\<close>

definition infix_p :: "g \<Rightarrow> nonterm \<Rightarrow> binop \<Rightarrow> g" where [grammar_defs]:
  "infix_p op n f = Act (Expect op (NT n)) (Op2 f)"

definition dot_rule :: g where [grammar_defs]:
  "dot_rule =
     Seq (Act (NT RPrimary) DoAssign)
       (Star (Alt (Alt
          (infix_p (lit ''.:'') RStructKey ODot)
          (infix_p (lit ''.='') RStructKey ADot))
          (Act (Seq (lit ''.'') (NT RStructKey)) (Op2 Dot))))"

definition attr_rule :: g where [grammar_defs]:
  "attr_rule = Seq (Act (NT RDotExpr) DoAssign) attributes_p"

definition call_rule :: g where [grammar_defs]:
  "call_rule =
     Seq (Act (NT RAttrExpr) DoAssign)
       (Star (Alt
          (Act (Expect (Expect (lit ''('') (comma_list RExpression)) (lit '')'')) (Op2 Call))
          (Act (Expect (Expect (lit ''['') (NT RExpression)) (lit '']'')) (Op2 At))))"

definition post_sinop_rule :: g where [grammar_defs]:
  "post_sinop_rule =
     Alt (Alt
       (Act (Seq (NT RCallExpr) (lit ''++'')) (Op1 Inc))
       (Act (Seq (NT RCallExpr) (lit ''--'')) (Op1 Dec)))
       (Act (NT RCallExpr) DoAssign)"

definition prefix_p :: "string \<Rightarrow> nonterm \<Rightarrow> sinop \<Rightarrow> g" where [grammar_defs]:
  "prefix_p s n f = Act (Expect (lit s) (NT n)) (Op1 f)"

definition pre_sinop_rule :: g where [grammar_defs]:
  "pre_sinop_rule =
     Alt (Alt (Alt (Alt
       (Act (NT RPostSinopExpr) DoAssign)
       (prefix_p ''!'' RPostSinopExpr LNot))
       (prefix_p ''~'' RPostSinopExpr INot))
       (prefix_p ''++'' RPostSinopExpr Inc))
       (prefix_p ''--'' RPostSinopExpr Dec)"

definition pow_rule :: g where [grammar_defs]:
  "pow_rule =
     Seq (Act (NT RPreSinopExpr) DoAssign) (Star (infix_p (lit ''**'') RPreSinopExpr Pow))"

definition mul_rule :: g where [grammar_defs]:
  "mul_rule =
     Seq (Act (NT RPowExpr) DoAssign)
       (Star (Alt (infix_p (lit ''*'') RPowExpr Mul) (infix_p (lit ''/'') RPowExpr Div)))"

definition add_rule :: g where [grammar_defs]:
  "add_rule =
     Seq (Act (NT RMulExpr) DoAssign)
       (Star (Alt (Alt
          (infix_p (lit ''+'') RMulExpr Add)
          (Act (Seq (lit ''-'') (NT RMulExpr)) (Op2 Sub)))
          (infix_p (lit ''%'') RMulExpr Rem)))"

definition shift_rule :: g where [grammar_defs]:
  "shift_rule =
     Seq (Act (NT RAddExpr) DoAssign)
       (Star (Alt (infix_p (lit ''>>'') RAddExpr Shr) (infix_p (lit ''<<'') RAddExpr Shl)))"

definition cmp_rule :: g where [grammar_defs]:
  "cmp_rule =
     Seq (Act (NT RShiftExpr) DoAssign)
       (Star (Alt (Alt (Alt (Alt (Alt
          (infix_p (Diff (lit ''>'') (lit ''>='')) RShiftExpr Gt)
          (infix_p (Diff (lit ''<'') (lit ''<='')) RShiftExpr Lt))
          (infix_p (lit ''>='') RShiftExpr Gtq))
          (infix_p (lit ''<='') RShiftExpr Ltq))
          (infix_p (lit ''=='') RShiftExpr Eeq))
          (infix_p (lit ''!='') RShiftExpr Neq)))"

definition iand_rule :: g where [grammar_defs]:
  "iand_rule =
     Seq (Act (NT RCmpExpr) DoAssign)
       (Star (infix_p (Diff (lit ''&'') (lit ''&&'')) RCmpExpr IAnd))"

definition ixor_rule :: g where [grammar_defs]:
  "ixor_rule = Seq (Act (NT RIAndExpr) DoAssign) (Star (infix_p (lit ''^'') RIAndExpr IXor))"

definition ior_rule :: g where [grammar_defs]:
  "ior_rule =
     Seq (Act (NT RIXorExpr) DoAssign)
       (Star (infix_p (Diff (lit ''|'') (lit ''||'')) RIXorExpr IOr))"

definition land_rule :: g where [grammar_defs]:
  "land_rule = Seq (Act (NT RIOrExpr) DoAssign) (Star (infix_p (lit ''&&'') RIOrExpr LAnd))"

definition lor_rule :: g where [grammar_defs]:
  "lor_rule = Seq (Act (NT RLAndExpr) DoAssign) (Star (infix_p (lit ''||'') RLAndExpr LOr))"

definition cond_rule :: g where [grammar_defs]:
  "cond_rule =
     Seq (Act (NT RLOrExpr) DoAssign)
       (Star (Act (Expect (Expect (Expect (lit ''?'') (NT RLOrExpr)) (lit '':'')) (NT RLOrExpr))
                (Op3 Cond)))"

definition assign_rule :: g where [grammar_defs]:
  "assign_rule =
     Alt (Seq (Seq (Act (NT RCondExpr) DoAssign) (lit ''='')) (Act (NT RAssignExpr) (Op2 Assign)))
         (Act (NT RCondExpr) DoAssign)"

definition pipe_rule :: g where [grammar_defs]:
  "pipe_rule =
     Seq (Act (NT RAssignExpr) DoAssign) (Star (Act (Expect (lit ''->'') (NT RAssignExpr)) Pipe))"

definition ret_rule :: g where [grammar_defs]:
  "ret_rule = Alt (Act (NT RPipeExpr) DoAssign) (prefix_p ''|>'' RPipeExpr Ret)"

definition expression_rule :: g where [grammar_defs]:
  "expression_rule = Act (NT RRetExpr) DoAssign"

fun rule_of :: "nonterm \<Rightarrow> g" where
  "rule_of RVariable = variable_rule"
| "rule_of RPreVariable = pre_variable_rule"
| "rule_of RIdentifier = identifier_rule"
| "rule_of RStructKey = struct_key_rule"
| "rule_of RString = string_rule"
| "rule_of RRawString = raw_string_rule"
| "rule_of RArray = array_rule"
| "rule_of RStructure = structure_rule"
| "rule_of RShortFunction = short_function_rule"
| "rule_of RFunction = function_rule"
| "rule_of RScope = scope_rule"
| "rule_of RAttributeVal = attribute_val_rule"
| "rule_of RPrimary = primary_rule"
| "rule_of RAttrExpr = attr_rule"
| "rule_of RCallExpr = call_rule"
| "rule_of RPreSinopExpr = pre_sinop_rule"
| "rule_of RPostSinopExpr = post_sinop_rule"
| "rule_of RPowExpr = pow_rule"
| "rule_of RMulExpr = mul_rule"
| "rule_of RAddExpr = add_rule"
| "rule_of RShiftExpr = shift_rule"
| "rule_of RCmpExpr = cmp_rule"
| "rule_of RIAndExpr = iand_rule"
| "rule_of RIXorExpr = ixor_rule"
| "rule_of RIOrExpr = ior_rule"
| "rule_of RLAndExpr = land_rule"
| "rule_of RLOrExpr = lor_rule"
| "rule_of RCondExpr = cond_rule"
| "rule_of RDotExpr = dot_rule"
| "rule_of RAssignExpr = assign_rule"
| "rule_of RPipeExpr = pipe_rule"
| "rule_of RRetExpr = ret_rule"
| "rule_of RExpression = expression_rule"

section \<open>Skipper and error handler\<close>

definition space_comment :: g where [grammar_defs]:
  "space_comment =
     Alt (Alt
       (Expect (Expect (lit ''//'') (Star (Diff (chr_p AnyChar) (lit [newline])))) (lit [newline]))
       (Expect (Expect (lit ''/*'') (Star (Diff (chr_p AnyChar) (lit ''*/'')))) (lit ''*/'')))
       (chr_p Space)"

text \<open>
  The handler gets the position \<open>first\<close> at which the rule was entered, and uses the text from there
  to the end as the text of the error's location.
\<close>

definition on_error_expression :: "rangePathHolder \<Rightarrow> string \<Rightarrow> nat \<Rightarrow> nat \<Rightarrow> string \<Rightarrow> error" where
  "on_error_expression h code first pos which =
     mk_error
       (which @ '' is expected but there is ''
          @ (if pos = length code then ''nothing'' else [code ! pos]))
       (mk_location code (pos, pos) (first, length code) (current_path h))
       Parse"

fun rule_on_error ::
  "rangePathHolder \<Rightarrow> string \<Rightarrow> nonterm \<Rightarrow> (nat \<Rightarrow> nat \<Rightarrow> string \<Rightarrow> error) option" where
  "rule_on_error h code RExpression = Some (on_error_expression h code)"
| "rule_on_error h code _ = None"

text \<open>
  What the engine is given for a text: the record \<open>L\<close> brings the parts of the library, the number
  parsers, the names and the positions.
\<close>

definition grammar_x3 ::
  "(nonterm, act) x3 \<Rightarrow> rangePathHolder \<Rightarrow> string \<Rightarrow> (nonterm, act) x3" where
  "grammar_x3 L h code =
     L\<lparr>input := code, rule_def := rule_of, on_error := rule_on_error h code,
       skipper := space_comment,
       action := (\<lambda>f p a v. run_act h f (p, length code) a v)\<rparr>"

lemma grammar_x3_simps [simp]:
  "input (grammar_x3 L h code) = code"
  "rule_def (grammar_x3 L h code) = rule_of"
  "on_error (grammar_x3 L h code) = rule_on_error h code"
  "skipper (grammar_x3 L h code) = space_comment"
  "action (grammar_x3 L h code) f p a v = run_act h f (p, length code) a v"
  "what (grammar_x3 L h code) = what L"
  "where_pos (grammar_x3 L h code) = where_pos L"
  "fail_at (grammar_x3 L h code) = fail_at L"
  by (simp_all add: grammar_x3_def)

end
