(* ===== verification/Parser_Types.thy ===== *)
theory Parser_Types
  imports Parser_Grammar
begin

text \<open>
  What the parser builds. \<open>wf_tree\<close> is the shape of the trees that the translator relies on; the
  function \<open>chk\<close> assigns types to grammar expressions, and the rules of the grammar have types
  under which every action finds the attribute it expects and leaves a tree of that shape.
\<close>

section \<open>Well-formed trees\<close>

definition clean :: "attribute \<Rightarrow> bool" where
  "clean a \<longleftrightarrow> sm_wf (attributes a) \<and> \<not> survey a"

definition plain :: "attribute \<Rightarrow> bool" where
  "plain a \<longleftrightarrow> clean a \<and> \<not> lval a \<and> \<not> to_call a"

fun is_struct_key :: "expr \<Rightarrow> bool" where
  "is_struct_key (StructKey a s) = plain a"
| "is_struct_key _ = False"

text \<open>
  The shape below a node, without the node's own attribute: lists hold trees, a structure is sorted
  by its keys, the left side of an assignment is marked \<open>lval\<close>, only a callee is marked
  \<open>to_call\<close>, the arguments of a call are an argument list, member accesses name a key; \<open>++\<close> and
  \<open>--\<close> are spelled out.
\<close>

fun wf_payload :: "expr \<Rightarrow> bool" where
  "wf_payload (Integer a n) = True"
| "wf_payload (Decimal a d) = True"
| "wf_payload (Boolean a b) = True"
| "wf_payload (String a s) = True"
| "wf_payload (Variable a s) = True"
| "wf_payload (PreVariable a s) = True"
| "wf_payload (Identifier a s) = False"
| "wf_payload (StructKey a s) = False"
| "wf_payload (ArgList a xs) = False"
| "wf_payload (AttributeVal a s) = False"
| "wf_payload (Array a xs) = list_all (\<lambda>x. plain (attr x) \<and> wf_payload x) xs"
| "wf_payload (Structure a m) =
     (om_wf snd m \<and> list_all (\<lambda>kv. plain (fst (fst kv)) \<and> plain (attr (snd kv)) \<and> wf_payload (snd kv)) m)"
| "wf_payload (Function a ps xs) =
     (list_all (\<lambda>p. plain (fst p)) ps \<and> list_all (\<lambda>x. plain (attr x) \<and> wf_payload x) xs)"
| "wf_payload (Scope a xs) = list_all (\<lambda>x. plain (attr x) \<and> wf_payload x) xs"
| "wf_payload (SingleOp op a x) =
     (op \<notin> {Inc, Dec} \<and> plain (attr x) \<and> wf_payload x)"
| "wf_payload (BinaryOp Assign a x y) =
     (clean (attr x) \<and> lval (attr x) \<and> \<not> to_call (attr x) \<and> wf_payload x \<and>
      plain (attr y) \<and> wf_payload y)"
| "wf_payload (BinaryOp Call a x y) =
     (clean (attr x) \<and> \<not> lval (attr x) \<and> wf_payload x \<and>
      (case y of
         ArgList b ys \<Rightarrow> plain b \<and> list_all (\<lambda>z. plain (attr z) \<and> wf_payload z) ys
       | _ \<Rightarrow> False))"
| "wf_payload (BinaryOp op a x y) =
     (plain (attr x) \<and> wf_payload x \<and>
      (if op \<in> {Dot, ODot, ADot} then is_struct_key y else plain (attr y) \<and> wf_payload y))"
| "wf_payload (TernaryOp op a x y z) =
     (plain (attr x) \<and> wf_payload x \<and> plain (attr y) \<and> wf_payload y \<and>
      plain (attr z) \<and> wf_payload z)"

definition wf_tree :: "expr \<Rightarrow> bool" where
  "wf_tree e \<longleftrightarrow> plain (attr e) \<and> wf_payload e"

text \<open>The setters only touch the node's own attribute.\<close>

lemma wf_payload_setter [simp]: "wf_payload (setter_visitor f e) = wf_payload e"
proof (cases e)
  case (BinaryOp op a x y)
  then show ?thesis by (cases op) simp_all
qed simp_all

lemma plain_new_attribute [simp]: "plain new_attribute" "clean new_attribute"
  by (simp_all add: plain_def clean_def new_attribute_def)

lemma clean_updates [simp]:
  "clean (a\<lparr>where_at := l\<rparr>) = clean a" "plain (a\<lparr>where_at := l\<rparr>) = plain a"
  "clean (a\<lparr>lval := b\<rparr>) = clean a" "clean (a\<lparr>to_call := b\<rparr>) = clean a"
  by (simp_all add: plain_def clean_def)

lemma clean_put [simp]:
  "clean a \<Longrightarrow> clean (a\<lparr>attributes := sm_put k v (attributes a)\<rparr>)"
  "plain a \<Longrightarrow> plain (a\<lparr>attributes := sm_put k v (attributes a)\<rparr>)"
  by (simp_all add: plain_def clean_def om.wf_put)

lemma plainD: "plain a \<Longrightarrow> clean a" "plain a \<Longrightarrow> \<not> lval a" "plain a \<Longrightarrow> \<not> to_call a"
  by (simp_all add: plain_def)

lemma set_where_r_wf [simp]:
  "plain (attr (set_where_r h e wh)) = plain (attr e)"
  "wf_payload (set_where_r h e wh) = wf_payload e"
  by (simp_all add: set_where_r_def set_where_def)

section \<open>Types of attributes and values\<close>

text \<open>
  The kinds of nodes a rule can have as its value. A rule starts with the default integer, which is
  a tree.
\<close>

datatype kind = KTree | KIdent | KKey | KVal

fun kind_ok :: "kind \<Rightarrow> expr \<Rightarrow> bool" where
  "kind_ok KTree e = wf_tree e"
| "kind_ok KIdent e = (\<exists>a s. e = Identifier a s \<and> plain a)"
| "kind_ok KKey e = (\<exists>a s. e = StructKey a s \<and> plain a)"
| "kind_ok KVal e = (\<exists>a s. e = AttributeVal a s \<and> plain a)"

datatype aty =
    TAny | TUnused | TChar | TStr | TInt | TReal | TBool
  | TNode kind
  | TTup "aty list"
  | TVec aty
  | TOpt aty

text \<open>\<open>attr_ok t a\<close>: the attribute has the type; an optional one may be absent.\<close>

fun attr_ok :: "aty \<Rightarrow> attrv \<Rightarrow> bool" where
  "attr_ok TAny a = True"
| "attr_ok TUnused a = (\<forall>as. a \<noteq> ATup as)"
| "attr_ok TChar a = (\<exists>c. a = AChar c)"
| "attr_ok TStr a = (\<exists>s. a = AStr s)"
| "attr_ok TInt a = (\<exists>n. a = AInt n)"
| "attr_ok TReal a = (\<exists>d. a = AReal d)"
| "attr_ok TBool a = (\<exists>b. a = ABool b)"
| "attr_ok (TNode k) a = (\<exists>e. a = AExpr e \<and> kind_ok k e)"
| "attr_ok (TTup ts) a = (\<exists>as. a = ATup as \<and> list_all2 attr_ok ts as)"
| "attr_ok (TVec t) a = (\<exists>as. a = AVec as \<and> list_all (attr_ok t) as)"
| "attr_ok (TOpt t) a = (a = AOpt None \<or> (\<exists>b. a = AOpt (Some b) \<and> attr_ok t b))"

definition ty_parts :: "('n, 'f) peg \<Rightarrow> aty \<Rightarrow> aty list" where
  "ty_parts g t = (if has_attr g then (case t of TTup ts \<Rightarrow> ts | _ \<Rightarrow> [t]) else [])"

fun ty_tuple :: "aty list \<Rightarrow> aty" where
  "ty_tuple [] = TUnused"
| "ty_tuple [t] = t"
| "ty_tuple ts = TTup ts"

definition ty_seq :: "('n, 'f) peg \<Rightarrow> ('n, 'f) peg \<Rightarrow> aty \<Rightarrow> aty \<Rightarrow> aty" where
  "ty_seq l r s t = ty_tuple (ty_parts l s @ ty_parts r t)"

text \<open>The type of an alternative, from the types of its two sides.\<close>

definition ty_alt :: "('n, 'f) peg \<Rightarrow> ('n, 'f) peg \<Rightarrow> aty \<Rightarrow> aty \<Rightarrow> aty" where
  "ty_alt l r s t =
     (if has_attr l = has_attr r then (if s = t then s else TAny)
      else if has_attr l then TOpt s
      else TOpt t)"

fun prim_ty :: "prim \<Rightarrow> aty" where
  "prim_ty (Lit s) = TUnused"
| "prim_ty (Chr cs) = TChar"
| "prim_ty RealP = TReal"
| "prim_ty IntP = TInt"
| "prim_ty BoolP = TBool"

fun kind_of_str :: "str_node \<Rightarrow> kind" where
  "kind_of_str NIdentifier = KIdent"
| "kind_of_str NStructKey = KKey"
| "kind_of_str NAttributeVal = KVal"
| "kind_of_str _ = KTree"

fun as_node_ty :: "as_node \<Rightarrow> aty" where
  "as_node_ty NDecimal = TReal"
| "as_node_ty NInteger = TInt"
| "as_node_ty NBoolean = TBool"
| "as_node_ty NArray = TVec (TNode KTree)"
| "as_node_ty NScope = TVec (TNode KTree)"

fun op2_ty :: "binop \<Rightarrow> aty" where
  "op2_ty Call = TVec (TNode KTree)"
| "op2_ty Dot = TNode KKey"
| "op2_ty ODot = TNode KKey"
| "op2_ty ADot = TNode KKey"
| "op2_ty _ = TNode KTree"

text \<open>The type an action wants and the kind of value it leaves, given the kind before.\<close>

text \<open>\<open>assign\<close> takes a node of any kind; the other actions want one type.\<close>

fun act_want :: "act \<Rightarrow> aty" where
  "act_want DoAssign = TUnused"
| "act_want (StrAs t) = TStr"
| "act_want (StrEscapedAs q es) = TVec (TOpt TChar)"
| "act_want (AssignAs n) = as_node_ty n"
| "act_want ShortFunc = TTup [TVec (TNode KIdent), TNode KTree]"
| "act_want Func = TTup [TVec (TNode KIdent), TVec (TNode KTree)]"
| "act_want Pipe = TNode KTree"
| "act_want Struct = TVec (TTup [TNode KKey, TNode KTree])"
| "act_want (Op2 op) = op2_ty op"
| "act_want (Op1 op) = TNode KTree"
| "act_want (Op3 op) = TTup [TNode KTree, TNode KTree]"
| "act_want SetAttr = TTup [TNode KIdent, TOpt (TNode KVal)]"

fun act_kind :: "act \<Rightarrow> kind \<Rightarrow> kind option" where
  "act_kind (StrAs t) k = Some (kind_of_str t)"
| "act_kind SetAttr k = Some k"
| "act_kind f k = (if k = KTree then Some KTree else None)"

definition act_ty :: "act \<Rightarrow> aty \<Rightarrow> kind \<Rightarrow> kind option" where
  "act_ty f t k =
     (if f = DoAssign then (case t of TNode k' \<Rightarrow> Some k' | _ \<Rightarrow> None)
      else if t = act_want f then act_kind f k
      else None)"

section \<open>Actions are sound for their types\<close>

lemma attr_ok_exprs:
  "attr_ok (TVec (TNode k)) a \<Longrightarrow> \<exists>es. as_exprs a = Some es \<and> list_all (kind_ok k) es"
proof -
  have "list_all (attr_ok (TNode k)) as \<Longrightarrow>
      \<exists>es. those (map as_expr as) = Some es \<and> list_all (kind_ok k) es" for as
    by (induction as) auto
  then show "attr_ok (TVec (TNode k)) a \<Longrightarrow> \<exists>es. as_exprs a = Some es \<and> list_all (kind_ok k) es"
    by auto
qed

lemma attr_ok_params:
  "attr_ok (TVec (TNode KIdent)) a \<Longrightarrow>
   \<exists>ps. unpack_params a = Some ps \<and> list_all (\<lambda>p. plain (fst p)) ps"
proof -
  assume "attr_ok (TVec (TNode KIdent)) a"
  then obtain es where "as_exprs a = Some es" "list_all (kind_ok KIdent) es"
    using attr_ok_exprs by blast
  moreover have "list_all (kind_ok KIdent) es \<Longrightarrow>
      \<exists>ps. those (map unpack_identifier es) = Some ps \<and> list_all (\<lambda>p. plain (fst p)) ps"
    by (induction es) auto
  ultimately show ?thesis by (auto simp: unpack_params_def)
qed

lemma attr_ok_chars: "attr_ok (TVec (TOpt TChar)) a \<Longrightarrow> \<exists>s. element_chars q a = Some s"
proof -
  have "list_all (attr_ok (TOpt TChar)) as \<Longrightarrow> \<exists>s. those (map (element_char q) as) = Some s" for as
    by (induction as) auto
  then show "attr_ok (TVec (TOpt TChar)) a \<Longrightarrow> \<exists>s. element_chars q a = Some s"
    by auto
qed

definition entries_ok :: "(wrapped \<times> expr) list \<Rightarrow> bool" where
  "entries_ok m \<longleftrightarrow> list_all (\<lambda>kv. plain (fst (fst kv)) \<and> wf_tree (snd kv)) m"

lemma attr_ok_entry:
  "attr_ok (TTup [TNode KKey, TNode KTree]) a \<Longrightarrow>
   \<exists>kv. struct_entry a = Some kv \<and> plain (fst (fst kv)) \<and> wf_tree (snd kv)"
  by (auto simp: list_all2_Cons1)

lemma attr_ok_entry_list:
  "list_all (attr_ok (TTup [TNode KKey, TNode KTree])) es \<Longrightarrow>
   \<exists>kvs. those (map struct_entry es) = Some kvs \<and> entries_ok kvs"
proof (induction es)
  case Nil
  then show ?case by (simp add: entries_ok_def)
next
  case (Cons a es)
  then obtain kv kvs where "struct_entry a = Some kv" "plain (fst (fst kv))" "wf_tree (snd kv)"
    "those (map struct_entry es) = Some kvs" "entries_ok kvs"
    using attr_ok_entry [of a] by (simp only: list.pred_inject) blast
  then show ?case by (simp add: entries_ok_def)
qed

lemma attr_ok_entries:
  "attr_ok (TVec (TTup [TNode KKey, TNode KTree])) a \<Longrightarrow>
   \<exists>es kvs. a = AVec es \<and> those (map struct_entry es) = Some kvs \<and> entries_ok kvs"
  by (subst (asm) attr_ok.simps(10)) (use attr_ok_entry_list in blast)

lemma entries_ok_put:
  "entries_ok m \<Longrightarrow> plain (fst k) \<Longrightarrow> wf_tree e \<Longrightarrow> entries_ok (om_put snd k e m)"
proof (induction m)
  case (Cons kv m)
  then show ?case by (cases kv) (auto simp: entries_ok_def)
qed (simp add: entries_ok_def)

lemma entries_ok_Cons [simp]:
  "entries_ok ((k, e) # m) \<longleftrightarrow> plain (fst k) \<and> wf_tree e \<and> entries_ok m"
  by (simp add: entries_ok_def)

lemma struct_fold_ok:
  assumes "entries_ok kvs" and "entries_ok m" and "om_wf snd m"
  shows "entries_ok (fold (\<lambda>(k, e) m. om_put snd k e m) kvs m) \<and>
    om_wf snd (fold (\<lambda>(k, e) m. om_put snd k e m) kvs m)"
  using assms
proof (induction kvs arbitrary: m)
  case Nil
  then show ?case by simp
next
  case (Cons kv kvs)
  obtain k e where kv: "kv = (k, e)" by (cases kv)
  have "entries_ok (om_put snd k e m)" "om_wf snd (om_put snd k e m)"
    using Cons.prems by (simp_all add: kv entries_ok_put om.wf_put)
  with Cons.IH [of "om_put snd k e m"] Cons.prems(1) show ?case
    by (simp add: kv)
qed

lemma wf_payload_lists:
  "list_all (\<lambda>x. plain (attr x) \<and> wf_payload x) = list_all wf_tree"
  by (simp add: wf_tree_def [abs_def])

lemma wf_tree_structure:
  "wf_payload (Structure a m) \<longleftrightarrow> om_wf snd m \<and> entries_ok m"
  by (simp add: entries_ok_def wf_tree_def)

lemma kind_ok_KTree [simp]: "kind_ok KTree = wf_tree"
  by (rule ext) simp

lemma attr_ok_trees:
  "attr_ok (TVec (TNode KTree)) a \<Longrightarrow> \<exists>es. as_exprs a = Some es \<and> list_all wf_tree es"
  using attr_ok_exprs [of KTree a] by simp

lemma assign_op2_ok:
  assumes "attr_ok (op2_ty op) a" and "wf_tree v"
  shows "\<exists>w. assign_op2 h op wh a v = Some w \<and> wf_tree w"
proof (cases "op = Call")
  case True
  with assms(1) have "attr_ok (TVec (TNode KTree)) a"
    by (simp only: op2_ty.simps)
  then obtain es where "as_exprs a = Some es" "list_all wf_tree es"
    using attr_ok_trees by blast
  with True assms(2) show ?thesis
    by (auto simp: wf_tree_def set_to_call_def plainD wf_payload_lists)
next
  case False
  with assms show ?thesis
    by (cases op) (auto simp: wf_tree_def set_lval_def plainD)
qed

lemma assign_op1_ok:
  "attr_ok (TNode KTree) a \<Longrightarrow> \<exists>w. assign_op1 h op wh a v = Some w \<and> wf_tree w"
  by (cases op) (auto simp: wf_tree_def step_assignment_def set_lval_def plainD)

lemma as_node_ok:
  assumes "attr_ok (as_node_ty n) a"
  shows "\<exists>w. assign_as h n wh a v = Some w \<and> wf_tree w"
proof (cases "n = NArray \<or> n = NScope")
  case True
  with assms have "attr_ok (TVec (TNode KTree)) a" by auto
  then obtain es where "as_exprs a = Some es" "list_all wf_tree es"
    using attr_ok_trees by blast
  with True show ?thesis
    by (auto simp: wf_tree_def assign_as_def wf_payload_lists)
next
  case False
  with assms show ?thesis
    by (cases n) (auto simp: wf_tree_def assign_as_def)
qed

section \<open>The type system\<close>

text \<open>
  \<open>chk g k\<close>: started with a value of kind \<open>k\<close>, the expression has an attribute of a type and
  leaves a value of a kind when it matches, and a value of another kind, if it can fail at all,
  when it does not.
\<close>

fun kind_of :: "nonterm \<Rightarrow> kind" where
  "kind_of RIdentifier = KIdent"
| "kind_of RStructKey = KKey"
| "kind_of RAttributeVal = KVal"
| "kind_of _ = KTree"

fun join :: "kind option \<Rightarrow> kind option \<Rightarrow> kind option option" where
  "join None f = Some f"
| "join f None = Some f"
| "join (Some k) (Some k') = (if k = k' then Some (Some k) else None)"

definition known :: "g \<Rightarrow> aty \<Rightarrow> bool" where
  "known g t \<longleftrightarrow> \<not> (has_attr g \<and> t = TAny)"

fun chk :: "g \<Rightarrow> kind \<Rightarrow> (aty \<times> kind \<times> kind option) option" where
  "chk (Prim p) k = Some (prim_ty p, k, Some k)"
| "chk PreSkip k = Some (TUnused, k, None)"
| "chk (Seq l r) k =
     (case chk l k of None \<Rightarrow> None | Some (s, k1, f1) \<Rightarrow>
      case chk r k1 of None \<Rightarrow> None | Some (t, k2, f2) \<Rightarrow>
      if \<not> known l s \<or> \<not> known r t then None
      else case join f1 f2 of None \<Rightarrow> None | Some f \<Rightarrow> Some (ty_seq l r s t, k2, f))"
| "chk (Expect l r) k =
     (case chk l k of None \<Rightarrow> None | Some (s, k1, f1) \<Rightarrow>
      case chk r k1 of None \<Rightarrow> None | Some (t, k2, f2) \<Rightarrow>
      if \<not> known l s \<or> \<not> known r t then None
      else Some (ty_seq l r s t, k2, f1))"
| "chk (Alt l r) k =
     (case chk l k of None \<Rightarrow> None | Some (s, k1, f1) \<Rightarrow>
      case f1 of None \<Rightarrow> None | Some k' \<Rightarrow>
      case chk r k' of None \<Rightarrow> None | Some (t, k2, f2) \<Rightarrow>
      if k1 = k2 then Some (ty_alt l r s t, k1, f2) else None)"
| "chk (Star g) k =
     (case chk g k of None \<Rightarrow> None | Some (t, k1, f) \<Rightarrow>
      if k1 = k \<and> f \<in> {None, Some k} then Some (TVec t, k, None) else None)"
| "chk (Opt g) k =
     (case chk g k of None \<Rightarrow> None | Some (t, k1, f) \<Rightarrow>
      if k1 = k \<and> f \<in> {None, Some k} then Some (TOpt t, k, None) else None)"
| "chk (Diff l r) k =
     (case chk r k of None \<Rightarrow> None | Some (s, k1, f1) \<Rightarrow>
      if k1 = k \<and> f1 \<in> {None, Some k} then
        (case chk l k of None \<Rightarrow> None | Some (t, k2, f2) \<Rightarrow>
         if f2 \<in> {None, Some k} then Some (t, k2, Some k) else None)
      else None)"
| "chk (Rep n g) k =
     (case chk g k of None \<Rightarrow> None | Some (t, k1, f) \<Rightarrow>
      if k1 = k \<and> f \<in> {None, Some k} then Some (TVec t, k, Some k) else None)"
| "chk (Lexeme g) k = chk g k"
| "chk (Raw g) k =
     (case chk g k of None \<Rightarrow> None | Some (t, k1, f) \<Rightarrow> Some (TStr, k1, f))"
| "chk (Act g a) k =
     (case chk g k of None \<Rightarrow> None | Some (t, k1, f) \<Rightarrow>
      case act_ty a t k1 of None \<Rightarrow> None | Some k2 \<Rightarrow> Some (t, k2, f))"
| "chk (NT n) k = Some (TNode (kind_of n), k, Some k)"

fun res_ok :: "aty \<Rightarrow> kind \<Rightarrow> kind option \<Rightarrow> pres \<Rightarrow> bool" where
  "res_ok t k f (POk j a v) = (attr_ok t a \<and> kind_ok k v)"
| "res_ok t k f (PFail v) = (\<exists>k'. f = Some k' \<and> kind_ok k' v)"
| "res_ok t k f (PRaise x) = (x \<noteq> BadGet)"

lemma prim_match_ty: "prim_match X p s = Some (n, a) \<Longrightarrow> attr_ok (prim_ty p) a"
  by (induction X p s rule: prim_match.induct) (auto split: if_splits)

lemma parts_ok:
  assumes "attr_ok t a" and "known g t"
  shows "list_all2 attr_ok (ty_parts g t) (seq_parts g a)"
  using assms by (cases t; cases a) (auto simp: ty_parts_def seq_parts_def known_def)

lemma tuple_ok: "list_all2 attr_ok ts as \<Longrightarrow> attr_ok (ty_tuple ts) (tuple_attr as)"
  by (induction ts rule: ty_tuple.induct) (auto simp: list_all2_Cons1)

lemma seq_ok_ty:
  assumes "attr_ok s a" and "attr_ok t b"
    and "known l s" and "known r t"
  shows "attr_ok (ty_seq l r s t) (seq_attr l r a b)"
  using parts_ok [OF assms(1,3)] parts_ok [OF assms(2,4)]
  by (simp add: ty_seq_def seq_attr_def tuple_ok list_all2_appendI)

lemma alt_ok_ty:
  "attr_ok s a \<Longrightarrow> attr_ok (ty_alt l r s t) (alt_attr l r a)"
  "attr_ok t a \<Longrightarrow> attr_ok (ty_alt l r s t) (alt_attr r l a)"
  by (auto simp: ty_alt_def alt_attr_def)

lemma tup2_ok: "attr_ok (TTup [s, t]) a \<longleftrightarrow> (\<exists>b c. a = ATup [b, c] \<and> attr_ok s b \<and> attr_ok t c)"
  by (auto simp: list_all2_Cons1)

lemma func_ok:
  assumes "attr_ok (TTup [TVec (TNode KIdent), TVec (TNode KTree)]) a"
  shows "\<exists>w. assign_func h wh a v = Some w \<and> wf_tree w"
proof -
  obtain b c where a: "a = ATup [b, c]"
    and b: "attr_ok (TVec (TNode KIdent)) b" and c: "attr_ok (TVec (TNode KTree)) c"
    using assms by (auto simp only: tup2_ok)
  show ?thesis
    using attr_ok_params [OF b] attr_ok_trees [OF c]
    by (auto simp: a assign_func_def wf_tree_def wf_payload_lists)
qed

lemma short_func_ok:
  assumes "attr_ok (TTup [TVec (TNode KIdent), TNode KTree]) a"
  shows "\<exists>w. assign_short_func h wh a v = Some w \<and> wf_tree w"
proof -
  obtain b c where a: "a = ATup [b, c]"
    and b: "attr_ok (TVec (TNode KIdent)) b" and c: "attr_ok (TNode KTree) c"
    using assms by (auto simp only: tup2_ok)
  show ?thesis
    using attr_ok_params [OF b] c
    by (auto simp: a assign_short_func_def wf_tree_def)
qed

lemma struct_ok:
  assumes "attr_ok (TVec (TTup [TNode KKey, TNode KTree])) a"
  shows "\<exists>w. assign_struct h wh a v = Some w \<and> wf_tree w"
proof -
  obtain es kvs where a: "a = AVec es" "those (map struct_entry es) = Some kvs" "entries_ok kvs"
    using attr_ok_entries [OF assms] by blast
  have "entries_ok []" "om_wf snd ([] :: (wrapped \<times> expr) list)"
    by (simp_all add: entries_ok_def)
  from struct_fold_ok [OF a(3) this] show ?thesis
    by (simp add: a(1,2) assign_struct_def wf_tree_def wf_tree_structure del: wf_payload.simps)
qed

lemma escaped_ok:
  "attr_ok (TVec (TOpt TChar)) a \<Longrightarrow> \<exists>w. assign_str_escaped_as h q es wh a v = Some w \<and> wf_tree w"
  by (drule attr_ok_chars [where q = q], cases es)
     (auto simp: assign_str_escaped_as_def wf_tree_def)

lemma pipe_ok:
  "attr_ok (TNode KTree) a \<Longrightarrow> wf_tree v \<Longrightarrow> \<exists>w. assign_pipe h wh a v = Some w \<and> wf_tree w"
  by (auto simp: assign_pipe_def wf_tree_def plainD)

lemma op3_ok:
  "attr_ok (TTup [TNode KTree, TNode KTree]) a \<Longrightarrow> wf_tree v \<Longrightarrow>
   \<exists>w. assign_op3 h op wh a v = Some w \<and> wf_tree w"
  by (auto simp: assign_op3_def wf_tree_def list_all2_Cons1)

lemma str_ok:
  "attr_ok TStr a \<Longrightarrow>
   \<exists>w. assign_str_as h t wh a v = Some w \<and> kind_ok (kind_of_str t) w"
  by (cases t) (auto simp: assign_str_as_def wf_tree_def set_where_r_def set_where_def)

lemma set_attr_kind: "kind_ok k v \<Longrightarrow> kind_ok k (set_attr v x y)"
  by (cases k) (auto simp: set_attr_def wf_tree_def)

lemma set_attr_ok:
  assumes "attr_ok (TTup [TNode KIdent, TOpt (TNode KVal)]) a" and "kind_ok k v"
  shows "\<exists>w. assign_attr a v = Some w \<and> kind_ok k w"
proof -
  obtain i s c where a: "a = ATup [AExpr (Identifier i s), c]" and c: "attr_ok (TOpt (TNode KVal)) c"
    using assms(1) unfolding tup2_ok by auto
  from c show ?thesis
    using assms(2) by (auto simp: a assign_attr_def set_attr_kind)
qed

lemma act_sound:
  assumes "act_ty f t k = Some k'" and "attr_ok t a" and "kind_ok k v"
  shows "\<exists>w. run_act h f wh a v = Some w \<and> kind_ok k' w"
proof (cases "f = DoAssign")
  case True
  with assms show ?thesis by (cases t) (auto simp: act_ty_def assign_def)
next
  case False
  with assms(1) have t: "t = act_want f" and k: "act_kind f k = Some k'"
    by (auto simp: act_ty_def split: if_splits)
  have a: "attr_ok (act_want f) a" using assms(2) t by simp
  show ?thesis
  proof (cases f)
    case (StrAs s)
    with a k str_ok [of a h s wh v] show ?thesis by auto
  next
    case SetAttr
    with a k assms(3) show ?thesis by (simp add: set_attr_ok del: attr_ok.simps)
  next
    case DoAssign
    with False show ?thesis by simp
  qed (use a k assms(3) in \<open>simp add: escaped_ok as_node_ok short_func_ok func_ok pipe_ok struct_ok
      assign_op2_ok assign_op1_ok op3_ok split: if_splits del: attr_ok.simps\<close>)+
qed

text \<open>The skipper has no actions, whatever the kind of the value.\<close>

lemma chk_skipper: "chk (Star space_comment) k = Some (TVec TAny, k, None)"
  by (simp add: space_comment_def ty_seq_def ty_parts_def ty_alt_def known_def)

lemma chk_rules: "\<exists>t f. chk (rule_of n) KTree = Some (t, kind_of n, f)"
  by (cases n) (simp_all add: grammar_defs ty_seq_def ty_parts_def ty_alt_def act_ty_def known_def)

lemma join_SomeD:
  "join (Some k) f2 = Some f \<Longrightarrow> f = Some k"
  "join f1 (Some k) = Some f \<Longrightarrow> f = Some k"
  by (cases f2; auto split: if_splits) (cases f1; auto split: if_splits)

lemma default_tree: "kind_ok KTree default_expr"
  by (simp add: wf_tree_def default_expr_def)

text \<open>Inversion of the type system, one equation per combinator.\<close>

lemma chk_inv:
  "chk (Prim p) k = Some (u, k', f) \<longleftrightarrow> u = prim_ty p \<and> k' = k \<and> f = Some k"
  "chk PreSkip k = Some (u, k', f) \<longleftrightarrow> u = TUnused \<and> k' = k \<and> f = None"
  "chk (Seq l r) k = Some (u, k', f) \<longleftrightarrow>
     (\<exists>s k1 f1 t f2. chk l k = Some (s, k1, f1) \<and> chk r k1 = Some (t, k', f2) \<and>
        known l s \<and> known r t \<and>
        join f1 f2 = Some f \<and> u = ty_seq l r s t)"
  "chk (Expect l r) k = Some (u, k', f) \<longleftrightarrow>
     (\<exists>s k1 t f2. chk l k = Some (s, k1, f) \<and> chk r k1 = Some (t, k', f2) \<and>
        known l s \<and> known r t \<and> u = ty_seq l r s t)"
  "chk (Alt l r) k = Some (u, k', f) \<longleftrightarrow>
     (\<exists>s kf t. chk l k = Some (s, k', Some kf) \<and> chk r kf = Some (t, k', f) \<and>
        u = ty_alt l r s t)"
  "chk (Star g) k = Some (u, k', f) \<longleftrightarrow>
     (\<exists>t f'. chk g k = Some (t, k, f') \<and> f' \<in> {None, Some k} \<and> k' = k \<and> f = None \<and> u = TVec t)"
  "chk (Opt g) k = Some (u, k', f) \<longleftrightarrow>
     (\<exists>t f'. chk g k = Some (t, k, f') \<and> f' \<in> {None, Some k} \<and> k' = k \<and> f = None \<and> u = TOpt t)"
  "chk (Diff l r) k = Some (u, k', f) \<longleftrightarrow>
     (\<exists>s f1 f2. chk r k = Some (s, k, f1) \<and> f1 \<in> {None, Some k} \<and>
        chk l k = Some (u, k', f2) \<and> f2 \<in> {None, Some k} \<and> f = Some k)"
  "chk (Rep m g) k = Some (u, k', f) \<longleftrightarrow>
     (\<exists>t f'. chk g k = Some (t, k, f') \<and> f' \<in> {None, Some k} \<and> k' = k \<and> f = Some k \<and> u = TVec t)"
  "chk (Lexeme g) k = Some (u, k', f) \<longleftrightarrow> chk g k = Some (u, k', f)"
  "chk (Raw g) k = Some (u, k', f) \<longleftrightarrow> (\<exists>t. chk g k = Some (t, k', f) \<and> u = TStr)"
  "chk (Act g a) k = Some (u, k', f) \<longleftrightarrow>
     (\<exists>k1. chk g k = Some (u, k1, f) \<and> act_ty a u k1 = Some k')"
  "chk (NT n) k = Some (u, k', f) \<longleftrightarrow> u = TNode (kind_of n) \<and> k' = k \<and> f = Some k"
  by (auto split: option.splits prod.splits if_splits)

text \<open>Soundness: an expression with a type has results of that type, and never throws \<open>bad_get\<close>.\<close>

definition typed_result :: "g \<Rightarrow> expr \<Rightarrow> pres \<Rightarrow> bool" where
  "typed_result g v r \<longleftrightarrow>
     (\<forall>k t k' f. chk g k = Some (t, k', f) \<longrightarrow> kind_ok k v \<longrightarrow> res_ok t k' f r)"

lemma typed_resultI:
  "(\<And>k t k' f. chk g k = Some (t, k', f) \<Longrightarrow> kind_ok k v \<Longrightarrow> res_ok t k' f r) \<Longrightarrow> typed_result g v r"
  by (simp add: typed_result_def)

lemma typed_resultD:
  "typed_result g v (POk j a w) \<Longrightarrow> chk g k = Some (t, k', f) \<Longrightarrow> kind_ok k v \<Longrightarrow>
     attr_ok t a \<and> kind_ok k' w"
  "typed_result g v (PFail w) \<Longrightarrow> chk g k = Some (t, k', f) \<Longrightarrow> kind_ok k v \<Longrightarrow>
     \<exists>k'. f = Some k' \<and> kind_ok k' w"
  "typed_result g v (PRaise x) \<Longrightarrow> chk g k = Some (t, k', f) \<Longrightarrow> kind_ok k v \<Longrightarrow> x \<noteq> BadGet"
  by (fastforce simp: typed_result_def)+

lemma typed_skipD: "typed_result PreSkip v (PRaise x) \<Longrightarrow> kind_ok k v \<Longrightarrow> x \<noteq> BadGet"
  by (rule typed_resultD(3) [where g = PreSkip and k = k and t = TUnused and k' = k and f = None]) simp_all

lemma typed_results:
  "derives (grammar_x3 L h code) sk g i v r \<Longrightarrow> typed_result g v r"
proof (induction rule: derives.induct)
  case (skip_raise i v x)
  have "kind_ok KTree default_expr" by (rule default_tree)
  show ?case
    by (rule typed_resultI)
      (use skip_raise.IH chk_skipper in \<open>auto dest: typed_resultD simp del: chk.simps kind_ok.simps\<close>)
next
  case (nt_ok sk n i j a w v)
  obtain s u where "chk (rule_of n) KTree = Some (s, kind_of n, u)"
    using chk_rules by blast
  with nt_ok.IH have "kind_ok (kind_of n) w"
    using default_tree by (auto dest: typed_resultD)
  then show ?case
    by (intro typed_resultI) (simp add: chk_inv del: chk.simps kind_ok.simps)
next
  case (nt_raise sk n i x v)
  obtain s u where "chk (rule_of n) KTree = Some (s, kind_of n, u)"
    using chk_rules by blast
  with nt_raise.IH have "x \<noteq> BadGet"
    using default_tree by (auto dest: typed_resultD)
  then show ?case
    by (intro typed_resultI) simp
next
  case (act_ok sk g i v j a v1 c v2)
  show ?case
  proof (rule typed_resultI)
    fix k t k' f
    assume "chk (Act g c) k = Some (t, k', f)" and v: "kind_ok k v"
    then obtain k1 where g: "chk g k = Some (t, k1, f)" and c: "act_ty c t k1 = Some k'"
      by (auto simp: chk_inv simp del: chk.simps)
    then have "attr_ok t a" "kind_ok k1 v1"
      using typed_resultD(1) [OF act_ok.IH g v] by simp_all
    from act_sound [OF c this] act_ok.hyps(2) this(1) show "res_ok t k' f (POk j a v2)"
      by (auto simp del: kind_ok.simps) (metis option.inject)
  qed
next
  case (act_bad sk g i v j a v1 c)
  show ?case
  proof (rule typed_resultI)
    fix k t k' f
    assume "chk (Act g c) k = Some (t, k', f)" and v: "kind_ok k v"
    then obtain k1 where g: "chk g k = Some (t, k1, f)" and c: "act_ty c t k1 = Some k'"
      by (auto simp: chk_inv simp del: chk.simps)
    then have "attr_ok t a" "kind_ok k1 v1"
      using typed_resultD(1) [OF act_bad.IH g v] by simp_all
    from act_sound [OF c this] act_bad.hyps(2) show "res_ok t k' f (PRaise BadGet)"
      by (metis grammar_x3_simps(5) option.distinct(1))
  qed
next
  case star_more
  show ?case
    by (rule typed_resultI, insert star_more.IH, clarsimp simp: chk_inv simp del: chk.simps kind_ok.simps,
        drule (2) typed_resultD,
        fastforce simp: chk_inv simp del: chk.simps kind_ok.simps dest: typed_resultD)
next
  case star_raise_more
  show ?case
    by (rule typed_resultI, insert star_raise_more.IH, clarsimp simp: chk_inv simp del: chk.simps kind_ok.simps,
        drule (2) typed_resultD,
        fastforce simp: chk_inv simp del: chk.simps kind_ok.simps dest: typed_resultD)
next
  case rep_more
  show ?case
    by (rule typed_resultI, insert rep_more.IH, clarsimp simp: chk_inv simp del: chk.simps kind_ok.simps,
        drule (2) typed_resultD,
        fastforce simp: chk_inv simp del: chk.simps kind_ok.simps dest: typed_resultD)
next
  case rep_fail_more
  show ?case
    by (rule typed_resultI, insert rep_fail_more.IH, clarsimp simp: chk_inv simp del: chk.simps kind_ok.simps,
        drule (2) typed_resultD,
        fastforce simp: chk_inv simp del: chk.simps kind_ok.simps dest: typed_resultD)
next
  case rep_raise_more
  show ?case
    by (rule typed_resultI, insert rep_raise_more.IH, clarsimp simp: chk_inv simp del: chk.simps kind_ok.simps,
        drule (2) typed_resultD,
        fastforce simp: chk_inv simp del: chk.simps kind_ok.simps dest: typed_resultD)
next
  case (diff_miss sk r i v v1 l res)
  show ?case
  proof (rule typed_resultI)
    fix k t k' f
    assume "chk (Diff l r) k = Some (t, k', f)" and v: "kind_ok k v"
    then obtain s f1 f2 where r: "chk r k = Some (s, k, f1)" "f1 \<in> {None, Some k}"
      and l: "chk l k = Some (t, k', f2)" "f2 \<in> {None, Some k}" and f: "f = Some k"
      by (auto simp: chk_inv simp del: chk.simps)
    have "kind_ok k v1"
      using typed_resultD(2) [OF diff_miss.IH(1) r(1) v] r(2) by auto
    with diff_miss.IH(2) l(1) have "res_ok t k' f2 res"
      by (simp add: typed_result_def)
    with l(2) f show "res_ok t k' f res" by (cases res) auto
  qed
next
  case lexeme
  then show ?case by (simp add: typed_result_def)
qed (rule typed_resultI;
     (clarsimp simp: chk_inv simp del: chk.simps kind_ok.simps)?;
     (drule (2) typed_resultD; (clarsimp simp del: kind_ok.simps dest!: join_SomeD)?;
        (drule (2) typed_resultD; (clarsimp simp del: kind_ok.simps dest!: join_SomeD)?)?)?;
     (fastforce simp: seq_ok_ty alt_ok_ty prim_match_ty simp del: kind_ok.simps
        dest: typed_skipD dest!: join_SomeD)?)+

text \<open>What a rule of the grammar returns.\<close>

lemma rule_result:
  assumes "derives (grammar_x3 L h code) sk (NT n) i default_expr r"
  shows "case r of
      POk j a w \<Rightarrow> \<exists>e. a = AExpr e \<and> kind_ok (kind_of n) e
    | PFail w \<Rightarrow> True
    | PRaise x \<Rightarrow> x \<noteq> BadGet"
proof -
  have "chk (NT n) KTree = Some (TNode (kind_of n), KTree, Some KTree)" by simp
  with typed_results [OF assms] have "res_ok (TNode (kind_of n)) KTree (Some KTree) r"
    using default_tree by (simp add: typed_result_def)
  then show ?thesis by (cases r) auto
qed

end
