(* ===== verification/X3_Engine.thy ===== *)
theory X3_Engine
  imports Peg
begin

text \<open>
  An executable engine that conforms to the documented behaviour of the combinators. It runs the
  witnesses of the parser's properties, and its conformance shows that the relation \<open>derives\<close> is
  deterministic.
\<close>

text \<open>Continue after a match or a mismatch; an exception passes through.\<close>

definition then_ok ::
  "pres option \<Rightarrow> (nat \<Rightarrow> attrv \<Rightarrow> expr \<Rightarrow> pres option) \<Rightarrow> (expr \<Rightarrow> pres option) \<Rightarrow> pres option" where
  "then_ok m f h =
     Option.bind m (\<lambda>r. case r of POk j a w \<Rightarrow> f j a w | PFail w \<Rightarrow> h w | PRaise x \<Rightarrow> Some (PRaise x))"

lemma then_ok_simps [simp]:
  "then_ok None f h = None"
  "then_ok (Some (POk j a w)) f h = f j a w"
  "then_ok (Some (PFail w)) f h = h w"
  "then_ok (Some (PRaise x)) f h = Some (PRaise x)"
  by (simp_all add: then_ok_def)

lemma then_ok_Some:
  "then_ok m f h = Some r \<longleftrightarrow>
     (\<exists>j a w. m = Some (POk j a w) \<and> f j a w = Some r) \<or>
     (\<exists>w. m = Some (PFail w) \<and> h w = Some r) \<or>
     (\<exists>x. m = Some (PRaise x) \<and> r = PRaise x)"
  by (auto simp: then_ok_def split: pres.splits bind_splits)

lemma then_ok_mono [partial_function_mono]:
  assumes "mono_option B" and "\<And>j a w. mono_option (\<lambda>F. C F j a w)" and "\<And>w. mono_option (\<lambda>F. D F w)"
  shows "mono_option (\<lambda>F. then_ok (B F) (C F) (D F))"
proof -
  have "mono_option (\<lambda>F. Option.bind (B F)
      (\<lambda>r. case r of POk j a w \<Rightarrow> C F j a w | PFail w \<Rightarrow> D F w | PRaise x \<Rightarrow> Some (PRaise x)))"
  proof (intro bind_mono assms)
    fix r
    show "mono_option (\<lambda>F. case r of POk j a w \<Rightarrow> C F j a w | PFail w \<Rightarrow> D F w | PRaise x \<Rightarrow> Some (PRaise x))"
      by (cases r) (simp_all add: assms option.const_mono)
  qed
  then show ?thesis by (simp add: then_ok_def)
qed

text \<open>Put an element in front of the vector a repetition has collected.\<close>

fun cons_vec :: "attrv \<Rightarrow> attrv \<Rightarrow> attrv option" where
  "cons_vec a (AVec as) = Some (AVec (a # as))"
| "cons_vec a _ = None"

definition run_action :: "('n, 'f) x3 \<Rightarrow> 'f \<Rightarrow> nat \<Rightarrow> nat \<Rightarrow> attrv \<Rightarrow> expr \<Rightarrow> pres" where
  "run_action X f i j a v =
     (case action X f (where_pos X i j) a v of Some w \<Rightarrow> POk j a w | None \<Rightarrow> PRaise BadGet)"

definition run_prim :: "('n, 'f) x3 \<Rightarrow> prim \<Rightarrow> nat \<Rightarrow> expr \<Rightarrow> pres" where
  "run_prim X p j v =
     (case prim_match X p (drop j (input X)) of Some (n, a) \<Rightarrow> POk (j + n) a v | None \<Rightarrow> PFail v)"

text \<open>The result of a rule, for the caller's value \<open>v\<close>; only failed expectations are handled.\<close>

fun leave_rule :: "('n, 'f) x3 \<Rightarrow> 'n \<Rightarrow> nat \<Rightarrow> expr \<Rightarrow> pres \<Rightarrow> pres" where
  "leave_rule X n i v (POk j a w) = POk j (AExpr w) v"
| "leave_rule X n i v (PFail w) = PFail v"
| "leave_rule X n i v (PRaise (ExpectFail p s)) =
     (case on_error X n of
        Some h \<Rightarrow> PRaise (ThrowError (h i p s))
      | None \<Rightarrow> PRaise (ExpectFail p s))"
| "leave_rule X n i v (PRaise x) = PRaise x"

text \<open>One step of the engine, given the engine \<open>run\<close> for the parts.\<close>

definition x3_step ::
  "(bool \<Rightarrow> ('n, 'f) peg \<Rightarrow> nat \<Rightarrow> expr \<Rightarrow> pres option) \<Rightarrow>
   ('n, 'f) x3 \<Rightarrow> bool \<Rightarrow> ('n, 'f) peg \<Rightarrow> nat \<Rightarrow> expr \<Rightarrow> pres option" where
  "x3_step run X sk g i v =
     (case g of
        PreSkip \<Rightarrow>
          (if sk then
             then_ok (run False (Star (skipper X)) i v)
               (\<lambda>j a w. Some (POk j AUnused v)) (\<lambda>w. None)
           else Some (POk i AUnused v))
      | Prim p \<Rightarrow>
          then_ok (run sk PreSkip i v) (\<lambda>j b w. Some (run_prim X p j v)) (\<lambda>w. None)
      | Seq l r \<Rightarrow>
          then_ok (run sk l i v)
            (\<lambda>j a v1. then_ok (run sk r j v1)
               (\<lambda>k b v2. Some (POk k (seq_attr l r a b) v2)) (\<lambda>v2. Some (PFail v2)))
            (\<lambda>v1. Some (PFail v1))
      | Expect l r \<Rightarrow>
          then_ok (run sk l i v)
            (\<lambda>j a v1. then_ok (run sk r j v1)
               (\<lambda>k b v2. Some (POk k (seq_attr l r a b) v2))
               (\<lambda>v2. Some (PRaise (ExpectFail (fail_at X r j) (what X r)))))
            (\<lambda>v1. Some (PFail v1))
      | Alt l r \<Rightarrow>
          then_ok (run sk l i v)
            (\<lambda>j a v1. Some (POk j (alt_attr l r a) v1))
            (\<lambda>v1. then_ok (run sk r i v1)
               (\<lambda>j a v2. Some (POk j (alt_attr r l a) v2)) (\<lambda>v2. Some (PFail v2)))
      | Star s \<Rightarrow>
          then_ok (run sk s i v)
            (\<lambda>j a v1. then_ok (run sk (Star s) j v1)
               (\<lambda>k as v2. map_option (\<lambda>bs. POk k bs v2) (cons_vec a as)) (\<lambda>v2. None))
            (\<lambda>v1. Some (POk i (AVec []) v1))
      | Opt s \<Rightarrow>
          then_ok (run sk s i v)
            (\<lambda>j a v1. Some (POk j (AOpt (Some a)) v1)) (\<lambda>v1. Some (POk i (AOpt None) v1))
      | Diff l r \<Rightarrow>
          then_ok (run sk r i v) (\<lambda>j a v1. Some (PFail v1)) (\<lambda>v1. run sk l i v1)
      | Rep n s \<Rightarrow>
          (case n of
             0 \<Rightarrow> Some (POk i (AVec []) v)
           | Suc m \<Rightarrow>
               then_ok (run sk s i v)
                 (\<lambda>j a v1. then_ok (run sk (Rep m s) j v1)
                    (\<lambda>k as v2. map_option (\<lambda>bs. POk k bs v2) (cons_vec a as)) (\<lambda>v2. Some (PFail v2)))
                 (\<lambda>v1. Some (PFail v1)))
      | Lexeme s \<Rightarrow>
          then_ok (run sk PreSkip i v) (\<lambda>j b w. run False s j v) (\<lambda>w. None)
      | Raw s \<Rightarrow>
          then_ok (run sk PreSkip i v)
            (\<lambda>j b w. then_ok (run sk s j v)
               (\<lambda>k a v1. Some (POk k (AStr (slice (input X) j k)) v1)) (\<lambda>v1. Some (PFail v1)))
            (\<lambda>w. None)
      | Act s f \<Rightarrow>
          then_ok (run sk s i v) (\<lambda>j a v1. Some (run_action X f i j a v1)) (\<lambda>v1. Some (PFail v1))
      | NT n \<Rightarrow>
          Option.bind (run sk (rule_def X n) i default_expr)
            (\<lambda>res. Some (leave_rule X n i v res)))"

lemma x3_step_mono [partial_function_mono]:
  assumes "\<And>sk g i v. mono_option (\<lambda>F. R F sk g i v)"
  shows "mono_option (\<lambda>F. x3_step (R F) X sk g i v)"
proof (cases g)
  case (Rep n s)
  show ?thesis
  proof (cases n)
    case 0
    with Rep show ?thesis by (simp add: x3_step_def option.const_mono)
  next
    case (Suc m)
    with Rep show ?thesis
      by (simp add: x3_step_def) (intro then_ok_mono assms option.const_mono)
  qed
next
  case (NT n)
  then show ?thesis
    by (simp add: x3_step_def) (intro bind_mono assms option.const_mono)
next
  case PreSkip
  then show ?thesis
    by (cases sk) (simp_all add: x3_step_def then_ok_mono assms option.const_mono)
qed (simp add: x3_step_def; intro then_ok_mono assms option.const_mono)+

partial_function (option) x3_exec ::
  "('n, 'f) x3 \<Rightarrow> bool \<Rightarrow> ('n, 'f) peg \<Rightarrow> nat \<Rightarrow> expr \<Rightarrow> pres option" where
  "x3_exec X sk g i v = x3_step (\<lambda>sk g i v. x3_exec X sk g i v) X sk g i v"

lemma exec_simps:
  "x3_exec X False PreSkip i v = Some (POk i AUnused v)"
  "x3_exec X True PreSkip i v =
     then_ok (x3_exec X False (Star (skipper X)) i v) (\<lambda>j a w. Some (POk j AUnused v)) (\<lambda>w. None)"
  "x3_exec X sk (Prim p) i v =
     then_ok (x3_exec X sk PreSkip i v) (\<lambda>j b w. Some (run_prim X p j v)) (\<lambda>w. None)"
  "x3_exec X sk (Seq l r) i v =
     then_ok (x3_exec X sk l i v)
       (\<lambda>j a v1. then_ok (x3_exec X sk r j v1)
          (\<lambda>k b v2. Some (POk k (seq_attr l r a b) v2)) (\<lambda>v2. Some (PFail v2)))
       (\<lambda>v1. Some (PFail v1))"
  "x3_exec X sk (Expect l r) i v =
     then_ok (x3_exec X sk l i v)
       (\<lambda>j a v1. then_ok (x3_exec X sk r j v1)
          (\<lambda>k b v2. Some (POk k (seq_attr l r a b) v2))
          (\<lambda>v2. Some (PRaise (ExpectFail (fail_at X r j) (what X r)))))
       (\<lambda>v1. Some (PFail v1))"
  "x3_exec X sk (Alt l r) i v =
     then_ok (x3_exec X sk l i v)
       (\<lambda>j a v1. Some (POk j (alt_attr l r a) v1))
       (\<lambda>v1. then_ok (x3_exec X sk r i v1)
          (\<lambda>j a v2. Some (POk j (alt_attr r l a) v2)) (\<lambda>v2. Some (PFail v2)))"
  "x3_exec X sk (Star s) i v =
     then_ok (x3_exec X sk s i v)
       (\<lambda>j a v1. then_ok (x3_exec X sk (Star s) j v1)
          (\<lambda>k as v2. map_option (\<lambda>bs. POk k bs v2) (cons_vec a as)) (\<lambda>v2. None))
       (\<lambda>v1. Some (POk i (AVec []) v1))"
  "x3_exec X sk (Opt s) i v =
     then_ok (x3_exec X sk s i v)
       (\<lambda>j a v1. Some (POk j (AOpt (Some a)) v1)) (\<lambda>v1. Some (POk i (AOpt None) v1))"
  "x3_exec X sk (Diff l r) i v =
     then_ok (x3_exec X sk r i v) (\<lambda>j a v1. Some (PFail v1)) (\<lambda>v1. x3_exec X sk l i v1)"
  "x3_exec X sk (Rep 0 s) i v = Some (POk i (AVec []) v)"
  "x3_exec X sk (Rep (Suc m) s) i v =
     then_ok (x3_exec X sk s i v)
       (\<lambda>j a v1. then_ok (x3_exec X sk (Rep m s) j v1)
          (\<lambda>k as v2. map_option (\<lambda>bs. POk k bs v2) (cons_vec a as)) (\<lambda>v2. Some (PFail v2)))
       (\<lambda>v1. Some (PFail v1))"
  "x3_exec X sk (Lexeme s) i v =
     then_ok (x3_exec X sk PreSkip i v) (\<lambda>j b w. x3_exec X False s j v) (\<lambda>w. None)"
  "x3_exec X sk (Raw s) i v =
     then_ok (x3_exec X sk PreSkip i v)
       (\<lambda>j b w. then_ok (x3_exec X sk s j v)
          (\<lambda>k a v1. Some (POk k (AStr (slice (input X) j k)) v1)) (\<lambda>v1. Some (PFail v1)))
       (\<lambda>w. None)"
  "x3_exec X sk (Act s f) i v =
     then_ok (x3_exec X sk s i v) (\<lambda>j a v1. Some (run_action X f i j a v1)) (\<lambda>v1. Some (PFail v1))"
  "x3_exec X sk (NT n) i v =
     Option.bind (x3_exec X sk (rule_def X n) i default_expr) (\<lambda>res. Some (leave_rule X n i v res))"
  by (subst x3_exec.simps, simp add: x3_step_def)+

text \<open>Evaluate the first parser before looking at what follows.\<close>

lemma then_ok_cong: "m = m' \<Longrightarrow> then_ok m f h = then_ok m' f h"
  by simp

lemma derives_imp_exec: "derives X sk g i v r \<Longrightarrow> x3_exec X sk g i v = Some r"
proof (induction rule: derives.induct)
  case (nt_raise sk n i x v)
  then show ?case
    by (cases x) (auto simp: exec_simps)
qed (simp_all add: exec_simps run_action_def run_prim_def cong: then_ok_cong)

lemma cons_vec_Some: "cons_vec a as = Some b \<longleftrightarrow> (\<exists>bs. as = AVec bs \<and> b = AVec (a # bs))"
  by (cases as) auto

lemma not_Some_pair: "(\<forall>a b. m \<noteq> Some (a, b)) \<longleftrightarrow> m = None"
  by (cases m) auto

lemma x3_step_derives:
  assumes run: "\<And>sk g i v r. run sk g i v = Some r \<Longrightarrow> derives X sk g i v r"
    and step: "x3_step run X sk g i v = Some r"
  shows "derives X sk g i v r"
proof (cases g)
  case PreSkip
  with step show ?thesis
    by (auto simp: x3_step_def then_ok_Some split: if_splits dest!: run
        intro: skip_off skip_on skip_raise)
next
  case (Prim p)
  with step show ?thesis
    by (auto simp: x3_step_def then_ok_Some run_prim_def not_Some_pair split: option.splits dest!: run
        intro: prim_ok prim_fail prim_raise)
next
  case (NT n)
  with step obtain res where
    "derives X sk (rule_def X n) i default_expr res" "r = leave_rule X n i v res"
    by (auto simp: x3_step_def bind_eq_Some_conv dest!: run)
  with NT show ?thesis
    by (induction X n i v res rule: leave_rule.induct)
       (auto intro: nt_ok nt_fail nt_handled nt_raise split: option.splits)
next
  case (Rep n s)
  with step show ?thesis
    by (cases n) (auto simp: x3_step_def then_ok_Some cons_vec_Some dest!: run
        intro: rep_done rep_more rep_fail rep_fail_more rep_raise rep_raise_more)
next
  case (Act s f)
  with step show ?thesis
    by (auto simp: x3_step_def then_ok_Some run_action_def split: option.splits dest!: run
        intro: act_ok act_bad act_fail act_raise)
next
  case (Seq l r)
  with step show ?thesis
    by (auto simp: x3_step_def then_ok_Some dest!: run
        intro: seq_ok seq_fail_l seq_fail_r seq_raise_l seq_raise_r)
next
  case (Expect l r)
  with step show ?thesis
    by (auto simp: x3_step_def then_ok_Some dest!: run
        intro: expect_ok expect_fail_l expect_fail_r expect_raise_l expect_raise_r)
next
  case (Alt l r)
  with step show ?thesis
    by (auto simp: x3_step_def then_ok_Some dest!: run
        intro: alt_ok_l alt_ok_r alt_fail alt_raise_l alt_raise_r)
next
  case (Star s)
  with step show ?thesis
    by (auto simp: x3_step_def then_ok_Some cons_vec_Some dest!: run
        intro: star_more star_stop star_raise star_raise_more)
next
  case (Opt s)
  with step show ?thesis
    by (auto simp: x3_step_def then_ok_Some dest!: run
        intro: opt_some opt_none opt_raise)
next
  case (Diff l r)
  with step show ?thesis
    by (auto simp: x3_step_def then_ok_Some dest!: run
        intro: diff_hit diff_miss diff_raise)
next
  case (Lexeme s)
  with step show ?thesis
    by (auto simp: x3_step_def then_ok_Some dest!: run
        intro: lexeme lexeme_raise)
next
  case (Raw s)
  with step show ?thesis
    by (auto simp: x3_step_def then_ok_Some dest!: run
        intro: raw_ok raw_fail raw_raise raw_skip_raise)
qed

lemma exec_imp_derives: "x3_exec X sk g i v = Some r \<Longrightarrow> derives X sk g i v r"
proof (rule x3_exec.raw_induct [where P = "\<lambda>X sk g i v r. derives X sk g i v r"])
  fix f :: "('a, 'b) x3 \<Rightarrow> bool \<Rightarrow> ('a, 'b) peg \<Rightarrow> nat \<Rightarrow> expr \<Rightarrow> pres option"
    and X :: "('a, 'b) x3" and sk g i v r
  assume IH: "\<And>X sk g i v r. f X sk g i v = Some r \<Longrightarrow> derives X sk g i v r"
    and step: "x3_step (f X) X sk g i v = Some r"
  show "derives X sk g i v r"
    by (rule x3_step_derives [OF IH step])
qed

lemma x3_exec_conforms: "x3_conforms x3_exec"
  using derives_imp_exec exec_imp_derives by (auto simp: x3_conforms_def)

lemma derives_deterministic: "derives X sk g i v r \<Longrightarrow> derives X sk g i v r' \<Longrightarrow> r = r'"
  by (auto dest!: derives_imp_exec)

text \<open>Every conforming engine is this one.\<close>

lemma conforming_engine: "x3_conforms E \<Longrightarrow> E X sk g i v = x3_exec X sk g i v"
  by (metis not_Some_eq x3_conforms_def x3_exec_conforms)

end
