(* ===== verification/Parser_Total.thy ===== *)
theory Parser_Total
  imports Parser_Types X3_Engine
begin

text \<open>
  The parser always returns: no rule of the grammar calls itself without having consumed a
  character, and nothing repeated can match the empty text. Both are checked on the grammar
  expressions, and a derivation is then built by induction on the rest of the input and the rank
  of the rule.
\<close>

section \<open>Progress\<close>

text \<open>The number parsers of the library consume a part of what they are given.\<close>

definition consumes :: "(string \<Rightarrow> ('a \<times> nat) option) \<Rightarrow> bool" where
  "consumes p \<longleftrightarrow> (\<forall>s v n. p s = Some (v, n) \<longrightarrow> 0 < n \<and> n \<le> length s)"

definition lib_ok :: "(nonterm, act) x3 \<Rightarrow> bool" where
  "lib_ok L \<longleftrightarrow> consumes (real_p L) \<and> consumes (int_p L) \<and> consumes (bool_p L)"

lemma lib_ok_grammar [simp]: "lib_ok (grammar_x3 L h code) = lib_ok L"
  by (simp add: lib_ok_def grammar_x3_def)

text \<open>A match of the expression consumes a character.\<close>

fun eats :: "g \<Rightarrow> bool" where
  "eats (Prim (Lit s)) = (s \<noteq> [])"
| "eats (Prim p) = True"
| "eats PreSkip = False"
| "eats (Seq l r) = (eats l \<or> eats r)"
| "eats (Expect l r) = (eats l \<or> eats r)"
| "eats (Alt l r) = (eats l \<and> eats r)"
| "eats (Star g) = False"
| "eats (Opt g) = False"
| "eats (Diff l r) = eats l"
| "eats (Rep n g) = (n \<noteq> 0 \<and> eats g)"
| "eats (Lexeme g) = eats g"
| "eats (Raw g) = eats g"
| "eats (Act g f) = eats g"
| "eats (NT n) = (n \<noteq> RAttributeVal)"

lemma eats_rules: "n \<noteq> RAttributeVal \<Longrightarrow> eats (rule_of n)"
  by (cases n) (simp_all add: grammar_defs)

lemma prim_match_progress:
  assumes "lib_ok X" and "prim_match X p s = Some (n, a)"
  shows "n \<le> length s" and "eats (Prim p) \<Longrightarrow> 0 < n"
proof -
  have "n \<le> length s \<and> (eats (Prim p) \<longrightarrow> 0 < n)"
    using assms
    by (induction X p s rule: prim_match.induct)
       (auto simp: lib_ok_def consumes_def split: if_splits dest: arg_cong [where f = length])
  then show "n \<le> length s" and "eats (Prim p) \<Longrightarrow> 0 < n" by auto
qed

lemma progress:
  assumes "derives (grammar_x3 L h code) sk g i v r" and "lib_ok L" and "r = POk j a w"
    and "i \<le> length code"
  shows "i \<le> j \<and> j \<le> length code \<and> (eats g \<longrightarrow> i < j)"
  using assms
proof (induction arbitrary: j a w rule: derives.induct)
  case (prim_ok sk i v m b w p n a')
  then have "i \<le> m" "m \<le> length code" by auto
  moreover have "n \<le> length (drop m code)" "eats (Prim p) \<Longrightarrow> 0 < n"
    using prim_match_progress [of "grammar_x3 L h code" p "drop m code" n a'] prim_ok.hyps(2)
      prim_ok.prems(1) by auto
  ultimately show ?case using prim_ok.prems by auto
next
  case (nt_ok sk n i a' w' v)
  then show ?case using eats_rules by auto
qed fastforce+

section \<open>No left recursion\<close>

text \<open>The rules an expression may call before it has consumed anything.\<close>

fun left_calls :: "g \<Rightarrow> nonterm list" where
  "left_calls (Prim p) = []"
| "left_calls PreSkip = []"
| "left_calls (Seq l r) = left_calls l @ (if eats l then [] else left_calls r)"
| "left_calls (Expect l r) = left_calls l @ (if eats l then [] else left_calls r)"
| "left_calls (Alt l r) = left_calls l @ left_calls r"
| "left_calls (Star g) = left_calls g"
| "left_calls (Opt g) = left_calls g"
| "left_calls (Diff l r) = left_calls r @ left_calls l"
| "left_calls (Rep n g) = left_calls g"
| "left_calls (Lexeme g) = left_calls g"
| "left_calls (Raw g) = left_calls g"
| "left_calls (Act g f) = left_calls g"
| "left_calls (NT n) = [n]"

text \<open>Everything under a star consumes.\<close>

fun stars_ok :: "g \<Rightarrow> bool" where
  "stars_ok (Seq l r) = (stars_ok l \<and> stars_ok r)"
| "stars_ok (Expect l r) = (stars_ok l \<and> stars_ok r)"
| "stars_ok (Alt l r) = (stars_ok l \<and> stars_ok r)"
| "stars_ok (Star g) = (eats g \<and> stars_ok g)"
| "stars_ok (Opt g) = stars_ok g"
| "stars_ok (Diff l r) = (stars_ok l \<and> stars_ok r)"
| "stars_ok (Rep n g) = stars_ok g"
| "stars_ok (Lexeme g) = stars_ok g"
| "stars_ok (Raw g) = stars_ok g"
| "stars_ok (Act g f) = stars_ok g"
| "stars_ok g = True"

fun rank :: "nonterm \<Rightarrow> nat" where
  "rank RPrimary = 1"
| "rank RDotExpr = 2"
| "rank RAttrExpr = 3"
| "rank RCallExpr = 4"
| "rank RPostSinopExpr = 5"
| "rank RPreSinopExpr = 6"
| "rank RPowExpr = 7"
| "rank RMulExpr = 8"
| "rank RAddExpr = 9"
| "rank RShiftExpr = 10"
| "rank RCmpExpr = 11"
| "rank RIAndExpr = 12"
| "rank RIXorExpr = 13"
| "rank RIOrExpr = 14"
| "rank RLAndExpr = 15"
| "rank RLOrExpr = 16"
| "rank RCondExpr = 17"
| "rank RAssignExpr = 18"
| "rank RPipeExpr = 19"
| "rank RRetExpr = 20"
| "rank RExpression = 21"
| "rank _ = 0"

lemma rules_well_founded:
  "stars_ok (rule_of n) \<and> list_all (\<lambda>m. rank m < rank n) (left_calls (rule_of n))"
  by (cases n) (simp_all add: grammar_defs)

lemma skipper_well_founded: "stars_ok (Star space_comment) \<and> left_calls (Star space_comment) = []"
  by (simp add: space_comment_def)

section \<open>Every expression returns\<close>

text \<open>
  Stated on the conforming engine \<open>x3_exec\<close>, whose results are exactly the derivable ones: it has
  a result from position \<open>p\<close>, whatever the rule value.
\<close>

definition returns :: "'a option \<Rightarrow> bool" where
  "returns m \<longleftrightarrow> m \<noteq> None"

lemma returns_Some [simp]: "returns (Some r)"
  by (simp add: returns_def)

definition halts :: "(nonterm, act) x3 \<Rightarrow> bool \<Rightarrow> g \<Rightarrow> nat \<Rightarrow> bool" where
  "halts X sk g p \<longleftrightarrow> (\<forall>v. returns (x3_exec X sk g p v))"

lemma then_ok_returns:
  assumes "returns m" and "\<And>j a w. m = Some (POk j a w) \<Longrightarrow> returns (f j a w)"
    and "\<And>w. m = Some (PFail w) \<Longrightarrow> returns (h w)"
  shows "returns (then_ok m f h)"
proof -
  obtain r where "m = Some r" using assms(1) by (auto simp: returns_def)
  with assms(2,3) show ?thesis by (cases r) simp_all
qed

inductive_cases skipE: "derives X sk PreSkip i v r"
inductive_cases starE: "derives X sk (Star g) i v r"
inductive_cases repE: "derives X sk (Rep n g) i v r"

lemma exec_skip: "x3_exec X sk PreSkip i v \<noteq> Some (PFail w)"
  by (auto dest!: exec_imp_derives elim: skipE)

lemma exec_star:
  "x3_exec X sk (Star g) i v \<noteq> Some (PFail w)"
  "x3_exec X sk (Star g) i v = Some (POk j a w) \<Longrightarrow> \<exists>as. a = AVec as"
  by (auto dest!: exec_imp_derives elim: starE)

lemma exec_rep: "x3_exec X sk (Rep n g) i v = Some (POk j a w) \<Longrightarrow> \<exists>as. a = AVec as"
  by (auto dest!: exec_imp_derives elim: repE)

lemma halts_skip_first:
  assumes "halts X sk PreSkip p"
  shows "halts X sk (Prim q) p"
    and "(\<And>j a w v. x3_exec X sk PreSkip p v = Some (POk j a w) \<Longrightarrow> halts X False g j) \<Longrightarrow>
         halts X sk (Lexeme g) p"
    and "(\<And>j a w v. x3_exec X sk PreSkip p v = Some (POk j a w) \<Longrightarrow> halts X sk g j) \<Longrightarrow>
         halts X sk (Raw g) p"
  using assms
  by (auto simp: halts_def exec_simps exec_skip intro!: then_ok_returns)

lemma halts_seq:
  assumes "halts X sk l p"
    and "\<And>j a w v. x3_exec X sk l p v = Some (POk j a w) \<Longrightarrow> halts X sk r j"
  shows "halts X sk (Seq l r) p" and "halts X sk (Expect l r) p"
  using assms by (auto simp: halts_def exec_simps intro!: then_ok_returns)

lemma halts_choice:
  assumes "halts X sk l p" and "halts X sk r p"
  shows "halts X sk (Alt l r) p" and "halts X sk (Diff l r) p"
  using assms by (auto simp: halts_def exec_simps intro!: then_ok_returns)

lemma halts_one:
  assumes "halts X sk g p"
  shows "halts X sk (Opt g) p" and "halts X sk (Act g f) p"
  using assms by (auto simp: halts_def exec_simps intro!: then_ok_returns)

lemma halts_star_step:
  assumes "halts X sk g p"
    and "\<And>j a w v. x3_exec X sk g p v = Some (POk j a w) \<Longrightarrow> halts X sk (Star g) j"
  shows "halts X sk (Star g) p"
proof -
  have "returns (x3_exec X sk (Star g) p v)" for v
    by (subst exec_simps(7)) (use assms in \<open>auto simp: halts_def exec_star(1)
      intro!: then_ok_returns dest!: exec_star(2)\<close>)
  then show ?thesis by (simp add: halts_def)
qed

lemma halts_rep_step:
  assumes "halts X sk g p"
    and "\<And>j a w v. x3_exec X sk g p v = Some (POk j a w) \<Longrightarrow> halts X sk (Rep n g) j"
  shows "halts X sk (Rep (Suc n) g) p"
proof -
  have "returns (x3_exec X sk (Rep (Suc n) g) p v)" for v
    by (subst exec_simps(11)) (use assms in \<open>auto simp: halts_def
      intro!: then_ok_returns dest!: exec_rep\<close>)
  then show ?thesis by (simp add: halts_def)
qed

lemma halts_rule: "halts X sk (rule_def X n) p \<Longrightarrow> halts X sk (NT n) p"
  unfolding halts_def returns_def exec_simps by (metis Option.bind.simps(2) not_None_eq)

lemma exec_progress:
  assumes "x3_exec (grammar_x3 L h code) sk g p v = Some (POk j a w)" and "lib_ok L"
    and "p \<le> length code"
  shows "p \<le> j" and "j \<le> length code" and "eats g \<Longrightarrow> p < j"
  using progress [OF exec_imp_derives [OF assms(1)] assms(2) refl assms(3)] by auto

fun calls :: "g \<Rightarrow> nonterm set" where
  "calls (Seq l r) = calls l \<union> calls r"
| "calls (Expect l r) = calls l \<union> calls r"
| "calls (Alt l r) = calls l \<union> calls r"
| "calls (Star g) = calls g"
| "calls (Opt g) = calls g"
| "calls (Diff l r) = calls l \<union> calls r"
| "calls (Rep n g) = calls g"
| "calls (Lexeme g) = calls g"
| "calls (Raw g) = calls g"
| "calls (Act g f) = calls g"
| "calls (NT n) = {n}"
| "calls g = {}"

text \<open>
  An expression without unproductive stars returns, when the skipper does, when every rule returns
  from later positions, and when the rules it may call at once return from here.
\<close>

lemma halts_body:
  fixes L h code i S N
  defines "X \<equiv> grammar_x3 L h code"
  assumes L: "lib_ok L"
    and skip: "\<And>sk p. sk \<in> S \<Longrightarrow> p \<le> length code \<Longrightarrow> halts X sk PreSkip p"
    and later: "\<And>sk n p. sk \<in> S \<Longrightarrow> n \<in> N \<Longrightarrow> i < p \<Longrightarrow> p \<le> length code \<Longrightarrow> halts X sk (NT n) p"
    and S: "False \<in> S"
  shows "stars_ok g \<Longrightarrow> calls g \<subseteq> N \<Longrightarrow> sk \<in> S \<Longrightarrow> i \<le> p \<Longrightarrow> p \<le> length code \<Longrightarrow>
    (p = i \<longrightarrow> (\<forall>n \<in> set (left_calls g). \<forall>sk \<in> S. halts X sk (NT n) i)) \<Longrightarrow> halts X sk g p"
proof (induction g arbitrary: sk p)
  case (Prim q)
  then show ?case using skip by (auto intro: halts_skip_first)
next
  case PreSkip
  then show ?case using skip by blast
next
  case (Seq l r)
  have l: "halts X sk l p" using Seq by auto
  show ?case
  proof (rule halts_seq(1) [OF l])
    fix j a w v assume "x3_exec X sk l p v = Some (POk j a w)"
    from exec_progress [OF this [unfolded X_def] L Seq.prems(5)] show "halts X sk r j"
      using Seq.prems by (intro Seq.IH(2)) (auto split: if_splits)
  qed
next
  case (Expect l r)
  have l: "halts X sk l p" using Expect by auto
  show ?case
  proof (rule halts_seq(2) [OF l])
    fix j a w v assume "x3_exec X sk l p v = Some (POk j a w)"
    from exec_progress [OF this [unfolded X_def] L Expect.prems(5)] show "halts X sk r j"
      using Expect.prems by (intro Expect.IH(2)) (auto split: if_splits)
  qed
next
  case (Alt l r)
  then show ?case by (intro halts_choice) auto
next
  case (Star g)
  from Star.prems(3-) show ?case
  proof (induction "length code - p" arbitrary: p rule: less_induct)
    case less
    have g: "halts X sk g p" using Star less.prems by auto
    show ?case
    proof (rule halts_star_step [OF g])
      fix j a w v assume "x3_exec X sk g p v = Some (POk j a w)"
      from exec_progress [OF this [unfolded X_def] L less.prems(3)] Star.prems(1,2) less.prems
      show "halts X sk (Star g) j" by (intro less.hyps) auto
    qed
  qed
next
  case (Opt g)
  then show ?case by (intro halts_one) auto
next
  case (Diff l r)
  then show ?case by (intro halts_choice) auto
next
  case (Rep n g)
  from Rep.prems(3-) show ?case
  proof (induction n arbitrary: p)
    case 0
    then show ?case by (simp add: halts_def exec_simps)
  next
    case (Suc n)
    have g: "halts X sk g p" using Rep Suc.prems by auto
    show ?case
    proof (rule halts_rep_step [OF g])
      fix j a w v assume "x3_exec X sk g p v = Some (POk j a w)"
      from exec_progress [OF this [unfolded X_def] L Suc.prems(3)] Suc.prems
      show "halts X sk (Rep n g) j" by (intro Suc.IH) auto
    qed
  qed
next
  case (Lexeme g)
  have "halts X sk PreSkip p" using Lexeme.prems skip by blast
  then show ?case
  proof (rule halts_skip_first(2))
    fix j a w v assume "x3_exec X sk PreSkip p v = Some (POk j a w)"
    from exec_progress [OF this [unfolded X_def] L Lexeme.prems(5)] Lexeme.prems S
    show "halts X False g j" by (intro Lexeme.IH) auto
  qed
next
  case (Raw g)
  have "halts X sk PreSkip p" using Raw.prems skip by blast
  then show ?case
  proof (rule halts_skip_first(3))
    fix j a w v assume "x3_exec X sk PreSkip p v = Some (POk j a w)"
    from exec_progress [OF this [unfolded X_def] L Raw.prems(5)] Raw.prems
    show "halts X sk g j" by (intro Raw.IH) auto
  qed
next
  case (Act g f)
  then show ?case by (intro halts_one) auto
next
  case (NT n)
  then show ?case using later by (cases "p = i") auto
qed

lemma halts_skip:
  assumes "lib_ok L" and "p \<le> length code"
  shows "halts (grammar_x3 L h code) sk PreSkip p"
proof (cases sk)
  case True
  have "halts (grammar_x3 L h code) False (Star space_comment) p"
  proof (rule halts_body [OF assms(1), where S = "{False}" and i = p and N = "{}"])
    show "stars_ok (Star space_comment)"
      using skipper_well_founded by blast
    show "calls (Star space_comment) \<subseteq> {}"
      by (simp add: space_comment_def)
    show "p = p \<longrightarrow> (\<forall>n \<in> set (left_calls (Star space_comment)). \<forall>sk \<in> {False}.
        halts (grammar_x3 L h code) sk (NT n) p)"
      by (simp add: skipper_well_founded del: left_calls.simps)
  qed (use assms(2) in \<open>auto simp: halts_def exec_simps\<close>)
  with True show ?thesis
    by (auto simp: halts_def exec_simps(2) exec_star(1) intro!: then_ok_returns)
next
  case False
  then show ?thesis by (simp add: halts_def exec_simps)
qed

lemma halts_nonterm:
  assumes "lib_ok L" and "p \<le> length code"
  shows "halts (grammar_x3 L h code) sk (NT n) p"
  using assms(2)
proof (induction "(length code - p, rank n)" arbitrary: p n sk rule: wf_induct_rule
    [OF wf_lex_prod [OF wf_less_than wf_less_than]])
  case (1 p n)
  show ?case
  proof (rule halts_rule, simp, rule halts_body [OF assms(1), where S = UNIV and i = p and N = UNIV])
    show "stars_ok (rule_of n)" using rules_well_founded by blast
    show "p = p \<longrightarrow> (\<forall>m \<in> set (left_calls (rule_of n)). \<forall>sk \<in> UNIV.
        halts (grammar_x3 L h code) sk (NT m) p)"
      using rules_well_founded [of n] 1 by (auto simp: list_all_iff)
    show "halts (grammar_x3 L h code) sk (NT m) q" if "p < q" "q \<le> length code" for sk m q
      using 1(1) that by (simp add: diff_less_mono2)
  qed (use 1(2) halts_skip [OF assms(1)] in auto)
qed

end
