(* ===== verification/Parser_Run.thy ===== *)
theory Parser_Run
  imports Parser_Total
begin

text \<open>
  The entry point \<open>parser::parse\<close>. The engine is the argument \<open>E\<close>, the parts of the library that
  the grammar uses are the record \<open>L\<close>, and the singleton \<open>rangePathHolder\<close> and the caller's
  error are passed as state. A run that does not return has the value \<open>None\<close>.
\<close>

section \<open>The run of the grammar\<close>

text \<open>
  \<open>x3::phrase_parse\<close>: the start rule, then a last skip from where the iterator is. The result is
  an exception, or whether the rule matched, its value and the iterator.
\<close>

datatype phrase = PhRaise exn | PhFail nat | PhOk expr nat

definition post_skip :: "(nonterm, act) engine \<Rightarrow> (nonterm, act) x3 \<Rightarrow> nat \<Rightarrow> (nat \<Rightarrow> phrase) \<Rightarrow> phrase option" where
  "post_skip E X j f =
     (case E X True PreSkip j default_expr of
        Some (POk k a w) \<Rightarrow> Some (f k)
      | Some (PRaise x) \<Rightarrow> Some (PhRaise x)
      | _ \<Rightarrow> None)"

definition phrase_parse :: "(nonterm, act) engine \<Rightarrow> (nonterm, act) x3 \<Rightarrow> phrase option" where
  "phrase_parse E X =
     (case E X True (NT RExpression) 0 default_expr of
        Some (POk j (AExpr e) w) \<Rightarrow> post_skip E X j (PhOk e)
      | Some (PFail w) \<Rightarrow> post_skip E X 0 PhFail
      | Some (PRaise x) \<Rightarrow> Some (PhRaise x)
      | _ \<Rightarrow> None)"

section \<open>parse\<close>

text \<open>
  The result of a call, the caller's error and the holder after it. Only an \<open>error\<close> is caught; any
  other exception leaves the function before the holder is set back.
\<close>

datatype parse_result = Tree expr | NoTree | Escaped exn

definition parse ::
  "(nonterm, act) engine \<Rightarrow> (nonterm, act) x3 \<Rightarrow> rangePathHolder \<Rightarrow> string \<Rightarrow> error \<Rightarrow> string option \<Rightarrow>
   (parse_result \<times> error \<times> rangePathHolder) option" where
  "parse E L holder code err path =
     (let during = \<lparr>current_text = code, current_range = (0, length code), current_path = path\<rparr>;
          caught = (\<lambda>e. (NoTree, e, holder))
      in case phrase_parse E (grammar_x3 L during code) of
           None \<Rightarrow> None
         | Some (PhRaise (ThrowError e)) \<Rightarrow> Some (caught e)
         | Some (PhRaise x) \<Rightarrow> Some (Escaped x, err, during)
         | Some (PhFail k) \<Rightarrow>
             Some (caught (mk_error ''Unknown error has detected'' LocEmpty Parse))
         | Some (PhOk e k) \<Rightarrow>
             if k \<noteq> length code
             then Some (caught (mk_error ''Parser couldn't reach at the end of file'' LocEmpty Parse))
             else Some (Tree e, err, holder))"

section \<open>No exception escapes\<close>

text \<open>Every error thrown while the grammar runs is a parse error.\<close>

lemma thrown_error:
  assumes "derives (grammar_x3 L h code) sk g i v r" and "r = PRaise (ThrowError e)"
  shows "err_type e = Parse \<and> has_error e"
  using assms
proof (induction arbitrary: e rule: derives.induct)
  case (nt_handled sk n i p s f v)
  then show ?case by (cases n) (auto simp: on_error_expression_def mk_error_def)
qed auto

inductive_cases ntE: "derives X sk (NT n) i v r"
inductive_cases seqE: "derives X sk (Seq l r) i v res"
inductive_cases altE: "derives X sk (Alt l r) i v res"
inductive_cases actE: "derives X sk (Act g f) i v res"
inductive_cases expectE: "derives X sk (Expect l r) i v res"
inductive_cases primE: "derives X sk (Prim p) i v res"

lemma start_rule_raises:
  assumes "derives (grammar_x3 L h code) sk (NT RExpression) i default_expr (PRaise x)"
  shows "\<exists>e. x = ThrowError e"
  using rule_result [OF assms] assms
  by (cases x) (auto elim: ntE)

text \<open>The skip at the end of a star that has stopped has been done before.\<close>

lemma star_end_skips:
  assumes "derives X sk (Star (Act (Expect (Prim p) g) f)) i v r" and "r = POk j a w"
  shows "\<exists>u k b w'. derives X sk PreSkip j u (POk k b w')"
  using assms
proof (induction sk "Star (Act (Expect (Prim p) g) f)" i v r arbitrary: a w rule: derives.induct)
  case (star_stop sk i v v1)
  then show ?case by (auto elim!: actE expectE primE)
qed auto

text \<open>Expressions without actions and rules neither read nor change the rule value.\<close>

fun pure :: "g \<Rightarrow> bool" where
  "pure (Prim p) = True"
| "pure PreSkip = True"
| "pure (Seq l r) = (pure l \<and> pure r)"
| "pure (Expect l r) = (pure l \<and> pure r)"
| "pure (Alt l r) = (pure l \<and> pure r)"
| "pure (Star g) = pure g"
| "pure (Opt g) = pure g"
| "pure (Diff l r) = (pure l \<and> pure r)"
| "pure (Rep n g) = pure g"
| "pure (Lexeme g) = pure g"
| "pure (Raw g) = pure g"
| "pure (Act g f) = False"
| "pure (NT n) = False"

fun revalue :: "expr \<Rightarrow> pres \<Rightarrow> pres" where
  "revalue v (POk j a w) = POk j a v"
| "revalue v (PFail w) = PFail v"
| "revalue v (PRaise x) = PRaise x"

lemma pure_derives:
  assumes "derives (grammar_x3 L h code) sk g i v r" and "pure g"
  shows "revalue v r = r \<and> (\<forall>u. derives (grammar_x3 L h code) sk g i u (revalue u r))"
  using assms
proof (induction rule: derives.induct)
  case (skip_on i v j a w)
  have "pure (Star space_comment)" by (simp add: space_comment_def)
  with skip_on.IH show ?case by (auto intro!: derives.skip_on)
next
  case (skip_raise i v x)
  have "pure (Star space_comment)" by (simp add: space_comment_def)
  with skip_raise.IH show ?case by (auto intro!: derives.skip_raise)
qed (auto intro: derives.intros derives.expect_fail_r [where X = "grammar_x3 L h code", simplified]
    derives.raw_ok [where X = "grammar_x3 L h code", simplified])

lemma skip_any_value:
  assumes "derives (grammar_x3 L h code) sk PreSkip j u (POk k b w)"
  shows "derives (grammar_x3 L h code) sk PreSkip j v (POk k b v)"
  using pure_derives [OF assms] by simp

lemma pipe_end:
  assumes "derives (grammar_x3 L h code) sk (NT RPipeExpr) i v (POk j a w)"
  shows "\<exists>u k b w'. derives (grammar_x3 L h code) sk PreSkip j u (POk k b w')"
  using assms by (auto elim!: ntE seqE simp: pipe_rule_def dest!: star_end_skips)

inductive_cases act_okE: "derives X sk (Act g f) i v (POk j a w)"
inductive_cases act_failE: "derives X sk (Act g f) i v (PFail w)"
inductive_cases alt_okE: "derives X sk (Alt l r) i v (POk j a w)"
inductive_cases alt_failE: "derives X sk (Alt l r) i v (PFail w)"
inductive_cases expect_okE: "derives X sk (Expect l r) i v (POk j a w)"
inductive_cases expect_failE: "derives X sk (Expect l r) i v (PFail w)"
inductive_cases prim_failE: "derives X sk (Prim p) i v (PFail w)"

lemma expression_end:
  assumes "derives (grammar_x3 L h code) sk (NT RExpression) i v (POk j a w)"
  shows "\<exists>k b. derives (grammar_x3 L h code) sk PreSkip j default_expr (POk k b default_expr)"
proof -
  obtain v' a' w' where "derives (grammar_x3 L h code) sk ret_rule i v' (POk j a' w')"
    using assms by (auto elim!: ntE actE simp: expression_rule_def)
  then have "\<exists>i' v'' a'' w''. derives (grammar_x3 L h code) sk (NT RPipeExpr) i' v'' (POk j a'' w'')"
    unfolding ret_rule_def prefix_p_def by (elim alt_okE act_okE expect_okE) blast+
  then obtain u k b w' where "derives (grammar_x3 L h code) sk PreSkip j u (POk k b w')"
    using pipe_end by blast
  from skip_any_value [OF this] show ?thesis by blast
qed

lemma expression_mismatch:
  assumes "derives (grammar_x3 L h code) sk (NT RExpression) i v (PFail w)"
  shows "\<exists>k b. derives (grammar_x3 L h code) sk PreSkip i default_expr (POk k b default_expr)"
proof -
  obtain v' w' where "derives (grammar_x3 L h code) sk ret_rule i v' (PFail w')"
    using assms by (auto elim!: ntE actE simp: expression_rule_def)
  then have "\<exists>u k b w. derives (grammar_x3 L h code) sk PreSkip i u (POk k b w)"
    unfolding ret_rule_def prefix_p_def by (elim alt_failE act_failE expect_failE prim_failE) blast+
  then obtain u k b w where "derives (grammar_x3 L h code) sk PreSkip i u (POk k b w)"
    by blast
  from skip_any_value [OF this] show ?thesis by blast
qed

section \<open>What a call of parse does\<close>

lemma conforms_iff: "x3_conforms E \<Longrightarrow> E X sk g i v = Some r \<longleftrightarrow> derives X sk g i v r"
  by (simp add: x3_conforms_def)

text \<open>The three ways the run of the grammar can end.\<close>

lemma phrase_parse_cases:
  assumes E: "x3_conforms E" and L: "lib_ok L"
  obtains (matched) e w j k where
      "derives (grammar_x3 L h code) True (NT RExpression) 0 default_expr (POk j (AExpr e) w)"
      "derives (grammar_x3 L h code) True PreSkip j default_expr (POk k AUnused default_expr)"
      "phrase_parse E (grammar_x3 L h code) = Some (PhOk e k)"
      "wf_tree e"
    | (mismatch) k where "phrase_parse E (grammar_x3 L h code) = Some (PhFail k)"
    | (thrown) e where
      "phrase_parse E (grammar_x3 L h code) = Some (PhRaise (ThrowError e))"
      "has_error e" "err_type e = Parse"
proof -
  let ?X = "grammar_x3 L h code"
  have "halts ?X True (NT RExpression) 0"
    by (rule halts_nonterm [OF L]) simp
  then obtain r where r: "derives ?X True (NT RExpression) 0 default_expr r"
    using exec_imp_derives by (fastforce simp: halts_def returns_def)
  then have run: "E ?X True (NT RExpression) 0 default_expr = Some r"
    by (simp add: conforms_iff [OF E])
  show thesis
  proof (cases r)
    case (POk j a w)
    then obtain e where a: "a = AExpr e" "wf_tree e"
      using rule_result [OF r] by auto
    obtain k b where "derives ?X True PreSkip j default_expr (POk k b default_expr)"
      using expression_end [OF r [unfolded POk]] by blast
    moreover from this have b: "b = AUnused" by (auto elim: skipE)
    ultimately have skip: "derives ?X True PreSkip j default_expr (POk k AUnused default_expr)"
      by simp
    then have "phrase_parse E ?X = Some (PhOk e k)"
      using run a by (simp add: phrase_parse_def post_skip_def POk flip: conforms_iff [OF E])
    with r [unfolded POk a(1)] skip a(2) matched show thesis by blast
  next
    case (PFail w)
    obtain k b where "derives ?X True PreSkip 0 default_expr (POk k b default_expr)"
      using expression_mismatch [OF r [unfolded PFail]] by blast
    then have "phrase_parse E ?X = Some (PhFail k)"
      using run by (simp add: phrase_parse_def post_skip_def PFail flip: conforms_iff [OF E])
    then show thesis by (rule mismatch)
  next
    case (PRaise x)
    obtain e where "x = ThrowError e" using start_rule_raises [OF r [unfolded PRaise]] by blast
    with thrown_error [OF r] PRaise show thesis
      using run thrown by (simp add: phrase_parse_def)
  qed
qed

lemmas parse_defs = parse_def Let_def mk_error_def

lemma parse_cases:
  assumes "x3_conforms E" and "lib_ok L"
  obtains (tree) t where "parse E L holder code err path = Some (Tree t, err, holder)"
      "wf_tree t"
    | (no_tree) e where "parse E L holder code err path = Some (NoTree, e, holder)"
      "has_error e" "err_type e = Parse"
proof -
  define h where "h = \<lparr>current_text = code, current_range = (0, length code), current_path = path\<rparr>"
  show thesis
  proof (cases rule: phrase_parse_cases [OF assms, of h code, case_names matched mismatch thrown])
    case (matched e w j k)
    show thesis
    proof (cases "k = length code")
      case True
      with matched(3) have "parse E L holder code err path = Some (Tree e, err, holder)"
        by (simp add: parse_defs h_def)
      then show thesis using matched(4) tree by blast
    next
      case False
      with matched(3) show thesis by (intro no_tree) (simp add: parse_defs h_def, simp, simp)
    qed
  next
    case (mismatch k)
    then show thesis by (intro no_tree) (simp add: parse_defs h_def, simp, simp)
  next
    case (thrown e)
    then show thesis by (intro no_tree) (simp add: parse_defs h_def, simp, simp)
  qed
qed

text \<open>
  A library for the witnesses: unsigned integers in decimal, the two truth values and no floating
  point; an action sees the end of its match.
\<close>

definition demo_int :: "string \<Rightarrow> (int32 \<times> nat) option" where
  "demo_int s =
     (let d = takeWhile is_digit s
      in if d = [] then None else Some (of_nat (string_nat d), length d))"

definition demo_bool :: "string \<Rightarrow> (bool \<times> nat) option" where
  "demo_bool s =
     (if take 4 s = ''true'' then Some (True, 4)
      else if take 5 s = ''false'' then Some (False, 5)
      else None)"

definition demo_lib :: "(nonterm, act) x3" where
  "demo_lib =
     \<lparr>input = [], rule_def = rule_of, on_error = (\<lambda>n. None), skipper = space_comment,
      action = (\<lambda>f p a v. Some v), real_p = (\<lambda>s. None), int_p = demo_int, bool_p = demo_bool,
      what = (\<lambda>g. ''parser''), where_pos = (\<lambda>i j. j), fail_at = (\<lambda>g i. i)\<rparr>"

lemma demo_lib_ok: "lib_ok demo_lib"
  by (auto simp: lib_ok_def consumes_def demo_lib_def demo_int_def demo_bool_def Let_def
      length_takeWhile_le split: if_splits dest: arg_cong [where f = length])

lemma bind_weak_cong: "m = m' \<Longrightarrow> Option.bind m f = Option.bind m' f"
  by simp

lemma demo_lib_simps [simp]:
  "real_p (grammar_x3 demo_lib h code) s = None"
  "int_p (grammar_x3 demo_lib h code) = demo_int"
  "bool_p (grammar_x3 demo_lib h code) = demo_bool"
  "what demo_lib g = ''parser''"
  "where_pos demo_lib i j = j"
  "fail_at demo_lib g k = k"
  by (simp_all add: grammar_x3_def demo_lib_def)

lemmas act_simps = assign_def assign_str_as_def assign_str_escaped_as_def assign_as_def
  unpack_params_def assign_short_func_def assign_func_def assign_pipe_def assign_struct_def
  step_assignment_def assign_op3_def assign_attr_def set_where_r_def set_where_def set_lval_def
  set_to_call_def set_attr_def escape_char_def

text \<open>The engine on a concrete text; a parser is evaluated before what follows it.\<close>

lemmas run_simps = exec_simps grammar_defs run_prim_def run_action_def seq_attr_def seq_parts_def
  alt_attr_def slice_def is_alpha_def is_digit_def Let_def demo_int_def demo_bool_def
  string_nat_def numeral_2_eq_2 act_simps phrase_parse_def post_skip_def parse_defs

lemmas run_congs = then_ok_cong bind_weak_cong

text \<open>
  C8. A call of parse returns, for every text: with a tree or without, never by an exception other
  than an error, and the holder of the range and the path is as before.
\<close>

theorem parse_returns:
  assumes "x3_conforms E" and "lib_ok L"
  shows "\<exists>r e. parse E L holder code err path = Some (r, e, holder) \<and> (\<forall>x. r \<noteq> Escaped x)"
  by (cases rule: parse_cases [OF assms]) auto

theorem parse_returns_witness:
  "\<exists>r e. parse x3_exec demo_lib new_holder ''f (x'' no_error None = Some (r, e, new_holder) \<and> (\<forall>x. r \<noteq> Escaped x)"
  by (rule parse_returns [OF x3_exec_conforms demo_lib_ok])

lemma exec_variable:
  "parse x3_exec demo_lib h ''x'' err path =
     Some (Tree (Variable (new_attribute\<lparr>where_at := mk_location ''x'' (1, 1) (0, 1) path\<rparr>) ''x''), err, h)"
  by (simp add: run_simps cong: run_congs option.case_cong_weak pres.case_cong_weak)

lemma exec_empty:
  "parse x3_exec demo_lib h [] err path =
     Some (NoTree, mk_error ''Unknown error has detected'' LocEmpty Parse, h)"
  by (simp add: run_simps cong: run_congs option.case_cong_weak pres.case_cong_weak)

text \<open>
  C11. The tree that parse returns is well-formed: operators have the operands the translator takes
  apart without a check, structures are sorted by their keys, a node is marked as the target of an
  assignment exactly on the left of one, and nothing is marked for surveying; and the caller's
  error is left alone.
\<close>

theorem parse_tree_wf:
  assumes "x3_conforms E" and "lib_ok L" and "parse E L holder code err path = Some (Tree t, e, h)"
  shows "wf_tree t \<and> e = err"
  using assms(3)
  by (cases rule: parse_cases [OF assms(1,2), of holder code err path]) auto

theorem parse_tree_wf_witness:
  "wf_tree (Variable (new_attribute\<lparr>where_at := mk_location ''x'' (1, 1) (0, 1) None\<rparr>) ''x'') \<and>
   no_error = no_error"
  by (rule parse_tree_wf [OF x3_exec_conforms demo_lib_ok exec_variable [of new_holder]])

text \<open>
  C27. Without a tree, the caller's error is set to a parse error.
\<close>

theorem parse_failure_reported:
  assumes "x3_conforms E" and "lib_ok L" and "parse E L holder code err path = Some (NoTree, e, h)"
  shows "has_error e \<and> err_type e = Parse"
  using assms(3)
  by (cases rule: parse_cases [OF assms(1,2), of holder code err path]) auto

theorem parse_failure_reported_witness:
  "has_error (mk_error ''Unknown error has detected'' LocEmpty Parse) \<and>
   err_type (mk_error ''Unknown error has detected'' LocEmpty Parse) = Parse"
  by (rule parse_failure_reported [OF x3_exec_conforms demo_lib_ok exec_empty [of new_holder]])

text \<open>
  C13. Parse returns a tree exactly when the grammar derives it for a prefix of the text and the
  skipper matches all the rest: no part of the text is ignored.
\<close>

theorem parse_accepts:
  assumes "x3_conforms E" and "lib_ok L"
  shows "(\<exists>e h. parse E L holder code err path = Some (Tree t, e, h)) \<longleftrightarrow>
    (\<exists>X j w. X = grammar_x3 L \<lparr>current_text = code, current_range = (0, length code), current_path = path\<rparr> code \<and>
       derives X True (NT RExpression) 0 default_expr (POk j (AExpr t) w) \<and>
       derives X True PreSkip j default_expr (POk (length code) AUnused default_expr))"
proof -
  define h where "h = \<lparr>current_text = code, current_range = (0, length code), current_path = path\<rparr>"
  define X where "X = grammar_x3 L h code"
  have "(\<exists>e h. parse E L holder code err path = Some (Tree t, e, h)) \<longleftrightarrow>
      phrase_parse E X = Some (PhOk t (length code))"
    by (auto simp: parse_defs X_def h_def split: option.splits phrase.splits exn.splits if_splits)
  also have "\<dots> \<longleftrightarrow> (\<exists>j w. derives X True (NT RExpression) 0 default_expr (POk j (AExpr t) w) \<and>
      derives X True PreSkip j default_expr (POk (length code) AUnused default_expr))"
    (is "_ \<longleftrightarrow> ?derivable")
  proof
    assume run: "phrase_parse E X = Some (PhOk t (length code))"
    show ?derivable
      by (rule phrase_parse_cases [OF assms, of h code]; fold X_def) (use run in auto)
  next
    assume ?derivable
    then show "phrase_parse E X = Some (PhOk t (length code))"
      by (auto simp: phrase_parse_def post_skip_def simp flip: conforms_iff [OF assms(1)])
  qed
  finally show ?thesis by (simp add: X_def h_def)
qed

theorem parse_accepts_witness:
  "(\<exists>e h. parse x3_exec demo_lib new_holder ''x'' no_error None = Some (Tree default_expr, e, h)) \<longleftrightarrow>
    (\<exists>X j w. X = grammar_x3 demo_lib \<lparr>current_text = ''x'', current_range = (0, length ''x''), current_path = None\<rparr> ''x'' \<and>
       derives X True (NT RExpression) 0 default_expr (POk j (AExpr default_expr) w) \<and>
       derives X True PreSkip j default_expr (POk (length ''x'') AUnused default_expr))"
  by (rule parse_accepts [OF x3_exec_conforms demo_lib_ok])

end
