(* ===== verification/Parser_Literals.thy ===== *)
theory Parser_Literals
  imports Parser_Run
begin

text \<open>
  String literals: which source text denotes a string, for the two kinds of quotes. The text between
  the quotes is read as a sequence of tokens, an escaped quote or a character other than the quote;
  a literal cannot end in a backslash, and what the skipper matches after the opening quote is lost.
\<close>

section \<open>Tokens\<close>

datatype tok = EscQuote | Plain char

fun tok_text :: "char \<Rightarrow> tok \<Rightarrow> string" where
  "tok_text q EscQuote = [backslash, q]"
| "tok_text q (Plain c) = [c]"

fun tok_char :: "char \<Rightarrow> tok \<Rightarrow> char" where
  "tok_char q EscQuote = q"
| "tok_char q (Plain c) = c"

fun tok_attr :: "tok \<Rightarrow> attrv" where
  "tok_attr EscQuote = AOpt None"
| "tok_attr (Plain c) = AOpt (Some (AChar c))"

definition toks_ok :: "char \<Rightarrow> tok list \<Rightarrow> bool" where
  "toks_ok q ts \<longleftrightarrow> (\<forall>c. Plain c \<in> set ts \<longrightarrow> c \<noteq> q \<and> c \<noteq> CHR 0x00) \<and>
     (ts \<noteq> [] \<longrightarrow> last ts \<noteq> Plain backslash)"

definition literal_body :: "char \<Rightarrow> g" where
  "literal_body q = Alt (lit [backslash, q]) (Diff (chr_p AnyChar) (lit [q]))"

lemma tok_text_hd: "toks_ok q (t # ts) \<Longrightarrow> q \<noteq> backslash \<Longrightarrow>
    \<exists>c r. concat (map (tok_text q) (t # ts)) = c # r \<and> c \<noteq> q"
  by (cases t) (auto simp: toks_ok_def)

lemma star_body:
  assumes "toks_ok q ts" and "q \<noteq> backslash"
    and "drop p (input X) = concat (map (tok_text q) ts) @ q # rest"
  shows "x3_exec X False (Star (literal_body q)) p v =
    Some (POk (p + length (concat (map (tok_text q) ts))) (AVec (map tok_attr ts)) v)"
  using assms
proof (induction ts arbitrary: p)
  case Nil
  then show ?case by (simp add: exec_simps literal_body_def run_prim_def cong: run_congs)
next
  case (Cons t ts)
  have ok: "toks_ok q ts" using Cons.prems(1) by (auto simp: toks_ok_def split: if_splits)
  have next_char: "\<exists>c r. concat (map (tok_text q) ts) = c # r \<and> c \<noteq> q" if t: "t = Plain backslash"
  proof -
    obtain u us where "ts = u # us"
      using Cons.prems(1) t by (cases ts) (auto simp: toks_ok_def)
    with tok_text_hd [of q u us] ok Cons.prems(2) show ?thesis by simp
  qed
  have "drop (p + length (tok_text q t)) (input X) = drop (length (tok_text q t)) (drop p (input X))"
    by (simp add: add.commute)
  also have "\<dots> = concat (map (tok_text q) ts) @ q # rest"
    using Cons.prems(3) by simp
  finally have rest: "x3_exec X False (Star (literal_body q)) (p + length (tok_text q t)) v =
      Some (POk (p + length (tok_text q t) + length (concat (map (tok_text q) ts)))
        (AVec (map tok_attr ts)) v)"
    by (rule Cons.IH [OF ok Cons.prems(2)])
  have first: "x3_exec X False (literal_body q) p v = Some (POk (p + length (tok_text q t)) (tok_attr t) v)"
  proof (cases t)
    case EscQuote
    with Cons.prems(3) show ?thesis
      by (simp add: exec_simps literal_body_def run_prim_def alt_attr_def cong: run_congs)
  next
    case (Plain c)
    then have "c \<noteq> q" using Cons.prems(1) by (simp add: toks_ok_def)
    with Plain Cons.prems(3) next_char show ?thesis
      by (auto simp: exec_simps literal_body_def run_prim_def alt_attr_def cong: run_congs)
  qed
  show ?case
    by (subst exec_simps(7)) (simp add: first rest)
qed

lemma toks_chars:
  assumes "toks_ok q ts"
  shows "element_chars q (AVec (map tok_attr ts)) = Some (map (tok_char q) ts)"
proof -
  have "(\<forall>c. Plain c \<in> set ts \<longrightarrow> c \<noteq> CHR 0x00) \<Longrightarrow>
      those (map (element_char q) (map tok_attr ts)) = Some (map (tok_char q) ts)"
  proof (induction ts)
    case (Cons t ts)
    then show ?case by (cases t) auto
  qed simp
  with assms show ?thesis by (simp add: toks_ok_def)
qed

section \<open>Skipping at a position\<close>

text \<open>The text starts with a blank or with a comment.\<close>

fun skippable :: "string \<Rightarrow> bool" where
  "skippable [] = False"
| "skippable (c # s) =
     (in_charset Space c \<or> c = CHR ''/'' \<and> s \<noteq> [] \<and> (hd s = CHR ''/'' \<or> hd s = CHR ''*''))"

lemma exec_no_skip:
  assumes "\<not> skippable (drop p code)"
  shows "x3_exec (grammar_x3 L h code) True PreSkip p v = Some (POk p AUnused v)"
proof -
  let ?X = "grammar_x3 L h code"
  have lits: "run_prim ?X (Lit ''//'') p v = PFail v" "run_prim ?X (Lit ''/*'') p v = PFail v"
    "run_prim ?X (Chr Space) p v = PFail v"
    using assms by (cases "drop p code" rule: skippable.cases; cases "tl (drop p code)";
        auto simp: run_prim_def Let_def)+
  have "x3_exec ?X False space_comment p v = Some (PFail v)"
    by (simp add: space_comment_def exec_simps lits cong: run_congs)
  then show ?thesis
    by (simp add: exec_simps cong: run_congs)
qed

section \<open>Literals\<close>

definition literal_toks :: "char \<Rightarrow> bool \<Rightarrow> string \<Rightarrow> tok list" where
  "literal_toks q es s =
     concat (map (\<lambda>c. if c = q then [EscQuote]
                      else if es then map Plain (escape1 c) else [Plain c]) s)"

text \<open>The text between the quotes, and the literal, of a string.\<close>

definition literal_text :: "char \<Rightarrow> bool \<Rightarrow> string \<Rightarrow> string" where
  "literal_text q es s = concat (map (tok_text q) (literal_toks q es s))"

definition literal :: "char \<Rightarrow> bool \<Rightarrow> string \<Rightarrow> string" where
  "literal q es s = [q] @ literal_text q es s @ [q]"

text \<open>The strings a literal can denote.\<close>

definition denotable :: "char \<Rightarrow> bool \<Rightarrow> string \<Rightarrow> bool" where
  "denotable q es s \<longleftrightarrow> CHR 0x00 \<notin> set s \<and> (s \<noteq> [] \<longrightarrow> last s \<noteq> backslash) \<and>
     \<not> skippable (literal_text q es s)"

definition is_quote :: "char \<Rightarrow> bool" where
  "is_quote q \<longleftrightarrow> q = quote_char \<or> q = squote_char"

lemma escape1_chars:
  assumes "is_quote q" and "c \<noteq> q" and "c \<noteq> CHR 0x00"
  shows "escape1 c \<noteq> [] \<and> q \<notin> set (escape1 c) \<and> CHR 0x00 \<notin> set (escape1 c) \<and>
    (last (escape1 c) = backslash \<longrightarrow> c = backslash)"
  using assms by (auto simp: escape1_def is_quote_def)

lemma literal_toks_ok:
  assumes "is_quote q" and "CHR 0x00 \<notin> set s" and "s \<noteq> [] \<longrightarrow> last s \<noteq> backslash"
  shows "toks_ok q (literal_toks q es s)"
proof -
  define f where "f = (\<lambda>c. if c = q then [EscQuote] else if es then map Plain (escape1 c) else [Plain c])"
  have f: "f c \<noteq> [] \<and> (\<forall>d. Plain d \<in> set (f c) \<longrightarrow> d \<noteq> q \<and> d \<noteq> CHR 0x00) \<and>
      (last (f c) = Plain backslash \<longrightarrow> c = backslash)" if "c \<noteq> CHR 0x00" for c
    using escape1_chars [OF assms(1) _ that] that by (auto simp: f_def last_map)
  have "(\<forall>d. Plain d \<in> set (concat (map f s)) \<longrightarrow> d \<noteq> q \<and> d \<noteq> CHR 0x00) \<and>
      (s \<noteq> [] \<longrightarrow> concat (map f s) \<noteq> [] \<and>
        (last (concat (map f s)) = Plain backslash \<longrightarrow> last s = backslash))"
    using assms(2)
  proof (induction s)
    case (Cons c s)
    with f [of c] show ?case by (auto simp: last_append)
  qed simp
  with assms(3) show ?thesis
    by (auto simp: toks_ok_def literal_toks_def f_def [symmetric])
qed

lemma literal_toks_chars:
  assumes "is_quote q"
  shows "(if es then unescape (map (tok_char q) (literal_toks q es s))
          else map (tok_char q) (literal_toks q es s)) = s"
proof (cases es)
  case False
  have "map (tok_char q) (literal_toks q False s) = s"
    by (induction s) (simp_all add: literal_toks_def)
  with False show ?thesis by simp
next
  case True
  have "escape1 q = [q]" using assms by (auto simp: escape1_def is_quote_def)
  then have "map (tok_char q) (literal_toks q True s) = concat (map escape1 s)"
    by (induction s) (simp_all add: literal_toks_def comp_def)
  with True show ?thesis by (simp add: unescape_escape)
qed

lemma skippable_append: "is_quote q \<Longrightarrow> skippable (b @ q # r) \<longleftrightarrow> skippable b"
  by (cases b; cases "tl b") (auto simp: is_quote_def Let_def)

lemma quote_not_skippable: "is_quote q \<Longrightarrow> \<not> skippable (q # r)"
  by (auto simp: is_quote_def Let_def)

lemma literal_parsed:
  assumes q: "is_quote q" and s: "denotable q es s"
    and code: "drop i code = literal q es s @ rest"
  shows "x3_exec (grammar_x3 L h code) True
      (Act (Seq (Seq (lit [q]) (Lexeme (Star (literal_body q)))) (lit [q])) (StrEscapedAs q es)) i v =
    Some (POk (i + length (literal q es s)) (AVec (map tok_attr (literal_toks q es s)))
      (set_where_r h (String new_attribute s)
         (where_pos L i (i + length (literal q es s)), length code)))"
proof -
  let ?X = "grammar_x3 L h code" and ?b = "literal_text q es s"
  have toks: "toks_ok q (literal_toks q es s)"
    using q s by (simp add: denotable_def literal_toks_ok)
  have at0: "drop i code = q # ?b @ q # rest"
    using code by (simp add: literal_def)
  then have at1: "drop (Suc i) code = ?b @ q # rest"
    by (metis drop_Suc list.sel(3) tl_drop)
  then have at2: "drop (Suc i + length ?b) code = q # rest"
    by (metis append_eq_conv_conj drop_drop add.commute)
  have skip0: "x3_exec ?X True PreSkip i u = Some (POk i AUnused u)" for u
    by (rule exec_no_skip) (simp only: at0 quote_not_skippable [OF q] not_False_eq_True)
  have skip1: "x3_exec ?X True PreSkip (Suc i) u = Some (POk (Suc i) AUnused u)" for u
    by (rule exec_no_skip) (use s in \<open>simp add: at1 skippable_append [OF q] denotable_def del: drop_Suc\<close>)
  have skip2: "x3_exec ?X True PreSkip (Suc i + length ?b) u = Some (POk (Suc i + length ?b) AUnused u)" for u
    by (rule exec_no_skip) (simp only: at2 quote_not_skippable [OF q] not_False_eq_True)
  have body: "x3_exec ?X False (Star (literal_body q)) (Suc i) u =
      Some (POk (Suc i + length ?b) (AVec (map tok_attr (literal_toks q es s))) u)" for u
    unfolding literal_text_def
    by (rule star_body [OF toks]) (use q at1 in \<open>auto simp: is_quote_def literal_text_def\<close>)
  have q1: "run_prim ?X (Lit [q]) i u = POk (Suc i) AUnused u"
    "run_prim ?X (Lit [q]) (Suc i + length ?b) u = POk (i + length (literal q es s)) AUnused u" for u
    using at0 at2 by (simp_all add: run_prim_def literal_def)
  have attr: "has_attr (literal_body q)" by (simp add: literal_body_def)
  have act: "run_act h (StrEscapedAs q es) wh (AVec (map tok_attr (literal_toks q es s))) u =
      Some (set_where_r h (String new_attribute s) wh)" for wh u
    using literal_toks_chars [OF q, of es s] toks_chars [OF toks] by (simp add: assign_str_escaped_as_def)
  show ?thesis
    by (simp add: exec_simps(3,4,12,14) skip0 skip1 skip2 [simplified] body [simplified] q1 [simplified]
        seq_attr_def seq_parts_def attr run_action_def act [simplified] cong: run_congs del: element_chars.simps)
qed

lemma rule_bodies:
  "string_rule = Act (Seq (Seq (lit [quote_char]) (Lexeme (Star (literal_body quote_char)))) (lit [quote_char]))
     (StrEscapedAs quote_char True)"
  "raw_string_rule = Act (Seq (Seq (lit [squote_char]) (Lexeme (Star (literal_body squote_char)))) (lit [squote_char]))
     (StrEscapedAs squote_char False)"
  by (simp_all add: string_rule_def raw_string_rule_def literal_body_def)

text \<open>
  C16. A string is denoted by the literal that writes it with escapes: wherever the literal stands in
  a text, the rule for strings matches exactly it and gives a string node with that string. Strings
  with a null character, with a backslash at the end, or that start like a blank or a comment have
  no such literal.
\<close>

theorem string_literal_denotes:
  assumes "denotable quote_char True s" and "drop i code = literal quote_char True s @ rest"
  shows "derives (grammar_x3 L h code) True (NT RString) i v
    (POk (i + length (literal quote_char True s))
      (AExpr (set_where_r h (String new_attribute s)
        (where_pos L i (i + length (literal quote_char True s)), length code))) v)"
  by (rule nt_ok, rule exec_imp_derives)
    (simp add: rule_bodies literal_parsed [OF _ assms] is_quote_def)

theorem string_literal_denotes_witness:
  "derives (grammar_x3 demo_lib new_holder [quote_char, CHR ''a'', backslash, CHR ''n'', quote_char]) True
    (NT RString) 0 default_expr
    (POk (0 + length (literal quote_char True [CHR ''a'', newline]))
      (AExpr (set_where_r new_holder (String new_attribute [CHR ''a'', newline])
        (where_pos demo_lib 0 (0 + length (literal quote_char True [CHR ''a'', newline])),
         length [quote_char, CHR ''a'', backslash, CHR ''n'', quote_char]))) default_expr)"
  by (rule string_literal_denotes [where rest = "[]"])
     (simp_all add: denotable_def literal_def literal_text_def literal_toks_def escape1_def Let_def)



section \<open>What the literals cannot say\<close>

text \<open>
  A string literal cannot end with an escaped backslash: the text of a letter and an escaped
  backslash in quotes is no string literal, since the quote after a backslash always belongs to the
  string.
\<close>

lemma trailing_backslash_rejected:
  "x3_exec (grammar_x3 L h [quote_char, CHR ''a'', backslash, backslash, quote_char]) True (NT RString) 0 v =
     Some (PFail v)"
  by (simp add: run_simps cong: run_congs)

text \<open>
  A blank at the beginning of a string literal is lost: the literal of a blank and a letter
  is parsed to the string of the letter, because \<open>lexeme\<close> skips before it starts.
\<close>

lemma leading_blank_lost:
  "x3_exec (grammar_x3 L h [quote_char, CHR '' '', CHR ''a'', quote_char]) True string_rule 0 v =
     Some (POk 4 (AVec [AOpt (Some (AChar CHR ''a''))])
       (set_where_r h (String new_attribute ''a'') (where_pos L 0 4, 4)))"
  by (simp add: run_simps eval_nat_numeral cong: run_congs)

text \<open>
  The operator \<open><\<close> is no structure key: the alternative for the operators of two characters
  expects an equals sign after it and raises an exception when there is none.
\<close>

lemma comparison_key_rejected:
  "x3_exec (grammar_x3 L h ''<:'') True (NT RStructKey) 0 v =
     Some (PRaise (ExpectFail (fail_at L (lit ''='') 1) (what L (lit ''=''))))"
  by (simp add: run_simps cong: run_congs)

end
