(* ===== verification/Source_Text.thy ===== *)
theory Source_Text
  imports Parser_Literals Ast_Compare
begin

text \<open>
  Source text of scopion: a syntax tree written down with the operators where the grammar of
  \<open>lib/parser/parser.cpp\<close> has them and with no more parentheses than their precedence asks for. It is
  the reference that the grammar is compared with.
\<close>

section \<open>Precedence\<close>

text \<open>
  Larger is looser: 0 names, literals and what is in brackets; 1 calls and indices; 2 the prefix
  operators; 3 to 12 the infix operators; 13 the conditional; 14 assignment; 16 the return.
\<close>

fun op_level :: "binop \<Rightarrow> nat" where
  "op_level Call = 1"
| "op_level At = 1"
| "op_level Pow = 3"
| "op_level Mul = 4"
| "op_level Div = 4"
| "op_level Add = 5"
| "op_level Sub = 5"
| "op_level Rem = 5"
| "op_level Shl = 6"
| "op_level Shr = 6"
| "op_level Gt = 7"
| "op_level Lt = 7"
| "op_level Gtq = 7"
| "op_level Ltq = 7"
| "op_level Eeq = 7"
| "op_level Neq = 7"
| "op_level IAnd = 8"
| "op_level IXor = 9"
| "op_level IOr = 10"
| "op_level LAnd = 11"
| "op_level LOr = 12"
| "op_level Assign = 14"
| "op_level _ = 0"

definition infix_op :: "binop \<Rightarrow> bool" where
  "infix_op op \<longleftrightarrow> 3 \<le> op_level op \<and> op_level op \<le> 12"

fun level :: "expr \<Rightarrow> nat" where
  "level (BinaryOp op a x y) = op_level op"
| "level (TernaryOp op a x y z) = 13"
| "level (SingleOp Ret a x) = 16"
| "level (SingleOp op a x) = 2"
| "level e = 0"

section \<open>The text of a tree\<close>

definition grouped :: "bool \<Rightarrow> string \<Rightarrow> string" where
  "grouped b s = (if b then ''('' @ s @ '')'' else s)"

fun commas :: "string list \<Rightarrow> string" where
  "commas [] = []"
| "commas [s] = s"
| "commas (s # ss) = s @ '','' @ commas ss"

text \<open>
  Attributes of a variable: a key, and its value after a colon. The colon is needed when another attribute
  follows, since an attribute after a key without it is taken for an attribute of the key.
\<close>

fun attributes_text :: "(string \<times> string) list \<Rightarrow> string" where
  "attributes_text [] = []"
| "attributes_text ((k, v) # kvs) =
     ''#'' @ k @ (if v = [] \<and> kvs = [] then [] else '':'' @ v) @ attributes_text kvs"

text \<open>\<open>text_at k e\<close> stands where the grammar wants an expression that binds at least as tightly as \<open>k\<close>.\<close>

fun text_at :: "nat \<Rightarrow> expr \<Rightarrow> string" where
  "text_at k (Integer a n) = grouped (sint n < 0) (int_string n)"
| "text_at k (Boolean a b) = (if b then ''true'' else ''false'')"
| "text_at k (String a s) = literal quote_char True s"
| "text_at k (Variable a x) = x @ attributes_text (attributes a)"
| "text_at k (Function a ps lines) =
     ''('' @ commas (map snd ps) @ ''){'' @ concat (map (\<lambda>l. text_at 16 l @ '';'') lines) @ ''}''"
| "text_at k (Scope a lines) = ''{'' @ concat (map (\<lambda>l. text_at 16 l @ '';'') lines) @ ''}''"
| "text_at k (SingleOp Ret a x) = grouped (k < 16) (''|>'' @ text_at 15 x)"
| "text_at k (SingleOp op a x) = grouped (k < 2) (sinop_str op @ text_at 1 x)"
| "text_at k (BinaryOp Call a f args) =
     grouped (k < 1) (text_at 1 f @ ''('' @
       (case args of ArgList b xs \<Rightarrow> commas (map (text_at 16) xs) | _ \<Rightarrow> []) @ '')'')"
| "text_at k (BinaryOp At a x y) = grouped (k < 1) (text_at 1 x @ ''['' @ text_at 16 y @ '']'')"
| "text_at k (BinaryOp Assign a x y) = grouped (k < 14) (text_at 13 x @ ''='' @ text_at 14 y)"
| "text_at k (BinaryOp op a x y) =
     grouped (k < op_level op) (text_at (op_level op) x @ binop_str op @ text_at (op_level op - 1) y)"
| "text_at k (TernaryOp op a x y z) =
     grouped (k < 13) (text_at 13 x @ ''?'' @ text_at 12 y @ '':'' @ text_at 12 z)"
| "text_at k _ = []"

abbreviation source :: "expr \<Rightarrow> string" where
  "source \<equiv> text_at 16"

section \<open>The trees that have a text\<close>

text \<open>A node without marks and attributes; its place and the survey flag do not matter.\<close>

definition unmarked :: "attribute \<Rightarrow> bool" where
  "unmarked a \<longleftrightarrow> \<not> lval a \<and> \<not> to_call a \<and> attributes a = []"

fun name_char :: "char \<Rightarrow> bool" where
  "name_char c = (in_charset Alnum c \<or> c = CHR ''_'')"

fun identifier_text :: "string \<Rightarrow> bool" where
  "identifier_text [] = False"
| "identifier_text (c # s) = (in_charset Alpha c \<and> list_all name_char s)"

text \<open>
  A number or a truth value is tried before a name, and without regard to what follows: a name must
  not begin like one. The numbers that begin with a letter are \<open>inf\<close> and \<open>nan\<close>, in any case.
\<close>

definition like_letter :: "char \<Rightarrow> char \<Rightarrow> bool" where
  "like_letter c d \<longleftrightarrow> c = d \<or> (of_char c :: nat) + 32 = of_char d"

fun like_word :: "string \<Rightarrow> string \<Rightarrow> bool" where
  "like_word [] s = True"
| "like_word (d # w) [] = False"
| "like_word (d # w) (c # s) = (like_letter c d \<and> like_word w s)"

definition like_number :: "string \<Rightarrow> bool" where
  "like_number s \<longleftrightarrow> like_word ''inf'' s \<or> like_word ''nan'' s"

definition like_bool :: "string \<Rightarrow> bool" where
  "like_bool s \<longleftrightarrow> (\<exists>w \<in> {''true'', ''false''}. take (length w) s = w)"

definition variable_text :: "string \<Rightarrow> bool" where
  "variable_text s \<longleftrightarrow> identifier_text s \<and> \<not> like_number s \<and> \<not> like_bool s"

text \<open>What an attribute may be, and a variable with attributes, which is the target of an assignment.\<close>

definition value_char :: "char \<Rightarrow> bool" where
  "value_char c \<longleftrightarrow> in_charset Alnum c \<or> c \<in> set ''-_./*[]{}''"

definition attribute_ok :: "string \<times> string \<Rightarrow> bool" where
  "attribute_ok kv \<longleftrightarrow> identifier_text (fst kv) \<and> list_all value_char (snd kv) \<and> \<not> skippable (snd kv)"

fun declarable :: "expr \<Rightarrow> bool" where
  "declarable (Variable a x) =
     (\<not> lval a \<and> \<not> to_call a \<and> sm_wf (attributes a) \<and> list_all attribute_ok (attributes a) \<and> variable_text x)"
| "declarable e = False"

fun readable :: "expr \<Rightarrow> bool" where
  "readable (Integer a n) = unmarked a"
| "readable (Boolean a b) = unmarked a"
| "readable (String a s) = (unmarked a \<and> denotable quote_char True s)"
| "readable (Variable a x) = (unmarked a \<and> variable_text x)"
| "readable (Function a ps lines) =
     (unmarked a \<and> list_all (\<lambda>p. unmarked (fst p) \<and> identifier_text (snd p)) ps \<and> list_all readable lines)"
| "readable (Scope a lines) = (unmarked a \<and> list_all readable lines)"
| "readable (SingleOp op a x) = (op \<in> {Ret, LNot, INot} \<and> readable x)"
| "readable (BinaryOp Call a f args) =
     (readable f \<and> (case args of ArgList b xs \<Rightarrow> unmarked b \<and> list_all readable xs | _ \<Rightarrow> False))"
| "readable (BinaryOp Assign a x y) = ((declarable x \<or> readable x) \<and> readable y)"
| "readable (BinaryOp op a x y) = ((infix_op op \<or> op = At) \<and> readable x \<and> readable y)"
| "readable (TernaryOp op a x y z) = (readable x \<and> readable y \<and> readable z)"
| "readable e = False"

text \<open>The marks that the parser sets: what is assigned, and what is called.\<close>

fun marked :: "expr \<Rightarrow> expr" where
  "marked (Function a ps lines) = Function a ps (map marked lines)"
| "marked (Scope a lines) = Scope a (map marked lines)"
| "marked (ArgList a xs) = ArgList a (map marked xs)"
| "marked (SingleOp op a x) = SingleOp op a (marked x)"
| "marked (BinaryOp op a x y) =
     BinaryOp op a
       (if op = Assign then set_lval (marked x) True
        else if op = Call then set_to_call (marked x) True else marked x)
       (marked y)"
| "marked (TernaryOp op a x y z) = TernaryOp op a (marked x) (marked y) (marked z)"
| "marked e = e"

section \<open>The canonical form and the marks\<close>

lemma canon_attr_idem [simp]: "canon_attr (canon_attr a) = canon_attr a"
  by (simp add: canon_attr_def)

lemma canon_new [simp]: "canon_attr new_attribute = new_attribute"
  by (simp add: canon_attr_def new_attribute_def)

lemma canon_idem [simp]: "canon (canon e) = canon e"
  by (induction e) (auto simp: canon_wrapped_def double_canon_def)

lemma canon_setter:
  assumes "\<And>a. canon_attr (f (canon_attr a)) = canon_attr (f a)" and "canon t = canon e"
  shows "canon (setter_visitor f t) = canon (setter_visitor f e)"
proof -
  have "canon (setter_visitor f t) = canon (setter_visitor f (canon t))" for t
    by (cases t) (simp_all add: assms(1) canon_wrapped_def double_canon_def)
  with assms(2) show ?thesis by metis
qed

lemma canon_set_lval: "canon t = canon e \<Longrightarrow> canon (set_lval t b) = canon (set_lval e b)"
  unfolding set_lval_def by (rule canon_setter) (simp_all add: canon_attr_def)

lemma canon_set_to_call: "canon t = canon e \<Longrightarrow> canon (set_to_call t b) = canon (set_to_call e b)"
  unfolding set_to_call_def by (rule canon_setter) (simp_all add: canon_attr_def)

lemma canon_set_where [simp]: "canon (set_where t l) = canon t"
  unfolding set_where_def by (cases t) (simp_all add: canon_attr_def)

lemma canon_set_where_r [simp]: "canon (set_where_r h t wh) = canon t"
  by (simp add: set_where_r_def)

lemma canon_unmarked: "unmarked a \<Longrightarrow> canon_attr a = new_attribute"
  by (simp add: unmarked_def canon_attr_def new_attribute_def)

section \<open>What may follow\<close>

text \<open>The first character of an operand.\<close>

definition starter :: "char \<Rightarrow> bool" where
  "starter c \<longleftrightarrow> in_charset Alnum c \<or> c \<in> set [CHR ''('', CHR ''!'', CHR ''~'', CHR ''{'', quote_char]"

text \<open>
  The rest of a text after an expression of level \<open>k\<close>: nothing, a bracket or separator, or an
  operator that binds less tightly.
\<close>

inductive follow :: "nat \<Rightarrow> string \<Rightarrow> bool" where
  nil: "follow k []"
| bracket: "c \<in> set '')]};:,'' \<Longrightarrow> follow k (c # s)"
| calls: "c = CHR ''('' \<or> c = CHR ''['' \<Longrightarrow> follow 0 (c # s)"
| quest: "k < 13 \<Longrightarrow> follow k (CHR ''?'' # s)"
| opr: "infix_op op \<or> op = Assign \<Longrightarrow> k < op_level op \<Longrightarrow> starter c \<Longrightarrow> follow k (binop_str op @ c # s)"

lemma follow_mono: "follow k r \<Longrightarrow> j \<le> k \<Longrightarrow> follow j r"
  by (induction rule: follow.induct) (auto intro: follow.intros)

lemma starter_neq:
  "starter c \<Longrightarrow> c \<notin> set ''+-*/%<>=&|^)]};:,?#.[ '' \<and> c \<notin> set [CHR 0x09, CHR 0x0A, CHR 0x0B, CHR 0x0C, CHR 0x0D]"
  by (auto simp: starter_def is_alpha_def is_digit_def Let_def)

section \<open>Numbers and truth values\<close>

text \<open>
  What the number parsers of Spirit are documented to do: a number does not start with other
  characters than a digit, a sign, a point, or the letters of \<open>inf\<close> and \<open>nan\<close>; the strict parser for
  decimals wants a point or an exponent; a number ends where its digits end; the parser for truth values
  matches the words \<open>true\<close> and \<open>false\<close>, and nothing else.
\<close>

definition no_number :: "string \<Rightarrow> bool" where
  "no_number s \<longleftrightarrow> s \<noteq> [] \<and> \<not> is_digit (hd s) \<and> hd s \<notin> set ''+-.'' \<and> \<not> like_number s"

definition ends_number :: "string \<Rightarrow> bool" where
  "ends_number s \<longleftrightarrow> s = [] \<or> \<not> is_digit (hd s) \<and> hd s \<notin> set ''.eE''"

definition number_lib :: "('n, 'f) x3 \<Rightarrow> bool" where
  "number_lib L \<longleftrightarrow>
     (\<forall>s. no_number s \<longrightarrow> real_p L s = None \<and> int_p L s = None) \<and>
     (\<forall>n s. ends_number s \<longrightarrow> real_p L (int_string n @ s) = None \<and>
        int_p L (int_string n @ s) = Some (n, length (int_string n))) \<and>
     (\<forall>s. \<not> like_bool s \<longrightarrow> bool_p L s = None) \<and>
     (\<forall>s. bool_p L (''true'' @ s) = Some (True, 4)) \<and> (\<forall>s. bool_p L (''false'' @ s) = Some (False, 5))"

lemma number_lib_grammar [simp]: "number_lib (grammar_x3 L h code) = number_lib L"
  by (simp add: number_lib_def grammar_x3_def)

text \<open>A name that is no number and no truth value is none with a rest either.\<close>

definition ends_name :: "string \<Rightarrow> bool" where
  "ends_name r \<longleftrightarrow> r = [] \<or> \<not> name_char (hd r)"

lemma like_letter_name: "like_letter c d \<Longrightarrow> d \<in> set ''infatruels'' \<Longrightarrow> name_char c"
  by (auto simp: like_letter_def is_alpha_def is_digit_def Let_def)

lemma like_word_append:
  "like_word w (x @ r) \<Longrightarrow> set w \<subseteq> set ''infatruels'' \<Longrightarrow> ends_name r \<Longrightarrow> like_word w x"
proof (induction w x rule: like_word.induct)
  case (2 d w)
  then show ?case by (cases r) (auto simp: ends_name_def dest!: like_letter_name)
qed auto

lemma take_word_append:
  "take (length w) (x @ r) = w \<Longrightarrow> set w \<subseteq> set ''infatruels'' \<Longrightarrow> ends_name r \<Longrightarrow> take (length w) x = w"
proof (induction w arbitrary: x)
  case (Cons d w)
  show ?case
  proof (cases x)
    case Nil
    with Cons.prems have "r \<noteq> []" "hd r = d" by (cases r; simp)+
    with Cons.prems(2,3) show ?thesis by (auto simp: ends_name_def is_alpha_def is_digit_def Let_def)
  qed (use Cons in auto)
qed simp

lemma variable_text_append:
  assumes "variable_text x" and "ends_name r"
  shows "no_number (x @ r)" and "\<not> like_bool (x @ r)"
proof -
  from assms(1) have x: "identifier_text x" "\<not> like_number x" "\<not> like_bool x" by (simp_all add: variable_text_def)
  have "\<not> like_number (x @ r)"
    using x(2) like_word_append [OF _ _ assms(2), of "''inf''" x] like_word_append [OF _ _ assms(2), of "''nan''" x]
    unfolding like_number_def by auto
  with x(1) show "no_number (x @ r)"
    by (cases x) (auto simp: no_number_def is_alpha_def is_digit_def Let_def)
  have "take (length w) x = w" if "w \<in> {''true'', ''false''}" "take (length w) (x @ r) = w" for w
    using that(1) by (intro take_word_append [OF that(2) _ assms(2)]) auto
  with x(3) show "\<not> like_bool (x @ r)" unfolding like_bool_def by blast
qed

section \<open>Induction on trees that have a text\<close>

lemma text_infix:
  "infix_op op \<Longrightarrow> text_at k (BinaryOp op a x y) =
     grouped (k < op_level op) (text_at (op_level op) x @ binop_str op @ text_at (op_level op - 1) y)"
  by (cases op) (simp_all add: infix_op_def)

lemma readable_infix:
  "readable (BinaryOp op a x y) \<Longrightarrow> op \<noteq> Call \<Longrightarrow> op \<noteq> Assign \<Longrightarrow> (infix_op op \<or> op = At) \<and> readable x \<and> readable y"
  by (cases op) auto

lemma readable_call: "readable (BinaryOp Call a x y) \<Longrightarrow> \<exists>b xs. y = ArgList b xs \<and> unmarked b \<and> list_all readable xs"
  by (cases y) auto

lemma declarable_cases: "declarable x \<Longrightarrow> (\<And>b n. x = Variable b n \<Longrightarrow> declarable (Variable b n) \<Longrightarrow> Q) \<Longrightarrow> Q"
  by (cases x) auto

lemma readable_induct [consumes 1, case_names Integer Boolean String Variable Function Scope Ret Prefix Call At Declare
  Assign Infix Cond]:
  assumes "readable e"
    and "\<And>a n. unmarked a \<Longrightarrow> P (Integer a n)"
    and "\<And>a b. unmarked a \<Longrightarrow> P (Boolean a b)"
    and "\<And>a s. unmarked a \<Longrightarrow> denotable quote_char True s \<Longrightarrow> P (String a s)"
    and "\<And>a x. unmarked a \<Longrightarrow> variable_text x \<Longrightarrow> P (Variable a x)"
    and "\<And>a ps ls. unmarked a \<Longrightarrow> list_all (\<lambda>p. unmarked (fst p) \<and> identifier_text (snd p)) ps \<Longrightarrow>
      (\<forall>l \<in> set ls. readable l \<and> P l) \<Longrightarrow> P (Function a ps ls)"
    and "\<And>a ls. unmarked a \<Longrightarrow> (\<forall>l \<in> set ls. readable l \<and> P l) \<Longrightarrow> P (Scope a ls)"
    and "\<And>a x. readable x \<Longrightarrow> P x \<Longrightarrow> P (SingleOp Ret a x)"
    and "\<And>op a x. op = LNot \<or> op = INot \<Longrightarrow> readable x \<Longrightarrow> P x \<Longrightarrow> P (SingleOp op a x)"
    and "\<And>a f b xs. readable f \<Longrightarrow> P f \<Longrightarrow> unmarked b \<Longrightarrow> (\<forall>x \<in> set xs. readable x \<and> P x) \<Longrightarrow> P (BinaryOp Call a f (ArgList b xs))"
    and "\<And>a x y. readable x \<Longrightarrow> P x \<Longrightarrow> readable y \<Longrightarrow> P y \<Longrightarrow> P (BinaryOp At a x y)"
    and "\<And>a b x y. declarable (Variable b x) \<Longrightarrow> readable y \<Longrightarrow> P y \<Longrightarrow> P (BinaryOp Assign a (Variable b x) y)"
    and "\<And>a x y. readable x \<Longrightarrow> P x \<Longrightarrow> readable y \<Longrightarrow> P y \<Longrightarrow> P (BinaryOp Assign a x y)"
    and "\<And>op a x y. infix_op op \<Longrightarrow> readable x \<Longrightarrow> P x \<Longrightarrow> readable y \<Longrightarrow> P y \<Longrightarrow> P (BinaryOp op a x y)"
    and "\<And>a x y z. readable x \<Longrightarrow> P x \<Longrightarrow> readable y \<Longrightarrow> P y \<Longrightarrow> readable z \<Longrightarrow> P z \<Longrightarrow> P (TernaryOp Cond a x y z)"
  shows "P e"
proof -
  have "(readable e \<longrightarrow> P e) \<and> (\<forall>b xs. e = ArgList b xs \<longrightarrow> (\<forall>x \<in> set xs. readable x \<longrightarrow> P x))"
  proof (induction e)
    case (BinaryOp op a x y)
    consider "op = Call" | "op = Assign" | "op \<noteq> Call" "op \<noteq> Assign" by blast
    then show ?case
    proof cases
      case 1
      then show ?thesis using BinaryOp assms(10) readable_call [of a x y] by (auto simp: list_all_iff)
    next
      case 2
      then show ?thesis using BinaryOp assms(12,13) by (auto elim: declarable_cases)
    next
      case 3
      then show ?thesis using BinaryOp assms(11,14) readable_infix [of op a x y] by auto
    qed
  next
    case (SingleOp op a x)
    then show ?case using assms(8,9) by auto
  next
    case (TernaryOp op a x y z)
    then show ?case using assms(15) by (cases op) auto
  qed (use assms(2-7) in \<open>auto simp: list_all_iff\<close>)
  with assms(1) show ?thesis by blast
qed

section \<open>The first characters of a text\<close>

lemma starter_int: "\<exists>c s. grouped (sint n < 0) (int_string n) = c # s \<and> starter c \<and> \<not> is_alpha c"
proof (cases "sint n < 0")
  case False
  have "nat_string m \<noteq> [] \<and> is_digit (hd (nat_string m))" for m
  proof (induction m rule: nat_string.induct)
    case (1 m)
    have "is_digit (digit_char d)" if "d < 10" for d using that by (simp add: is_digit_def)
    with 1 show ?case by (subst (1 2) nat_string.simps) auto
  qed
  then have "nat_string (nat (sint n)) \<noteq> []" "is_digit (hd (nat_string (nat (sint n))))" by blast+
  with False show ?thesis
    by (cases "nat_string (nat (sint n))")
      (auto simp: grouped_def int_string_def starter_def is_alpha_def is_digit_def Let_def)
qed (simp add: grouped_def starter_def is_alpha_def)

lemma starter_text: "readable e \<Longrightarrow> k \<le> 15 \<Longrightarrow> \<exists>c s. text_at k e = c # s \<and> starter c"
proof (induction arbitrary: k rule: readable_induct)
  case (Integer a n)
  then show ?case unfolding text_at.simps using starter_int [of n] by blast
next
  case (Variable a x)
  then show ?case by (cases x) (auto simp: variable_text_def starter_def)
next
  case (Infix op a x y)
  have "op_level op \<le> 15" using Infix.hyps by (cases op) (simp_all add: infix_op_def)
  with Infix.IH(1) obtain c s where "text_at (op_level op) x = c # s" "starter c" by blast
  then show ?case by (simp add: text_infix [OF Infix.hyps(1)] grouped_def) (simp add: starter_def)
next
  case (Call a f b xs)
  from Call.IH(1) [of 1] obtain c s where "text_at 1 f = c # s" "starter c" by auto
  then show ?case by (simp add: grouped_def) (simp add: starter_def)
next
  case (At a x y)
  from At.IH(1) [of 1] obtain c s where "text_at 1 x = c # s" "starter c" by auto
  then show ?case by (simp add: grouped_def) (simp add: starter_def)
next
  case (Declare a b x y)
  then show ?case by (cases x) (auto simp: variable_text_def starter_def grouped_def)
next
  case (Assign a x y)
  from Assign.IH(1) [of 13] obtain c s where "text_at 13 x = c # s" "starter c" by auto
  then show ?case by (simp add: grouped_def) (simp add: starter_def)
next
  case (Cond a x y z)
  from Cond.IH(1) [of 13] obtain c s where "text_at 13 x = c # s" "starter c" by auto
  then show ?case by (simp add: grouped_def) (simp add: starter_def)
qed (auto simp: starter_def grouped_def literal_def is_alpha_def Let_def)

lemma opr_not_skippable:
  assumes "infix_op op \<or> op = Assign" and "starter c"
  shows "\<not> skippable (binop_str op @ c # s)"
  using assms(1) starter_neq [OF assms(2)] by (cases op) (auto simp: infix_op_def Let_def)

lemma starter_not_skippable: "starter c \<Longrightarrow> \<not> skippable (c # s)"
  by (auto simp: starter_def is_alpha_def is_digit_def Let_def)

text \<open>
  A text in parentheses that is no parameter list: it does not begin with a name, or the name is
  not followed by what may follow a parameter.
\<close>

inductive group_text :: "string \<Rightarrow> bool" where
  other: "\<not> is_alpha c \<Longrightarrow> c \<noteq> CHR '')'' \<Longrightarrow> \<not> skippable (c # s) \<Longrightarrow> group_text (c # s)"
| declared: "identifier_text x \<Longrightarrow> list_all attribute_ok kvs \<Longrightarrow> group_text (x @ attributes_text kvs @ CHR ''='' # s)"
| name: "identifier_text x \<Longrightarrow> \<not> name_char c \<Longrightarrow> c \<notin> set '')#,'' \<Longrightarrow> \<not> skippable (c # s) \<Longrightarrow> group_text (x @ c # s)"

definition divider :: "char \<Rightarrow> string \<Rightarrow> bool" where
  "divider c s \<longleftrightarrow> \<not> name_char c \<and> c \<notin> set '')#,'' \<and> \<not> skippable (c # s)"

lemma divider_opr:
  assumes "infix_op op \<or> op = Assign" and "starter d"
  shows "\<exists>c t. binop_str op @ d # s = c # t \<and> divider c t"
proof -
  obtain c t where c: "binop_str op = c # t" using assms(1) by (cases op) (simp_all add: infix_op_def)
  moreover have "\<not> name_char c \<and> c \<notin> set '')#,''"
    using assms(1) c by (cases op) (auto simp: infix_op_def is_alpha_def is_digit_def Let_def)
  ultimately show ?thesis using opr_not_skippable [OF assms, of s] by (auto simp: divider_def)
qed

lemma divider_bracket: "c \<in> set ''([?'' \<Longrightarrow> divider c s"
  by (auto simp: divider_def is_alpha_def is_digit_def Let_def)

lemma group_text_grouped: "(\<not> b \<Longrightarrow> group_text (s @ r)) \<Longrightarrow> group_text (grouped b s @ r)"
  by (cases b) (auto simp: grouped_def is_alpha_def Let_def intro!: group_text.other)

lemma group_text_both:
  "readable e \<Longrightarrow> (\<forall>k c s. divider c s \<longrightarrow> group_text (text_at k e @ c # s)) \<and>
     (0 < level e \<longrightarrow> (\<forall>k s. group_text (text_at k e @ s)))"
proof (induction rule: readable_induct)
  case (Integer a n)
  obtain d t where "grouped (sint n < 0) (int_string n) = d # t" "starter d" "\<not> is_alpha d"
    using starter_int [of n] by blast
  then show ?case
    using starter_not_skippable [of d] starter_neq [of d] by (auto intro!: group_text.other)
next
  case (Boolean a b)
  then show ?case
    using group_text.name [of "if b then ''true'' else ''false''"]
    by (auto simp: divider_def is_alpha_def is_digit_def)
next
  case (Variable a x)
  then show ?case by (auto simp: divider_def variable_text_def unmarked_def intro: group_text.name)
next
  case (Infix op a x y)
  have "group_text (text_at k (BinaryOp op a x y) @ s)" for k s
  proof -
    have "op_level op - 1 \<le> 15" using Infix.hyps by (cases op) (simp_all add: infix_op_def)
    from starter_text [OF Infix.hyps(3) this] obtain d t where "text_at (op_level op - 1) y = d # t" "starter d" by blast
    with divider_opr [of op d "t @ s"] Infix.hyps(1)
    obtain d' t' where "binop_str op @ text_at (op_level op - 1) y @ s = d' # t'" "divider d' t'" by auto
    with Infix.IH(1) show ?thesis
      by (auto simp: text_infix [OF Infix.hyps(1)] intro!: group_text_grouped)
  qed
  then show ?case by blast
next
  case (Declare a b x y)
  then have "group_text (text_at k (BinaryOp Assign a (Variable b x) y) @ s)" for k s
    by (auto simp: variable_text_def intro!: group_text_grouped group_text.declared)
  then show ?case by blast
next
  case (Assign a x y)
  have "group_text (text_at k (BinaryOp Assign a x y) @ s)" for k s
  proof -
    from starter_text [OF Assign.hyps(2), of 14] obtain d t where "text_at 14 y = d # t" "starter d" by auto
    with divider_opr [of Assign d "t @ s"] have "divider (CHR ''='') (text_at 14 y @ s)" by simp
    with Assign.IH(1) show ?thesis by (auto intro!: group_text_grouped)
  qed
  then show ?case by blast
next
  case (Call a f b xs)
  have IH: "group_text (text_at j f @ c # u)" if "c \<in> set ''([?''" for j c u
    using Call.IH(1) divider_bracket [OF that] by blast
  have "group_text (text_at k (BinaryOp Call a f (ArgList b xs)) @ s)" for k s
    by (auto intro!: group_text_grouped IH)
  then show ?case by blast
next
  case (At a x y)
  have IH: "group_text (text_at j x @ c # u)" if "c \<in> set ''([?''" for j c u
    using At.IH(1) divider_bracket [OF that] by blast
  have "group_text (text_at k (BinaryOp At a x y) @ s)" for k s
    by (auto intro!: group_text_grouped IH)
  then show ?case by blast
next
  case (Cond a x y z)
  have IH: "group_text (text_at j x @ c # u)" if "c \<in> set ''([?''" for j c u
    using Cond.IH(1) divider_bracket [OF that] by blast
  have "group_text (text_at k (TernaryOp Cond a x y z) @ s)" for k s
    by (auto intro!: group_text_grouped IH)
  then show ?case by blast
next
  case (Prefix op a x)
  then have "group_text (text_at k (SingleOp op a x) @ s)" for k s
    by (auto simp: is_alpha_def Let_def intro!: group_text_grouped group_text.other)
  then show ?case by blast
qed (auto simp: is_alpha_def Let_def literal_def intro!: group_text_grouped group_text.other)

text \<open>A tree that is put in parentheses is not a single name, so it is no parameter list.\<close>

lemma group_text_level: "readable e \<Longrightarrow> 0 < level e \<Longrightarrow> group_text (text_at k e @ s)"
  using group_text_both by blast

end
