(* ===== verification/Parser_Expressions.thy ===== *)
theory Parser_Expressions
  imports Source_Text
begin

text \<open>
  How the rules of the grammar read a text: lemmas on single rules, which say what a rule does at a
  position with a certain rest of the text. The rules for infix operators are a first operand and
  a loop over operators and operands; the loop is followed operator by operator.
\<close>

section \<open>Rules at a position\<close>

abbreviation ex ::
  "(nonterm, act) x3 \<Rightarrow> rangePathHolder \<Rightarrow> string \<Rightarrow> g \<Rightarrow> nat \<Rightarrow> expr \<Rightarrow> pres option" where
  "ex L h code \<equiv> x3_exec (grammar_x3 L h code) True"

text \<open>The rule \<open>n\<close> matches from \<open>p\<close> to \<open>q\<close> and gives the tree \<open>e\<close>, up to places.\<close>

definition reads ::
  "(nonterm, act) x3 \<Rightarrow> rangePathHolder \<Rightarrow> string \<Rightarrow> nonterm \<Rightarrow> nat \<Rightarrow> nat \<Rightarrow> expr \<Rightarrow> bool" where
  "reads L h code n p q e \<longleftrightarrow> (\<exists>t. canon t = canon e \<and> (\<forall>v. ex L h code (NT n) p v = Some (POk q (AExpr t) v)))"

definition stops ::
  "(nonterm, act) x3 \<Rightarrow> rangePathHolder \<Rightarrow> string \<Rightarrow> g \<Rightarrow> nat \<Rightarrow> bool" where
  "stops L h code g p \<longleftrightarrow> (\<forall>v. ex L h code g p v = Some (PFail v))"

text \<open>
  The loop \<open>b\<close> of the rule \<open>n\<close> started at \<open>p\<close> has come to \<open>q\<close> with the tree \<open>e\<close>: however it goes
  on from there, so does the rule.
\<close>

definition reaches ::
  "(nonterm, act) x3 \<Rightarrow> rangePathHolder \<Rightarrow> string \<Rightarrow> nonterm \<Rightarrow> g \<Rightarrow> nat \<Rightarrow> nat \<Rightarrow> expr \<Rightarrow> bool" where
  "reaches L h code n b p q e \<longleftrightarrow> (\<exists>t. canon t = canon e \<and>
     (\<forall>v z as w. ex L h code (Star b) q t = Some (POk z (AVec as) w) \<longrightarrow>
        (\<exists>a. ex L h code (rule_of n) p v = Some (POk z a w))))"

lemma drop_after: "drop p code = s @ r \<Longrightarrow> drop (p + length s) code = r"
  by (metis add.commute append_eq_conv_conj drop_drop)

lemma ex_lit:
  "\<not> skippable (drop p code) \<Longrightarrow> ex L h code (lit s) p v =
    Some (if take (length s) (drop p code) = s then POk (p + length s) AUnused v else PFail v)"
  by (simp add: exec_simps(3) exec_no_skip run_prim_def)

lemma ex_assign:
  "(\<And>v. ex L h code g p v = Some (POk q (AExpr t) v)) \<Longrightarrow> ex L h code (Act g DoAssign) p v = Some (POk q (AExpr t) t)"
  by (simp add: exec_simps(14) run_action_def assign_def)

lemma reads_NT:
  assumes "\<And>v. \<exists>a. ex L h code (rule_of n) p v = Some (POk q a t)" and "canon t = canon e"
  shows "reads L h code n p q e"
  using assms(2) assms(1) [of default_expr] by (auto simp: reads_def exec_simps(15) intro!: exI [of _ t])

lemma stops_NT: "(\<And>v. \<exists>w. ex L h code (rule_of n) p v = Some (PFail w)) \<Longrightarrow> stops L h code (NT n) p"
  unfolding stops_def by (intro allI, elim meta_allE [of _ default_expr]) (auto simp: exec_simps(15))

lemma reaches_start:
  assumes "rule_of n = Seq (Act (NT m) DoAssign) (Star b)" and "reads L h code m p q e"
  shows "reaches L h code n b p q e"
proof -
  from assms(2) obtain t where t: "canon t = canon e" "\<And>v. ex L h code (NT m) p v = Some (POk q (AExpr t) v)"
    by (auto simp: reads_def)
  from ex_assign [OF t(2)] t(1) show ?thesis
    unfolding reaches_def assms(1) by (intro exI [of _ t]) (auto simp: exec_simps(4))
qed

lemma reaches_step:
  assumes "reaches L h code n b p q e"
    and "\<And>t. canon t = canon e \<Longrightarrow> \<exists>t' a. canon t' = canon e' \<and> ex L h code b q t = Some (POk q' a t')"
  shows "reaches L h code n b p q' e'"
proof -
  from assms(1) obtain t where t: "canon t = canon e"
    "\<And>v z as w. ex L h code (Star b) q t = Some (POk z (AVec as) w) \<Longrightarrow> \<exists>a. ex L h code (rule_of n) p v = Some (POk z a w)"
    unfolding reaches_def by blast
  from assms(2) [OF t(1)] obtain t' a where t': "canon t' = canon e'" "ex L h code b q t = Some (POk q' a t')" by blast
  have "ex L h code (Star b) q t = Some (POk z (AVec (a # as)) w)"
    if "ex L h code (Star b) q' t' = Some (POk z (AVec as) w)" for z as w
    using that t'(2) by (subst exec_simps(7)) simp
  with t(2) t'(1) show ?thesis unfolding reaches_def by blast
qed

lemma star_stops: "ex L h code b q v = Some (PFail w) \<Longrightarrow> ex L h code (Star b) q v = Some (POk q (AVec []) w)"
  by (subst exec_simps(7)) simp

lemma reaches_stop:
  assumes "reaches L h code n b p q e" and "stops L h code b q"
  shows "reads L h code n p q e"
proof -
  have stop: "ex L h code (Star b) q t = Some (POk q (AVec []) t)" for t
    by (rule star_stops) (use assms(2) in \<open>simp add: stops_def\<close>)
  from assms(1) obtain t where "canon t = canon e" "\<And>v. \<exists>a. ex L h code (rule_of n) p v = Some (POk q a t)"
    unfolding reaches_def using stop by blast
  then show ?thesis by (rule reads_NT [rotated])
qed

lemmas reads_next = reaches_stop [OF reaches_start]

section \<open>The levels of the grammar\<close>

definition rule_at :: "nat \<Rightarrow> nonterm" where
  "rule_at k =
     [RAttrExpr, RCallExpr, RPreSinopExpr, RPowExpr, RMulExpr, RAddExpr, RShiftExpr, RCmpExpr, RIAndExpr,
      RIXorExpr, RIOrExpr, RLAndExpr, RLOrExpr, RCondExpr, RAssignExpr, RPipeExpr, RExpression] ! k"

definition loop :: "nat \<Rightarrow> g" where
  "loop k = (case rule_of (rule_at k) of Seq _ (Star b) \<Rightarrow> b | _ \<Rightarrow> PreSkip)"

definition loop_levels :: "nat set" where
  "loop_levels = {1, 3, 4, 5, 6, 7, 8, 9, 10, 11, 12, 13, 15}"

lemma loop_rules:
  "loop 1 = Alt
     (Act (Expect (Expect (lit ''('') (comma_list RExpression)) (lit '')'')) (Op2 Call))
     (Act (Expect (Expect (lit ''['') (NT RExpression)) (lit '']'')) (Op2 At))"
  "loop 3 = infix_p (lit ''**'') RPreSinopExpr Pow"
  "loop 4 = Alt (infix_p (lit ''*'') RPowExpr Mul) (infix_p (lit ''/'') RPowExpr Div)"
  "loop 5 = Alt (Alt (infix_p (lit ''+'') RMulExpr Add) (Act (Seq (lit ''-'') (NT RMulExpr)) (Op2 Sub)))
     (infix_p (lit ''%'') RMulExpr Rem)"
  "loop 6 = Alt (infix_p (lit ''>>'') RAddExpr Shr) (infix_p (lit ''<<'') RAddExpr Shl)"
  "loop 7 = foldl Alt (infix_p (Diff (lit ''>'') (lit ''>='')) RShiftExpr Gt)
     [infix_p (Diff (lit ''<'') (lit ''<='')) RShiftExpr Lt, infix_p (lit ''>='') RShiftExpr Gtq,
      infix_p (lit ''<='') RShiftExpr Ltq, infix_p (lit ''=='') RShiftExpr Eeq, infix_p (lit ''!='') RShiftExpr Neq]"
  "loop 8 = infix_p (Diff (lit ''&'') (lit ''&&'')) RCmpExpr IAnd"
  "loop 9 = infix_p (lit ''^'') RIAndExpr IXor"
  "loop 10 = infix_p (Diff (lit ''|'') (lit ''||'')) RIXorExpr IOr"
  "loop 11 = infix_p (lit ''&&'') RIOrExpr LAnd"
  "loop 12 = infix_p (lit ''||'') RLAndExpr LOr"
  "loop 13 = Act (Expect (Expect (Expect (lit ''?'') (NT RLOrExpr)) (lit '':'')) (NT RLOrExpr)) (Op3 Cond)"
  "loop 15 = Act (Expect (lit ''->'') (NT RAssignExpr)) Pipe"
  by (simp_all add: loop_def rule_at_def call_rule_def pow_rule_def mul_rule_def add_rule_def shift_rule_def
      cmp_rule_def iand_rule_def ixor_rule_def ior_rule_def land_rule_def lor_rule_def cond_rule_def pipe_rule_def)

lemma rule_with_loop:
  "k \<in> loop_levels \<Longrightarrow> rule_of (rule_at k) = Seq (Act (NT (rule_at (k - 1))) DoAssign) (Star (loop k))"
  by (auto simp: loop_levels_def loop_def rule_at_def call_rule_def pow_rule_def mul_rule_def add_rule_def
      shift_rule_def cmp_rule_def iand_rule_def ixor_rule_def ior_rule_def land_rule_def lor_rule_def cond_rule_def
      pipe_rule_def)

section \<open>The loops stop\<close>

lemma follow_not_skippable: "follow k r \<Longrightarrow> \<not> skippable r"
proof (induction rule: follow.induct)
  case (opr op k c s)
  with starter_neq [OF opr(3)] show ?case by (cases op) (auto simp: infix_op_def Let_def)
qed (auto simp: Let_def)

text \<open>The tokens an iteration of a loop starts with.\<close>

definition heads :: "nat \<Rightarrow> string list" where
  "heads k =
     [[], [''('', ''[''], [], [''**''], [''*'', ''/''], [''+'', ''-'', ''%''], [''>>'', ''<<''],
      [''>'', ''<'', ''>='', ''<='', ''=='', ''!=''], [''&''], [''^''], [''|''], [''&&''], [''||''], [''?''], [], [''->'']] ! k"

definition no_head :: "nat \<Rightarrow> string \<Rightarrow> bool" where
  "no_head k r \<longleftrightarrow> list_all (\<lambda>t. take (length t) r \<noteq> t) (heads k) \<or>
     k = 8 \<and> take 2 r = ''&&'' \<or> k = 10 \<and> take 2 r = ''||''"

lemma follow_no_head:
  assumes "follow k r" and "k \<in> loop_levels"
  shows "no_head k r"
  using assms(1)
proof (cases rule: follow.cases)
  case (opr op c s)
  have c: "c \<noteq> CHR ''=''" "c \<noteq> CHR ''*''" "c \<noteq> CHR ''&''" "c \<noteq> CHR ''|''" "c \<noteq> CHR ''>''" "c \<noteq> CHR ''<''"
    "c \<noteq> CHR ''-''"
    using starter_neq [OF opr(4)] by simp_all
  have "\<forall>k \<in> loop_levels. k < op_level op \<longrightarrow> no_head k (binop_str op @ c # s)"
    unfolding loop_levels_def using c by (cases op) (simp_all add: no_head_def heads_def)
  with assms(2) opr show ?thesis by blast
next
  case (bracket c s)
  have "\<forall>k \<in> loop_levels. no_head k (c # s)"
    unfolding loop_levels_def using bracket(2) by (auto simp: no_head_def heads_def)
  with assms(2) bracket(1) show ?thesis by blast
next
  case (quest s)
  have "\<forall>k \<in> loop_levels. k < 13 \<longrightarrow> no_head k (CHR ''?'' # s)"
    unfolding loop_levels_def by (simp add: no_head_def heads_def)
  with assms(2) quest show ?thesis by blast
next
  case nil
  have "\<forall>k \<in> loop_levels. no_head k []"
    unfolding loop_levels_def by (simp add: no_head_def heads_def)
  with assms(2) nil show ?thesis by blast
qed (use assms(2) in \<open>simp add: loop_levels_def\<close>)

lemma stops_no_head:
  assumes "k \<in> loop_levels" and "\<not> skippable (drop q code)" and "no_head k (drop q code)"
  shows "stops L h code (loop k) q"
proof -
  have expect: "ex L h code l q v = Some (PFail v) \<Longrightarrow> ex L h code (Expect l r) q v = Some (PFail v)"
    and seq: "ex L h code l q v = Some (PFail v) \<Longrightarrow> ex L h code (Seq l r) q v = Some (PFail v)"
    and act: "ex L h code l q v = Some (PFail v) \<Longrightarrow> ex L h code (Act l f) q v = Some (PFail v)"
    and alt: "ex L h code l q v = Some (PFail v) \<Longrightarrow> ex L h code r q v = Some (PFail v) \<Longrightarrow>
      ex L h code (Alt l r) q v = Some (PFail v)"
    for l r v f by (simp_all add: exec_simps)
  show ?thesis
    using assms(1,3) unfolding loop_levels_def stops_def
    by (elim insertE emptyE; hypsubst; intro allI)
      (auto simp: loop_rules loop_rules(1) [simplified] infix_p_def no_head_def heads_def exec_simps(9) ex_lit [OF assms(2)] numeral_2_eq_2
        intro!: expect seq act alt)
qed

lemma stops_loop:
  assumes "k \<in> loop_levels" and "follow k (drop q code)"
  shows "stops L h code (loop k) q"
  by (intro stops_no_head assms follow_not_skippable [OF assms(2)] follow_no_head)

section \<open>The loops go on\<close>

lemma reads_run:
  assumes "reads L h code n p q e"
  obtains t where "canon t = canon e" "\<And>v. ex L h code (NT n) p v = Some (POk q (AExpr t) v)"
  using assms by (auto simp: reads_def)

lemma opr_chars:
  assumes "starter c"
  shows "c \<noteq> CHR ''=''" "c \<noteq> CHR ''*''" "c \<noteq> CHR ''&''" "c \<noteq> CHR ''|''" "c \<noteq> CHR ''>''" "c \<noteq> CHR ''<''" "c \<noteq> CHR ''-''"
    "c \<noteq> CHR ''+''"
  using starter_neq [OF assms] by simp_all

lemma loop_infix:
  assumes op: "infix_op op" and at: "drop q code = binop_str op @ c # s" "starter c"
    and y: "reads L h code (rule_at (op_level op - 1)) (q + length (binop_str op)) q' y" and t: "canon t = canon x"
  shows "\<exists>t' a. canon t' = canon (BinaryOp op b x y) \<and> ex L h code (loop (op_level op)) q t = Some (POk q' a t')"
proof -
  from opr_not_skippable [of op c s] op at have skip: "\<not> skippable (drop q code)" by simp
  from y obtain u where u: "canon u = canon y"
    "\<And>v. ex L h code (NT (rule_at (op_level op - 1))) (q + length (binop_str op)) v = Some (POk q' (AExpr u) v)"
    by (auto elim: reads_run)
  have "\<exists>a wh. ex L h code (loop (op_level op)) q t = Some (POk q' a (set_where_r h (BinaryOp op new_attribute t u) wh))"
    using op at(1) u(2) opr_chars [OF at(2)]
    by (cases op; simp add: infix_op_def loop_rules infix_p_def rule_at_def exec_simps(4,5,6,9,14) ex_lit [OF skip]
        run_action_def seq_attr_def seq_parts_def; blast)
  then show ?thesis using u(1) t by force
qed

lemma bracket_not_skippable: "c \<in> set ''()[]{};:,?!~|='' \<Longrightarrow> \<not> skippable (c # s)"
  by (auto simp: Let_def)

lemma loop_at:
  assumes at: "drop q code = CHR ''['' # r" "drop q' code = CHR '']'' # s"
    and y: "reads L h code RExpression (Suc q) q' y" and t: "canon t = canon x"
  shows "\<exists>t' a. canon t' = canon (BinaryOp At b x y) \<and> ex L h code (loop 1) q t = Some (POk (Suc q') a t')"
proof -
  have skip: "\<not> skippable (drop q code)" "\<not> skippable (drop q' code)"
    unfolding at by (rule bracket_not_skippable, simp)+
  from y obtain u where u: "canon u = canon y" "\<And>v. ex L h code (NT RExpression) (Suc q) v = Some (POk q' (AExpr u) v)"
    by (auto elim: reads_run)
  have "\<exists>a wh. ex L h code (loop 1) q t = Some (POk (Suc q') a (set_where_r h (BinaryOp At new_attribute t u) wh))"
    using at u(2)
    by (simp add: loop_rules(1) [simplified] exec_simps(5,6,14) ex_lit [OF skip(1)] ex_lit [OF skip(2)]
        run_action_def seq_attr_def seq_parts_def cong: run_congs) blast
  then show ?thesis using u(1) t by force
qed

lemma loop_cond:
  assumes at: "drop q code = CHR ''?'' # r" "drop q1 code = CHR '':'' # s"
    and y: "reads L h code RLOrExpr (Suc q) q1 y" and z: "reads L h code RLOrExpr (Suc q1) q2 z"
    and t: "canon t = canon x"
  shows "\<exists>t' a. canon t' = canon (TernaryOp Cond b x y z) \<and> ex L h code (loop 13) q t = Some (POk q2 a t')"
proof -
  have skip: "\<not> skippable (drop q code)" "\<not> skippable (drop q1 code)"
    unfolding at by (rule bracket_not_skippable, simp)+
  from y obtain u where u: "canon u = canon y" "\<And>v. ex L h code (NT RLOrExpr) (Suc q) v = Some (POk q1 (AExpr u) v)"
    by (auto elim: reads_run)
  from z obtain w where w: "canon w = canon z" "\<And>v. ex L h code (NT RLOrExpr) (Suc q1) v = Some (POk q2 (AExpr w) v)"
    by (auto elim: reads_run)
  have "\<exists>a wh. ex L h code (loop 13) q t = Some (POk q2 a (set_where_r h (TernaryOp Cond new_attribute t u w) wh))"
    using at u(2) w(2)
    by (simp add: loop_rules exec_simps(5,14) ex_lit [OF skip(1)] ex_lit [OF skip(2)]
        run_action_def seq_attr_def seq_parts_def assign_op3_def cong: run_congs) blast
  then show ?thesis using u(1) w(1) t by force
qed

section \<open>Lists\<close>

text \<open>Elements that are separated by commas and followed by a closing parenthesis.\<close>

lemma reads_commas:
  assumes "\<forall>x \<in> set xs. \<forall>p s c. drop p code = f x @ c # s \<longrightarrow> c = CHR '','' \<or> c = CHR '')'' \<longrightarrow>
      reads L h code n p (p + length (f x)) (g x)"
    and "\<forall>p s. drop p code = CHR '')'' # s \<longrightarrow> stops L h code (NT n) p"
    and "drop p code = commas (map f xs) @ CHR '')'' # s"
  shows "\<exists>ts. map canon ts = map (canon \<circ> g) xs \<and> (\<forall>v. ex L h code (comma_list n) p v =
    Some (POk (p + length (commas (map f xs))) (AVec (map AExpr ts)) v))"
  using assms(1,3)
proof (induction xs arbitrary: p)
  case Nil
  then have "stops L h code (NT n) p" using assms(2) by simp
  then show ?case by (intro exI [of _ "[]"]) (simp add: comma_list_def stops_def star_stops exec_simps(4))
next
  case (Cons x xs)
  define sep where "sep = (if xs = [] then [] else '','')"
  let ?q = "p + length (f x)" let ?q' = "?q + length sep"
  have at: "drop p code = f x @ sep @ commas (map f xs) @ CHR '')'' # s"
    using Cons.prems(2) by (cases xs) (simp_all add: sep_def)
  from drop_after [OF at] have at1: "drop ?q code = sep @ commas (map f xs) @ CHR '')'' # s" .
  from drop_after [OF at1] have at2: "drop ?q' code = commas (map f xs) @ CHR '')'' # s" .
  have "\<exists>c r. sep @ commas (map f xs) @ CHR '')'' # s = c # r \<and> (c = CHR '','' \<or> c = CHR '')'')"
    by (cases xs) (simp_all add: sep_def)
  with at Cons.prems(1) have "reads L h code n p ?q (g x)" by (metis list.set_intros(1))
  then obtain t where t: "canon t = canon (g x)" "\<And>v. ex L h code (NT n) p v = Some (POk ?q (AExpr t) v)"
    by (auto elim: reads_run)
  from Cons.IH [OF _ at2] Cons.prems(1) obtain ts where ts: "map canon ts = map (canon \<circ> g) xs"
    "\<And>v. ex L h code (comma_list n) ?q' v = Some (POk (?q' + length (commas (map f xs))) (AVec (map AExpr ts)) v)"
    by (metis list.set_intros(2))
  have skip: "\<not> skippable (drop ?q code)" unfolding at1 by (cases xs) (simp_all add: sep_def Let_def)
  have len: "length (commas (map f (x # xs))) = length (f x) + length sep + length (commas (map f xs))"
    by (cases xs) (simp_all add: sep_def)
  have "ex L h code (comma_list n) p v =
      Some (POk (p + length (commas (map f (x # xs)))) (AVec (map AExpr (t # ts))) v)" for v
  proof -
    have "\<exists>a. ex L h code (Opt (lit '','')) ?q v = Some (POk ?q' a v)"
      using at1 by (cases xs) (simp_all add: sep_def exec_simps(8) ex_lit [OF skip])
    then obtain a where "ex L h code (Opt (lit '','')) ?q v = Some (POk ?q' a v)" ..
    with t(2) ts(2) show ?thesis
      unfolding comma_list_def len
      by (subst exec_simps(7)) (simp add: exec_simps(4) seq_attr_def seq_parts_def add.assoc)
  qed
  then show ?case using t(1) ts(1) by (intro exI [of _ "t # ts"]) simp
qed

text \<open>Lines that end with a semicolon and are followed by a closing brace.\<close>

lemma reads_lines:
  assumes "\<forall>x \<in> set xs. \<forall>p s. drop p code = f x @ CHR '';'' # s \<longrightarrow>
      reads L h code RExpression p (p + length (f x)) (g x)"
    and "\<forall>p s. drop p code = CHR ''}'' # s \<longrightarrow> stops L h code (NT RExpression) p"
    and "drop p code = concat (map (\<lambda>x. f x @ '';'') xs) @ CHR ''}'' # s"
  shows "\<exists>ts. map canon ts = map (canon \<circ> g) xs \<and> (\<forall>v. ex L h code lines_p p v =
    Some (POk (p + length (concat (map (\<lambda>x. f x @ '';'') xs))) (AVec (map AExpr ts)) v))"
  using assms(1,3)
proof (induction xs arbitrary: p)
  case Nil
  then have "stops L h code (NT RExpression) p" using assms(2) by simp
  then show ?case by (intro exI [of _ "[]"]) (simp add: lines_p_def stops_def star_stops exec_simps(4))
next
  case (Cons x xs)
  let ?q = "p + length (f x)"
  let ?rest = "concat (map (\<lambda>x. f x @ '';'') xs) @ CHR ''}'' # s"
  have at: "drop p code = f x @ CHR '';'' # ?rest" using Cons.prems(2) by simp
  from drop_after [OF at] have at1: "drop ?q code = CHR '';'' # ?rest" .
  then have at2: "drop (Suc ?q) code = ?rest" using drop_after [of ?q code "'';''"] by simp
  from at Cons.prems(1) have "reads L h code RExpression p ?q (g x)" by simp
  then obtain t where t: "canon t = canon (g x)" "\<And>v. ex L h code (NT RExpression) p v = Some (POk ?q (AExpr t) v)"
    by (auto elim: reads_run)
  from Cons.IH [OF _ at2] Cons.prems(1) obtain ts where ts: "map canon ts = map (canon \<circ> g) xs"
    "\<And>v. ex L h code lines_p (Suc ?q) v =
      Some (POk (Suc ?q + length (concat (map (\<lambda>x. f x @ '';'') xs))) (AVec (map AExpr ts)) v)"
    by (metis list.set_intros(2))
  have skip: "\<not> skippable (drop ?q code)" unfolding at1 by (rule bracket_not_skippable) simp
  have "ex L h code (lit '';'') ?q v = Some (POk (Suc ?q) AUnused v)" for v
    using at1 by (simp add: ex_lit [OF skip])
  with t(2) ts(2) have "ex L h code lines_p p v =
      Some (POk (p + length (concat (map (\<lambda>x. f x @ '';'') (x # xs)))) (AVec (map AExpr (t # ts))) v)" for v
    unfolding lines_p_def
    by (subst exec_simps(7)) (simp add: exec_simps(4) seq_attr_def seq_parts_def add.assoc)
  then show ?case using t(1) ts(1) by (intro exI [of _ "t # ts"]) simp
qed

section \<open>No expression\<close>

lemma no_number_lits:
  assumes "number_lib L" and "no_number (drop p code)" and "\<not> like_bool (drop p code)"
  shows "real_p (grammar_x3 L h code) (drop p code) = None" "int_p (grammar_x3 L h code) (drop p code) = None"
    "bool_p (grammar_x3 L h code) (drop p code) = None"
  using assms number_lib_grammar [of L h code] unfolding number_lib_def by blast+

text \<open>What the alternatives of a primary expression start with.\<close>

lemma stops_alternatives:
  assumes "drop p code = c # s" and "\<not> skippable (c # s)"
  shows "c \<noteq> quote_char \<Longrightarrow> stops L h code (NT RString) p"
    "c \<noteq> squote_char \<Longrightarrow> stops L h code (NT RRawString) p"
    "\<not> is_alpha c \<Longrightarrow> stops L h code (NT RVariable) p"
    "c \<noteq> CHR ''@'' \<Longrightarrow> stops L h code (NT RPreVariable) p"
    "c \<noteq> CHR ''['' \<Longrightarrow> stops L h code (NT RStructure) p"
    "c \<noteq> CHR ''['' \<Longrightarrow> stops L h code (NT RArray) p"
    "c \<noteq> CHR ''('' \<Longrightarrow> stops L h code (NT RFunction) p"
    "c \<noteq> CHR ''('' \<Longrightarrow> stops L h code (NT RShortFunction) p"
    "c \<noteq> CHR ''{'' \<Longrightarrow> stops L h code (NT RScope) p"
    "\<not> is_alpha c \<Longrightarrow> stops L h code (NT RIdentifier) p"
proof -
  have skip: "\<not> skippable (drop p code)" using assms by simp
  note rules = string_rule_def raw_string_rule_def variable_rule_def pre_variable_rule_def structure_rule_def
    array_rule_def function_rule_def short_function_rule_def scope_rule_def identifier_rule_def identifier_p_def
  note simps = rules exec_simps(1,3,4,5,12,13,14,15) ex_lit [OF skip] exec_no_skip [OF skip] run_prim_def assms(1) stops_def
  show "c \<noteq> quote_char \<Longrightarrow> stops L h code (NT RString) p"
    "c \<noteq> squote_char \<Longrightarrow> stops L h code (NT RRawString) p"
    "\<not> is_alpha c \<Longrightarrow> stops L h code (NT RVariable) p"
    "c \<noteq> CHR ''@'' \<Longrightarrow> stops L h code (NT RPreVariable) p"
    "c \<noteq> CHR ''['' \<Longrightarrow> stops L h code (NT RStructure) p"
    "c \<noteq> CHR ''['' \<Longrightarrow> stops L h code (NT RArray) p"
    "c \<noteq> CHR ''('' \<Longrightarrow> stops L h code (NT RFunction) p"
    "c \<noteq> CHR ''('' \<Longrightarrow> stops L h code (NT RShortFunction) p"
    "c \<noteq> CHR ''{'' \<Longrightarrow> stops L h code (NT RScope) p"
    "\<not> is_alpha c \<Longrightarrow> stops L h code (NT RIdentifier) p"
    by (simp_all add: simps cong: run_congs)
qed

lemma stops_primary:
  assumes L: "number_lib L" and at: "drop p code = c # s" and "\<not> skippable (c # s)"
    and "no_number (c # s)" and "\<not> is_alpha c" and "c \<notin> set [quote_char, squote_char, CHR ''@'', CHR ''['', CHR ''('', CHR ''{'']"
  shows "stops L h code (NT RPrimary) p"
proof -
  have skip: "\<not> skippable (drop p code)" using assms by simp
  have "\<not> like_bool (c # s)" using assms(5) by (auto simp: like_bool_def is_alpha_def Let_def)
  note none = no_number_lits [OF L, of p code h, unfolded at, OF assms(4) this]
  note alts = stops_alternatives [OF at assms(3), of L h, unfolded stops_def]
  have lit: "ex L h code (lit ''('') p v = Some (PFail v)" for v using assms(6) at by (simp add: ex_lit [OF skip])
  show ?thesis
    by (rule stops_NT) (use assms(5,6) none in \<open>simp add: primary_rule_def exec_simps(3,4,6,14) exec_no_skip [OF skip]
      run_prim_def at alts lit cong: run_congs\<close>)
qed

text \<open>What stops a primary expression stops the expressions that begin with one.\<close>

lemma stops_seq: "stops L h code g p \<Longrightarrow> stops L h code (Seq g g') p"
  by (simp add: stops_def exec_simps(4))

lemma stops_expect: "stops L h code g p \<Longrightarrow> stops L h code (Expect g g') p"
  by (simp add: stops_def exec_simps(5))

lemma stops_act: "stops L h code g p \<Longrightarrow> stops L h code (Act g f) p"
  by (simp add: stops_def exec_simps(14))

lemma stops_alt: "stops L h code g p \<Longrightarrow> stops L h code g' p \<Longrightarrow> stops L h code (Alt g g') p"
  by (simp add: stops_def exec_simps(6))

lemma stops_rule: "stops L h code (rule_of n) p \<Longrightarrow> stops L h code (NT n) p"
  by (rule stops_NT) (simp add: stops_def)

lemma stops_lit: "\<not> skippable (drop p code) \<Longrightarrow> take (length s) (drop p code) \<noteq> s \<Longrightarrow> stops L h code (lit s) p"
  by (simp add: stops_def ex_lit)

lemmas stops_rules = stops_seq stops_expect stops_act stops_alt

lemma stops_postfix:
  assumes "stops L h code (NT RPrimary) p"
  shows "stops L h code (NT RPostSinopExpr) p"
proof -
  have "stops L h code (NT RDotExpr) p" by (rule stops_rule) (simp add: dot_rule_def stops_rules assms)
  then have "stops L h code (NT RAttrExpr) p" by (intro stops_rule) (simp add: attr_rule_def stops_rules)
  then have "stops L h code (NT RCallExpr) p" by (intro stops_rule) (simp add: call_rule_def stops_rules)
  then show ?thesis by (intro stops_rule) (simp add: post_sinop_rule_def stops_rules)
qed

lemma stops_level: "k \<in> loop_levels \<Longrightarrow> stops L h code (NT (rule_at (k - 1))) p \<Longrightarrow> stops L h code (NT (rule_at k)) p"
  by (intro stops_rule) (simp add: rule_with_loop stops_rules)

lemma stops_pipe:
  assumes "stops L h code (NT RPrimary) p" and at: "drop p code = c # s" and "\<not> skippable (c # s)" and "c \<notin> set ''!~+-''"
  shows "stops L h code (NT RPipeExpr) p"
proof -
  have skip: "\<not> skippable (drop p code)" using assms by simp
  have lit: "take (length t) (c # s) \<noteq> t \<Longrightarrow> stops L h code (lit t) p" for t
    using stops_lit [OF skip] by (simp add: at)
  have "stops L h code (NT RPreSinopExpr) p"
    by (rule stops_rule, unfold rule_of.simps pre_sinop_rule_def prefix_p_def)
      (intro stops_rules stops_postfix [OF assms(1)] lit; use assms(4) in auto)
  then have "stops L h code (NT (rule_at (3 - 1))) p" by (simp add: rule_at_def)
  then have 3: "stops L h code (NT (rule_at 3)) p" by (rule stops_level [rotated]) (simp add: loop_levels_def)
  have "k \<le> 10 \<Longrightarrow> stops L h code (NT (rule_at (3 + k))) p" for k
  proof (induction k)
    case (Suc k)
    then have "stops L h code (NT (rule_at (3 + Suc k - 1))) p" by simp
    moreover have "3 + Suc k \<in> loop_levels"
      using Suc.prems by (auto simp: loop_levels_def) 
    ultimately show ?case by (rule stops_level [rotated])
  qed (use 3 in simp)
  from this [of 10] have "stops L h code (NT RCondExpr) p" by (simp add: rule_at_def)
  then have "stops L h code (NT RAssignExpr) p" by (intro stops_rule) (simp add: assign_rule_def stops_rules)
  then show ?thesis by (intro stops_rule) (simp add: pipe_rule_def stops_rules)
qed

text \<open>What no expression begins with.\<close>

lemma no_expression:
  assumes L: "number_lib L" and at: "drop p code = c # s" and c: "c \<in> set ''*=<>&^?%),:;]}''"
  shows "stops L h code (NT RExpression) p"
proof -
  have ok: "\<not> skippable (c # s)" "no_number (c # s)" "\<not> is_alpha c"
    using c by (auto simp: no_number_def like_number_def like_letter_def is_alpha_def is_digit_def Let_def)
  have "stops L h code (NT RPrimary) p"
    by (rule stops_primary [OF L at]) (use ok c in auto)
  then have "stops L h code (NT RPipeExpr) p" by (rule stops_pipe [OF _ at]) (use ok c in auto)
  moreover have "stops L h code (lit ''|>'') p"
    by (rule stops_lit) (use at c ok in auto)
  ultimately have "stops L h code (NT RRetExpr) p"
    by (intro stops_rule) (simp add: ret_rule_def prefix_p_def stops_rules)
  then show ?thesis by (intro stops_rule) (simp add: expression_rule_def stops_rules)
qed

lemma stops_expression:
  assumes "number_lib L" and "drop p code = c # s" and "c = CHR '')'' \<or> c = CHR ''}''"
  shows "stops L h code (NT RExpression) p"
  by (rule no_expression [OF assms(1,2)]) (use assms(3) in auto)

end
