(* ===== verification/Parser_Roundtrip.thy ===== *)
theory Parser_Roundtrip
  imports Parser_Expressions
begin

text \<open>
  The grammar reads the text of a tree back: every tree of the reference in \<open>Source_Text\<close> is
  the result of parsing its text, with the operators grouped by their precedence and to the left.
\<close>

section \<open>Names, numbers and truth values\<close>

lemma name_star:
  assumes "list_all name_char x" and "ends_name r" and "drop p (input X) = x @ r"
  shows "\<exists>a. x3_exec X False (Star (Alt (chr_p Alnum) (lit ''_''))) p v = Some (POk (p + length x) (AVec a) v)"
  using assms
proof (induction x arbitrary: p)
  case Nil
  then show ?case
    by (subst exec_simps(7)) (cases r; simp add: ends_name_def exec_simps(1,3,6) run_prim_def)
next
  case (Cons c x)
  have "drop (p + length [c]) (input X) = x @ r" by (rule drop_after) (use Cons.prems in simp)
  with Cons.IH [of "Suc p"] Cons.prems(1,2) obtain a where
    rest: "x3_exec X False (Star (Alt (chr_p Alnum) (lit ''_''))) (Suc p) v = Some (POk (Suc p + length x) (AVec a) v)"
    by auto
  have "\<exists>b. x3_exec X False (Alt (chr_p Alnum) (lit ''_'')) p v = Some (POk (Suc p) b v)"
    using Cons.prems(1,3) by (auto simp: exec_simps(1,3,6) run_prim_def)
  then obtain b where "x3_exec X False (Alt (chr_p Alnum) (lit ''_'')) p v = Some (POk (Suc p) b v)" ..
  with rest show ?case by (subst exec_simps(7)) simp
qed

lemma name_not_skippable: "identifier_text x \<Longrightarrow> \<not> skippable (x @ r)"
  by (cases x) (auto simp: is_alpha_def Let_def)

lemma name_read:
  assumes x: "identifier_text x" and at: "drop p code = x @ r" and r: "ends_name r"
  shows "ex L h code (Raw (Lexeme identifier_p)) p v = Some (POk (p + length x) (AStr x) v)"
proof -
  have skip: "\<not> skippable (drop p code)" unfolding at by (rule name_not_skippable [OF x])
  from x obtain c s where cs: "x = c # s" "is_alpha c" "list_all name_char s" by (cases x) auto
  have "drop (p + length [c]) code = s @ r" by (rule drop_after) (use at cs in simp)
  then obtain a where star: "x3_exec (grammar_x3 L h code) False (Star (Alt (chr_p Alnum) (lit ''_''))) (Suc p) v =
      Some (POk (Suc p + length s) (AVec a) v)"
    using name_star [OF cs(3) r, of "Suc p" "grammar_x3 L h code" v] by auto
  have "slice code p (p + length x) = x"
    using at by (simp add: slice_def)
  with star show ?thesis
    using at cs by (simp add: exec_simps(1,3,5,12,13) exec_no_skip [OF skip] identifier_p_def run_prim_def)
qed

lemma reads_name:
  assumes "identifier_text x" and "drop p code = x @ r" and "ends_name r"
  shows "reads L h code RVariable p (p + length x) (Variable new_attribute x)"
  by (rule reads_NT [where t = "set_where_r h (Variable new_attribute x) (where_pos L p (p + length x), length code)"])
    (use name_read [OF assms] in \<open>simp_all add: variable_rule_def exec_simps(14) run_action_def assign_str_as_def\<close>)

lemma reads_parameter:
  assumes x: "identifier_text x" and at: "drop p code = x @ r" and r: "ends_name r" "\<not> skippable r" "r = [] \<or> hd r \<noteq> CHR ''#''"
  shows "\<exists>a. canon_attr a = new_attribute \<and>
    (\<forall>v. ex L h code (NT RIdentifier) p v = Some (POk (p + length x) (AExpr (Identifier a x)) v))"
proof -
  have at1: "drop (p + length x) code = r" by (rule drop_after [OF at])
  have skip: "\<not> skippable (drop (p + length x) code)" using at1 r(2) by simp
  have "ex L h code (Act (Seq (Seq (lit ''#'') (NT RIdentifier)) (Opt (Expect (lit '':'') (NT RAttributeVal)))) SetAttr)
      (p + length x) v = Some (PFail v)" for v
    using r(3) at1 by (cases r) (simp_all add: exec_simps(4,14) ex_lit [OF skip])
  then have star: "ex L h code attributes_p (p + length x) v = Some (POk (p + length x) (AVec []) v)" for v
    unfolding attributes_p_def by (rule star_stops)
  let ?t = "set_where_r h (Identifier new_attribute x) (where_pos L p (p + length x), length code)"
  have "ex L h code (NT RIdentifier) p v = Some (POk (p + length x) (AExpr ?t) v)" for v
    by (simp add: exec_simps(4,14,15) identifier_rule_def name_read [OF assms(1-3)] run_action_def assign_str_as_def star)
  moreover obtain a where "?t = Identifier a x" "canon_attr a = new_attribute"
    by (simp add: set_where_r_def set_where_def canon_attr_def new_attribute_def)
  ultimately show ?thesis by auto
qed

text \<open>Attributes, which an equals sign follows.\<close>

lemma value_star:
  assumes "list_all value_char x" and "r = [] \<or> \<not> value_char (hd r)" and "drop p (input X) = x @ r"
  shows "\<exists>a. x3_exec X False (Star (Alt (chr_p Alnum) (chr_p (OneOf ''-_./*[]{}'')))) p v = Some (POk (p + length x) (AVec a) v)"
  using assms
proof (induction x arbitrary: p)
  case Nil
  then show ?case
    by (subst exec_simps(7)) (cases r; simp add: value_char_def exec_simps(1,3,6) run_prim_def)
next
  case (Cons c x)
  let ?g = "Alt (chr_p Alnum) (chr_p (OneOf ''-_./*[]{}''))"
  have "drop (p + length [c]) (input X) = x @ r" by (rule drop_after) (use Cons.prems in simp)
  with Cons.IH [of "Suc p"] Cons.prems(1,2) obtain a where
    rest: "x3_exec X False (Star ?g) (Suc p) v = Some (POk (Suc p + length x) (AVec a) v)"
    by auto
  have "\<exists>b. x3_exec X False ?g p v = Some (POk (Suc p) b v)"
    using Cons.prems(1,3) by (auto simp: value_char_def exec_simps(1,3,6) run_prim_def)
  then obtain b where "x3_exec X False ?g p v = Some (POk (Suc p) b v)" ..
  with rest show ?case by (subst exec_simps(7)) simp
qed

lemma value_read:
  assumes x: "list_all value_char x" and at: "drop p code = x @ r" and r: "r = [] \<or> \<not> value_char (hd r)"
    and skip: "\<not> skippable (x @ r)"
  shows "\<exists>a. \<forall>v. ex L h code (NT RAttributeVal) p v = Some (POk (p + length x) (AExpr (AttributeVal a x)) v)"
proof -
  have skip: "\<not> skippable (drop p code)" unfolding at by (rule skip)
  have "slice code p (p + length x) = x" using at by (simp add: slice_def)
  have star: "\<exists>a. x3_exec (grammar_x3 L h code) False (Star (Alt (chr_p Alnum) (chr_p (OneOf ''-_./*[]{}'')))) p v =
      Some (POk (p + length x) (AVec a) v)" for v
    by (rule value_star [OF x r]) (simp add: at)
  have raw: "ex L h code (Raw (Lexeme (Star (Alt (chr_p Alnum) (chr_p (OneOf ''-_./*[]{}'')))))) p v =
      Some (POk (p + length x) (AStr x) v)" for v
    using star [of v] \<open>slice code p (p + length x) = x\<close>
    by (elim exE) (simp add: exec_simps(12,13) exec_no_skip [OF skip] del: in_charset.simps)
  let ?t = "set_where_r h (AttributeVal new_attribute x) (where_pos L p (p + length x), length code)"
  have "ex L h code (NT RAttributeVal) p v = Some (POk (p + length x) (AExpr ?t) v)" for v
    by (simp add: attribute_val_rule_def exec_simps(14,15) raw run_action_def assign_str_as_def)
  moreover obtain a where "?t = AttributeVal a x" by (simp add: set_where_r_def set_where_def)
  ultimately show ?thesis by auto
qed

lemma attribute_read:
  assumes kv: "attribute_ok (k, w)" and at: "drop p code = ''#'' @ k @ val @ r"
    and val: "val = [] \<and> w = [] \<or> val = CHR '':'' # w" and r: "r = CHR ''='' # s \<or> val \<noteq> [] \<and> r = CHR ''#'' # s"
  shows "\<exists>a. ex L h code (Act (Seq (Seq (lit ''#'') (NT RIdentifier)) (Opt (Expect (lit '':'') (NT RAttributeVal)))) SetAttr) p v =
    Some (POk (p + length (''#'' @ k @ val)) a (set_attr v k w))"
proof -
  let ?q = "Suc (p + length k)" let ?z = "?q + length val"
  from kv have k: "identifier_text k" and w: "list_all value_char w" "\<not> skippable w" by (simp_all add: attribute_ok_def)
  from at have at1: "drop (Suc p) code = k @ val @ r" using drop_after [of p code "''#''"] by simp
  from drop_after [OF at1] have at2: "drop ?q code = val @ r" by simp
  have nexts: "ends_name (val @ r)" "\<not> skippable (val @ r)" "val @ r = [] \<or> hd (val @ r) \<noteq> CHR ''#''"
    using val r by (auto simp: ends_name_def is_alpha_def is_digit_def Let_def)
  from reads_parameter [OF k at1 nexts, of L h] obtain a where
    key: "\<And>v. ex L h code (NT RIdentifier) (Suc p) v = Some (POk ?q (AExpr (Identifier a k)) v)" by auto
  have skip: "\<not> skippable (drop p code)" "\<not> skippable (drop ?q code)" using at at2 nexts(2) by (simp_all add: Let_def)
  have "\<exists>b. ex L h code (Opt (Expect (lit '':'') (NT RAttributeVal))) ?q v = Some (POk ?z (AOpt b) v) \<and>
      assign_attr (ATup [AExpr (Identifier a k), AOpt b]) v = Some (set_attr v k w)"
    using val
  proof
    assume "val = [] \<and> w = []"
    then show ?thesis
      using at2 r by (auto simp: exec_simps(5,8) ex_lit [OF skip(2)] assign_attr_def)
  next
    assume v: "val = CHR '':'' # w"
    then have at3: "drop (Suc ?q) code = w @ r" using drop_after [of ?q code "'':''"] at2 by simp
    have "r = [] \<or> \<not> value_char (hd r)" "\<not> skippable (w @ r)"
      using r w(2) by (cases w rule: skippable.cases; cases "tl w"; auto simp: value_char_def is_alpha_def is_digit_def Let_def)+
    from value_read [OF w(1) at3 this] obtain b where
      "\<And>v. ex L h code (NT RAttributeVal) (Suc ?q) v = Some (POk (Suc ?q + length w) (AExpr (AttributeVal b w)) v)" by blast
    with v at2 show ?thesis
      by (auto simp: exec_simps(5,8) ex_lit [OF skip(2)] assign_attr_def seq_attr_def seq_parts_def
        intro!: exI [of _ "Some (AExpr (AttributeVal b w))"])
  qed
  with key at show ?thesis
    by (auto simp: exec_simps(4,14) ex_lit [OF skip(1)] run_action_def seq_attr_def seq_parts_def)
qed

lemma attributes_read:
  assumes "list_all attribute_ok kvs" and "drop p code = attributes_text kvs @ CHR ''='' # s"
  shows "\<exists>bs. ex L h code attributes_p p v =
    Some (POk (p + length (attributes_text kvs)) (AVec bs) (fold (\<lambda>kv t. set_attr t (fst kv) (snd kv)) kvs v))"
  using assms
proof (induction kvs arbitrary: p v)
  case Nil
  then show ?case
    unfolding attributes_p_def by (subst star_stops [where w = v]) (simp_all add: exec_simps(4,14) ex_lit Let_def)
next
  case (Cons kv kvs)
  obtain k w where kv: "kv = (k, w)" by fastforce
  define val where "val = (if w = [] \<and> kvs = [] then [] else '':'' @ w)"
  define r where "r = attributes_text kvs @ CHR ''='' # s"
  have written: "attributes_text (kv # kvs) = ''#'' @ k @ val @ attributes_text kvs" by (simp add: kv val_def)
  with Cons.prems(2) have at: "drop p code = ''#'' @ k @ val @ r" by (simp add: r_def)
  have "val = [] \<and> w = [] \<or> val = CHR '':'' # w" by (simp add: val_def)
  moreover obtain u where "r = CHR ''='' # u \<or> val \<noteq> [] \<and> r = CHR ''#'' # u"
    by (cases kvs) (auto simp: r_def val_def)
  moreover have "attribute_ok (k, w)" using Cons.prems(1) by (simp add: kv)
  ultimately obtain a where one:
    "ex L h code (Act (Seq (Seq (lit ''#'') (NT RIdentifier)) (Opt (Expect (lit '':'') (NT RAttributeVal)))) SetAttr) p v =
      Some (POk (p + length (''#'' @ k @ val)) a (set_attr v k w))"
    using attribute_read [OF _ at] by blast
  have "drop p code = (''#'' @ k @ val) @ r" using at by simp
  from drop_after [OF this] have "drop (p + length (''#'' @ k @ val)) code = attributes_text kvs @ CHR ''='' # s"
    by (simp add: r_def)
  from Cons.IH [OF _ this, of "set_attr v k w"] Cons.prems(1) obtain bs where
    "ex L h code attributes_p (p + length (''#'' @ k @ val)) (set_attr v k w) =
      Some (POk (p + length (''#'' @ k @ val) + length (attributes_text kvs)) (AVec bs)
        (fold (\<lambda>kv t. set_attr t (fst kv) (snd kv)) kvs (set_attr v k w)))"
    by auto
  with one show ?case
    unfolding written unfolding attributes_p_def
    by (subst exec_simps(7)) (simp add: kv add.assoc)
qed

lemma attributes_end: "ends_name (attributes_text kvs @ CHR ''='' # s)"
  by (cases kvs) (auto simp: ends_name_def is_alpha_def is_digit_def Let_def)

lemma attributes_identifier: "\<exists>b. fold (\<lambda>kv t. set_attr t (fst kv) (snd kv)) kvs (Identifier a x) = Identifier b x"
  by (induction kvs arbitrary: a) (simp_all add: set_attr_def)

lemma declared_parameter:
  assumes x: "identifier_text x" and kvs: "list_all attribute_ok kvs" and at: "drop p code = x @ attributes_text kvs @ CHR ''='' # s"
  shows "\<exists>b. \<forall>v. ex L h code (NT RIdentifier) p v =
    Some (POk (p + length x + length (attributes_text kvs)) (AExpr (Identifier b x)) v)"
proof -
  let ?t = "set_where_r h (Identifier new_attribute x) (where_pos L p (p + length x), length code)"
  obtain a where "?t = Identifier a x" by (simp add: set_where_r_def set_where_def)
  with attributes_identifier [of kvs a x] obtain b where
    b: "fold (\<lambda>kv t. set_attr t (fst kv) (snd kv)) kvs ?t = Identifier b x" by auto
  from attributes_read [OF kvs drop_after [OF at], of L h ?t] obtain bs where "ex L h code attributes_p (p + length x) ?t =
    Some (POk (p + length x + length (attributes_text kvs)) (AVec bs) (Identifier b x))" unfolding b ..
  then show ?thesis
    by (intro exI [of _ b])
      (simp add: identifier_rule_def exec_simps(4,14,15) name_read [OF x at attributes_end] run_action_def assign_str_as_def)
qed

lemma om_put_last: "\<forall>kv \<in> set m. p (fst kv) < p k \<Longrightarrow> om_put p k v m = m @ [(k, v)]"
  by (induction p k v m rule: om_put.induct) auto

lemma sm_put_all: "sm_wf (m @ kvs) \<Longrightarrow> fold (\<lambda>kv. sm_put (fst kv) (snd kv)) kvs m = m @ kvs"
proof (induction kvs arbitrary: m)
  case (Cons kv kvs)
  then have "\<forall>kv' \<in> set m. fst kv' < fst kv" by (auto simp: om_wf_def sorted_wrt_append)
  with Cons.IH [of "m @ [kv]"] Cons.prems om_put_last [of m "\<lambda>k. k" "fst kv" "snd kv"] show ?case by simp
qed simp

lemma attributes_set:
  "sm_wf kvs \<Longrightarrow> attributes a = [] \<Longrightarrow>
   fold (\<lambda>kv t. set_attr t (fst kv) (snd kv)) kvs (Variable a x) = Variable (a\<lparr>attributes := kvs\<rparr>) x"
proof -
  have "fold (\<lambda>kv t. set_attr t (fst kv) (snd kv)) kvs (Variable a x) =
      Variable (a\<lparr>attributes := fold (\<lambda>kv. sm_put (fst kv) (snd kv)) kvs (attributes a)\<rparr>) x" for a
    by (induction kvs arbitrary: a) (simp_all add: set_attr_def)
  then show "sm_wf kvs \<Longrightarrow> attributes a = [] \<Longrightarrow> ?thesis" using sm_put_all [of "[]" kvs] by simp
qed

lemma digits_nat_string: "nat_string n \<noteq> [] \<and> list_all is_digit (nat_string n)"
proof (induction n rule: nat_string.induct)
  case (1 n)
  have "is_digit (digit_char d)" if "d < 10" for d
    using that by (simp add: is_digit_def)
  with 1 show ?case by (subst (1 2) nat_string.simps) auto
qed

lemma int_string_head: "\<exists>c s. int_string n = c # s \<and> (is_digit c \<or> c = CHR ''-'')"
  using digits_nat_string [of "nat (sint n)"] by (cases "nat_string (nat (sint n))") (auto simp: int_string_def)

lemma reads_integer:
  assumes L: "number_lib L" and at: "drop p code = int_string n @ r" and r: "ends_number r"
  shows "reads L h code RPrimary p (p + length (int_string n)) (Integer new_attribute n)"
proof -
  obtain c s where c: "int_string n = c # s" "is_digit c \<or> c = CHR ''-''" using int_string_head by blast
  then have skip: "\<not> skippable (drop p code)" unfolding at by (auto simp: is_digit_def Let_def)
  have "number_lib (grammar_x3 L h code)" using L by simp
  with r have num: "real_p (grammar_x3 L h code) (drop p code) = None"
    "int_p (grammar_x3 L h code) (drop p code) = Some (n, length (int_string n))"
    unfolding at number_lib_def by blast+
  show ?thesis
    by (rule reads_NT [where t = "set_where_r h (Integer new_attribute n) (where_pos L p (p + length (int_string n)), length code)"])
      (use num in \<open>simp_all add: primary_rule_def exec_simps(3,6,14) exec_no_skip [OF skip] run_prim_def run_action_def
        assign_as_def cong: run_congs\<close>)
qed

lemma reads_boolean:
  assumes L: "number_lib L" and at: "drop p code = (if b then ''true'' else ''false'') @ r"
  shows "reads L h code RPrimary p (p + length (if b then ''true'' else ''false'')) (Boolean new_attribute b)"
proof -
  have skip: "\<not> skippable (drop p code)" unfolding at by (simp add: Let_def)
  have "no_number (drop p code)"
    unfolding at by (auto simp: no_number_def like_number_def like_letter_def is_digit_def Let_def)
  moreover have lib: "number_lib (grammar_x3 L h code)" using L by simp
  ultimately have num: "real_p (grammar_x3 L h code) (drop p code) = None" "int_p (grammar_x3 L h code) (drop p code) = None"
    unfolding number_lib_def by blast+
  have bool: "bool_p (grammar_x3 L h code) (drop p code) = Some (b, length (if b then ''true'' else ''false''))"
    using lib unfolding at number_lib_def by (cases b) auto
  show ?thesis
    by (rule reads_NT [where t = "set_where_r h (Boolean new_attribute b)
        (where_pos L p (p + length (if b then ''true'' else ''false'')), length code)"])
      (use num bool in \<open>simp_all add: primary_rule_def exec_simps(3,6,14) exec_no_skip [OF skip] run_prim_def run_action_def
        assign_as_def cong: run_congs\<close>)
qed

text \<open>A primary expression that is a rule of its own: the alternatives before it stop.\<close>

definition nonnumber :: "(nonterm, act) x3 \<Rightarrow> string \<Rightarrow> nat \<Rightarrow> bool" where
  "nonnumber L code p \<longleftrightarrow> \<not> skippable (drop p code) \<and> real_p L (drop p code) = None \<and> int_p L (drop p code) = None \<and>
     bool_p L (drop p code) = None"

lemma nonnumberI:
  assumes "number_lib L" and "\<not> skippable (drop p code)" and "no_number (drop p code)" and "\<not> like_bool (drop p code)"
  shows "nonnumber L code p"
  using assms unfolding nonnumber_def number_lib_def by blast

definition own_rules :: "nonterm list" where
  "own_rules = [RString, RRawString, RVariable, RPreVariable, RStructure, RArray, RFunction, RShortFunction, RScope]"

lemma reads_primary:
  assumes num: "nonnumber L code p" and n: "reads L h code n p q e" and own: "n \<in> set own_rules"
    and stop: "list_all (\<lambda>m. stops L h code (NT m) p) (takeWhile (\<lambda>m. m \<noteq> n) own_rules)"
  shows "reads L h code RPrimary p q e"
proof -
  from num have skip: "\<not> skippable (drop p code)" and nums: "real_p (grammar_x3 L h code) (drop p code) = None"
    "int_p (grammar_x3 L h code) (drop p code) = None" "bool_p (grammar_x3 L h code) (drop p code) = None"
    by (simp_all add: nonnumber_def grammar_x3_def)
  from n obtain t where t: "canon t = canon e" "\<And>v. ex L h code (NT n) p v = Some (POk q (AExpr t) v)"
    by (auto elim: reads_run)
  have "\<exists>a. ex L h code primary_rule p v = Some (POk q a t)" for v
    using own stop t(2) unfolding own_rules_def
    by simp (elim disjE; simp add: stops_def primary_rule_def exec_simps(3,6,14) exec_no_skip [OF skip] run_prim_def
      run_action_def nums assign_def cong: run_congs)
  then show ?thesis using t(1) by (intro reads_NT [where t = t]) simp
qed

lemma reads_variable:
  assumes L: "number_lib L" and x: "variable_text x" and at: "drop p code = x @ r" and r: "ends_name r"
  shows "reads L h code RPrimary p (p + length x) (Variable new_attribute x)"
proof (rule reads_primary)
  from x have id: "identifier_text x" by (simp add: variable_text_def)
  from name_not_skippable [OF id] have skip: "\<not> skippable (drop p code)" unfolding at .
  then show "nonnumber L code p"
    by (rule nonnumberI [OF L]) (simp_all only: at variable_text_append [OF x r] not_False_eq_True)
  show "reads L h code RVariable p (p + length x) (Variable new_attribute x)"
    by (rule reads_name [OF id at r])
  from id obtain c s where "drop p code = c # s" "is_alpha c" unfolding at by (cases x) auto
  with skip show "list_all (\<lambda>m. stops L h code (NT m) p) (takeWhile (\<lambda>m. m \<noteq> RVariable) own_rules)"
    by (auto simp: own_rules_def is_alpha_def Let_def intro!: stops_alternatives)
qed (simp add: own_rules_def)

lemma reads_string:
  assumes L: "number_lib L" and s: "denotable quote_char True s" and at: "drop p code = literal quote_char True s @ r"
  shows "reads L h code RPrimary p (p + length (literal quote_char True s)) (String new_attribute s)"
proof (rule reads_primary)
  obtain u where u: "drop p code = quote_char # u" unfolding at by (simp add: literal_def)
  then have skip: "\<not> skippable (drop p code)" by (simp add: Let_def)
  then show "nonnumber L code p"
    by (rule nonnumberI [OF L]) (simp_all add: u no_number_def like_number_def like_bool_def like_letter_def is_digit_def)
  show "reads L h code RString p (p + length (literal quote_char True s)) (String new_attribute s)"
    by (rule reads_NT) (auto simp: rule_bodies literal_parsed [OF _ s at] is_quote_def)
qed (simp_all add: own_rules_def)

section \<open>Brackets\<close>

text \<open>At an opening parenthesis only functions and groups can match; at a brace only scopes.\<close>

lemma bracket_no_number:
  assumes "number_lib L" and "drop p code = c # s" and "c = CHR ''('' \<or> c = CHR ''{''"
  shows "nonnumber L code p"
  by (rule nonnumberI [OF assms(1)])
    (use assms(2,3) in \<open>auto simp: no_number_def like_number_def like_bool_def like_letter_def is_digit_def Let_def\<close>)

lemma bracket_stops:
  assumes "drop p code = c # s" and "c = CHR ''('' \<or> c = CHR ''{''"
    and "m \<in> {RString, RRawString, RVariable, RPreVariable, RStructure, RArray}"
  shows "stops L h code (NT m) p"
proof -
  have "\<not> skippable (c # s)" using assms(2) by (auto simp: Let_def)
  from stops_alternatives [OF assms(1) this] assms(2,3) show ?thesis
    by (auto simp: is_alpha_def Let_def)
qed

text \<open>
  An opening parenthesis is taken for the start of a parameter list first. It is none if the names that follow
  are not closed by a parenthesis.
\<close>

lemma no_parameters:
  assumes at: "drop p code = CHR ''('' # s" and names: "\<And>v. \<exists>a. ex L h code (comma_list RIdentifier) (Suc p) v = Some (POk z a v)"
    and z: "drop z code = c # r" "c \<noteq> CHR '')''" "\<not> skippable (c # r)"
  shows "stops L h code (NT RFunction) p" and "stops L h code (NT RShortFunction) p"
proof -
  have skip: "\<not> skippable (drop p code)" "\<not> skippable (drop z code)" using at z by simp_all
  have "ex L h code (Seq (Expect (lit ''('') (comma_list RIdentifier)) (lit '')'')) p v = Some (PFail v)" for v
  proof -
    obtain a where "ex L h code (comma_list RIdentifier) (Suc p) v = Some (POk z a v)" using names by blast
    then show ?thesis
      using at z by (simp add: exec_simps(4,5) ex_lit [OF skip(1)] ex_lit [OF skip(2)] cong: run_congs)
  qed
  then have params: "stops L h code (Seq (Expect (lit ''('') (comma_list RIdentifier)) (lit '')'')) p"
    by (simp add: stops_def)
  show "stops L h code (NT RFunction) p"
    by (rule stops_rule) (simp add: function_rule_def stops_rules params)
  show "stops L h code (NT RShortFunction) p"
    by (rule stops_rule) (simp add: short_function_rule_def stops_rules params)
qed

lemma reads_group:
  assumes L: "number_lib L" and at: "drop p code = CHR ''('' # s"
    and fn: "stops L h code (NT RFunction) p" "stops L h code (NT RShortFunction) p"
    and e: "reads L h code RExpression (Suc p) q e" and q: "drop q code = CHR '')'' # r"
  shows "reads L h code RPrimary p (Suc q) e"
proof -
  have num: "nonnumber L code p" by (rule bracket_no_number [OF L at]) simp
  then have skip: "\<not> skippable (drop p code)" "\<not> skippable (drop q code)"
    and nums: "real_p (grammar_x3 L h code) (drop p code) = None"
      "int_p (grammar_x3 L h code) (drop p code) = None" "bool_p (grammar_x3 L h code) (drop p code) = None"
    using q by (simp_all add: nonnumber_def grammar_x3_def)
  have stop: "stops L h code (NT m) p" if "m \<in> set own_rules" for m
    using that fn bracket_stops [OF at] stops_alternatives(9) [OF at] by (auto simp: own_rules_def)
  then have own: "ex L h code (NT m) p v = Some (PFail v)" if "m \<in> set own_rules" for m v
    using that unfolding stops_def by blast
  from e obtain t where t: "canon t = canon e" "\<And>v. ex L h code (NT RExpression) (Suc p) v = Some (POk q (AExpr t) v)"
    by (auto elim: reads_run)
  show ?thesis
    using t at q
    by (intro reads_NT [where t = t])
      (simp_all add: primary_rule_def exec_simps(3,4,6,14) exec_no_skip [OF skip(1)] exec_no_skip [OF skip(2)] run_prim_def
        run_action_def nums [unfolded at] assign_def own own_rules_def seq_attr_def seq_parts_def cong: run_congs)
qed

section \<open>Functions and scopes\<close>

abbreviation lines_text :: "('a \<Rightarrow> string) \<Rightarrow> 'a list \<Rightarrow> string" where
  "lines_text f ls \<equiv> concat (map (\<lambda>l. f l @ '';'') ls)"

lemma those_AExpr [simp]: "those (map (as_expr \<circ> AExpr) ts) = Some ts"
  by (simp add: those_Some)

lemma parameters_of:
  "map canon ts = map (canon \<circ> (\<lambda>p. Identifier (fst p) (snd p))) ps \<Longrightarrow>
   \<exists>qs. unpack_params (AVec (map AExpr ts)) = Some qs \<and> map canon_wrapped qs = map canon_wrapped ps"
proof (induction ps arbitrary: ts)
  case (Cons p ps)
  then obtain u us where ts: "ts = u # us" "canon u = canon (Identifier (fst p) (snd p))"
    "map canon us = map (canon \<circ> (\<lambda>p. Identifier (fst p) (snd p))) ps" by auto
  from Cons.IH [OF ts(3)] obtain qs where "those (map unpack_identifier us) = Some qs"
    "map canon_wrapped qs = map canon_wrapped ps" by (auto simp: unpack_params_def bind_eq_Some_conv)
  moreover from ts(2) obtain a where "u = Identifier a (snd p)" "canon_attr a = canon_attr (fst p)" by (cases u) auto
  moreover from this have "canon_wrapped (a, snd p) = canon_wrapped p" by (simp add: canon_wrapped_def)
  ultimately show ?case by (simp add: ts(1) unpack_params_def)
qed (simp add: unpack_params_def)

lemma reads_scope:
  assumes L: "number_lib L" and a: "unmarked a" and at: "drop p code = ''{'' @ lines_text f ls @ ''}'' @ r"
    and lines: "\<forall>x \<in> set ls. \<forall>p s. drop p code = f x @ CHR '';'' # s \<longrightarrow> reads L h code RExpression p (p + length (f x)) (g x)"
  shows "reads L h code RPrimary p (p + length (''{'' @ lines_text f ls @ ''}'')) (Scope a (map g ls))"
proof (rule reads_primary)
  define q where "q = Suc p + length (lines_text f ls)"
  let ?last = "p + length (''{'' @ lines_text f ls @ ''}'')"
  from at have at0: "drop p code = CHR ''{'' # lines_text f ls @ ''}'' @ r" by simp
  from bracket_no_number [OF L at0] show "nonnumber L code p" by simp
  from bracket_stops [OF at0] stops_alternatives(7,8) [OF at0]
  show "list_all (\<lambda>m. stops L h code (NT m) p) (takeWhile (\<lambda>m. m \<noteq> RScope) own_rules)"
    by (simp add: own_rules_def Let_def)
  have at1: "drop (Suc p) code = lines_text f ls @ CHR ''}'' # r" using drop_after [of p code "''{''"] at by simp
  from drop_after [OF at1] have at2: "drop q code = CHR ''}'' # r" unfolding q_def .
  have skip: "\<not> skippable (drop p code)" "\<not> skippable (drop q code)" using at0 at2 by (simp_all add: Let_def)
  from reads_lines [OF lines _ at1] stops_expression [OF L] obtain ts where ts: "map canon ts = map (canon \<circ> g) ls"
    "\<And>v. ex L h code lines_p (Suc p) v = Some (POk q (AVec (map AExpr ts)) v)"
    unfolding q_def by blast
  have q: "Suc q = ?last" by (simp add: q_def)
  show "reads L h code RScope p ?last (Scope a (map g ls))"
  proof (rule reads_NT)
    show "canon (set_where_r h (Scope new_attribute ts) (where_pos L p ?last, length code)) = canon (Scope a (map g ls))"
      using ts(1) canon_unmarked [OF a] by simp
    have "has_attr lines_p" by (simp add: lines_p_def)
    then show "\<exists>a. ex L h code (rule_of RScope) p v = Some (POk ?last a
        (set_where_r h (Scope new_attribute ts) (where_pos L p ?last, length code)))" for v
      unfolding q [symmetric] using at0 at2 ts(2)
      by (simp add: scope_rule_def exec_simps(5,14) ex_lit [OF skip(1)] ex_lit [OF skip(2)]
        run_action_def assign_as_def seq_attr_def seq_parts_def cong: run_congs)
  qed
qed (simp add: own_rules_def)

lemma reads_function:
  assumes L: "number_lib L" and a: "unmarked a" and ps: "list_all (\<lambda>p. unmarked (fst p) \<and> identifier_text (snd p)) ps"
    and at: "drop p code = ''('' @ commas (map snd ps) @ ''){'' @ lines_text f ls @ ''}'' @ r"
    and lines: "\<forall>x \<in> set ls. \<forall>p s. drop p code = f x @ CHR '';'' # s \<longrightarrow> reads L h code RExpression p (p + length (f x)) (g x)"
  shows "reads L h code RPrimary p (p + length (''('' @ commas (map snd ps) @ ''){'' @ lines_text f ls @ ''}''))
    (Function a ps (map g ls))"
proof (rule reads_primary)
  define q1 where "q1 = Suc p + length (commas (map snd ps))"
  define q2 where "q2 = Suc (Suc q1) + length (lines_text f ls)"
  let ?last = "p + length (''('' @ commas (map snd ps) @ ''){'' @ lines_text f ls @ ''}'')"
  from at have at0: "drop p code = CHR ''('' # commas (map snd ps) @ CHR '')'' # CHR ''{'' # lines_text f ls @ ''}'' @ r" by simp
  from bracket_no_number [OF L at0] show "nonnumber L code p" by simp
  from bracket_stops [OF at0]
  show "list_all (\<lambda>m. stops L h code (NT m) p) (takeWhile (\<lambda>m. m \<noteq> RFunction) own_rules)"
    by (simp add: own_rules_def)
  have at1: "drop (Suc p) code = commas (map snd ps) @ CHR '')'' # CHR ''{'' # lines_text f ls @ ''}'' @ r"
    using drop_after [of p code "''(''"] at by simp
  from drop_after [OF at1] have at2: "drop q1 code = CHR '')'' # CHR ''{'' # lines_text f ls @ ''}'' @ r"
    unfolding q1_def .
  then have at3: "drop (Suc q1) code = CHR ''{'' # lines_text f ls @ ''}'' @ r"
    using drop_after [of q1 code "'')''"] by simp
  then have at4: "drop (Suc (Suc q1)) code = lines_text f ls @ CHR ''}'' # r"
    using drop_after [of "Suc q1" code "''{''"] by simp
  from drop_after [OF at4] have at5: "drop q2 code = CHR ''}'' # r" unfolding q2_def .
  have skip: "\<not> skippable (drop p code)" "\<not> skippable (drop q1 code)" "\<not> skippable (drop (Suc q1) code)"
    "\<not> skippable (drop q2 code)" using at0 at2 at3 at5 by (simp_all add: Let_def)
  have param: "reads L h code RIdentifier i (i + length (snd x)) (Identifier (fst x) (snd x))"
    if "x \<in> set ps" "drop i code = snd x @ c # s" "c = CHR '','' \<or> c = CHR '')''" for x i c s
  proof -
    from ps that(1) have x: "identifier_text (snd x)" "unmarked (fst x)" by (auto simp: list_all_iff)
    have "ends_name (c # s)" "\<not> skippable (c # s)" "c # s = [] \<or> hd (c # s) \<noteq> CHR ''#''"
      using that(3) by (auto simp: ends_name_def is_alpha_def is_digit_def Let_def)
    from reads_parameter [OF x(1) that(2) this, of L h] canon_unmarked [OF x(2)] show ?thesis
      by (auto simp: reads_def)
  qed
  have "stops L h code (NT RIdentifier) i" if "drop i code = CHR '')'' # s" for i s
    by (rule stops_alternatives(10) [OF that]) (simp_all add: is_alpha_def Let_def)
  from reads_commas [where f = snd and n = RIdentifier and g = "\<lambda>p. Identifier (fst p) (snd p)", OF _ _ at1] param this obtain ids where
    ids: "map canon ids = map (canon \<circ> (\<lambda>p. Identifier (fst p) (snd p))) ps"
    "\<And>v. ex L h code (comma_list RIdentifier) (Suc p) v = Some (POk q1 (AVec (map AExpr ids)) v)" unfolding q1_def by blast
  from parameters_of [OF ids(1)] obtain qs where qs: "unpack_params (AVec (map AExpr ids)) = Some qs"
    "map canon_wrapped qs = map canon_wrapped ps" by blast
  from reads_lines [OF lines _ at4] stops_expression [OF L] obtain ts where ts: "map canon ts = map (canon \<circ> g) ls"
    "\<And>v. ex L h code lines_p (Suc (Suc q1)) v = Some (POk q2 (AVec (map AExpr ts)) v)" unfolding q2_def by blast
  have q: "Suc q2 = ?last" by (simp add: q1_def q2_def)
  show "reads L h code RFunction p ?last (Function a ps (map g ls))"
  proof (rule reads_NT)
    show "canon (set_where_r h (Function new_attribute qs ts) (where_pos L p ?last, length code)) =
        canon (Function a ps (map g ls))"
      using ts(1) qs(2) canon_unmarked [OF a] by simp
    have "has_attr lines_p" "has_attr (comma_list RIdentifier)" by (simp_all add: lines_p_def comma_list_def)
    then show "\<exists>a. ex L h code (rule_of RFunction) p v = Some (POk ?last a
        (set_where_r h (Function new_attribute qs ts) (where_pos L p ?last, length code)))" for v
      unfolding q [symmetric] using at0 at2 at3 at5 ids(2) ts(2) qs(1)
      by (simp add: function_rule_def exec_simps(4,5,14) ex_lit [OF skip(1)] ex_lit [OF skip(2)] ex_lit [OF skip(3)]
        ex_lit [OF skip(4)] run_action_def assign_func_def seq_attr_def seq_parts_def cong: run_congs)
  qed
qed (simp add: own_rules_def)

section \<open>From level to level\<close>

text \<open>The single characters that no rest of the reference starts with.\<close>

lemma follow_hd: "follow k r \<Longrightarrow> r \<noteq> [] \<Longrightarrow> hd r \<notin> set ''.#@ '' \<and> \<not> name_char (hd r)"
proof (induction rule: follow.induct)
  case (opr op k c s)
  then show ?case by (cases op) (auto simp: infix_op_def is_alpha_def is_digit_def Let_def)
qed (auto simp: is_alpha_def is_digit_def Let_def)

lemma follow_twice: "follow k r \<Longrightarrow> take 2 r \<noteq> ''++'' \<and> take 2 r \<noteq> ''--''"
proof (induction rule: follow.induct)
  case (opr op k c s)
  with opr_chars [OF opr(3)] show ?case by (cases op) (auto simp: infix_op_def)
qed (auto simp: Let_def)

lemma follow_no_assign: "follow 14 r \<Longrightarrow> take 1 r \<noteq> ''=''"
proof (induction "14 :: nat" r rule: follow.induct)
  case (opr op c s)
  then show ?case by (cases op) (auto simp: infix_op_def)
qed auto

lemma reads_atom:
  assumes "reads L h code RPrimary p q e" and q: "follow k (drop q code)"
  shows "reads L h code RAttrExpr p q e"
proof -
  have skip: "\<not> skippable (drop q code)" by (rule follow_not_skippable [OF q])
  have hd: "take 1 (drop q code) \<noteq> ''.''" "take 1 (drop q code) \<noteq> ''#''" "take 2 (drop q code) \<noteq> ''.:''"
    "take 2 (drop q code) \<noteq> ''.=''"
    using follow_hd [OF q] by (cases "drop q code"; auto)+
  have dots: "stops L h code (lit ''.'') q" "stops L h code (lit ''.:'') q" "stops L h code (lit ''.='') q"
    "stops L h code (lit ''#'') q"
    using hd by (auto intro!: stops_lit [OF skip] simp: numeral_2_eq_2)
  have dot: "reads L h code RDotExpr p q e"
    by (rule reads_next [OF _ assms(1)], simp only: rule_of.simps dot_rule_def)
      (simp add: infix_p_def stops_rules dots)
  show ?thesis
    by (rule reads_next [OF _ dot], simp only: rule_of.simps attr_rule_def attributes_p_def)
      (simp add: stops_rules dots)
qed

lemma reads_pass_loop:
  assumes "reads L h code (rule_at (k - 1)) p q e" and "k \<in> loop_levels" and "follow k (drop q code)"
  shows "reads L h code (rule_at k) p q e"
  by (rule reads_next [OF rule_with_loop [OF assms(2)] assms(1) stops_loop [OF assms(2,3)]])

lemma reads_postfix:
  assumes e: "reads L h code RCallExpr p q e" and q: "follow k (drop q code)"
  shows "reads L h code RPostSinopExpr p q e"
proof -
  have skip: "\<not> skippable (drop q code)" by (rule follow_not_skippable [OF q])
  from e obtain t where t: "canon t = canon e" "\<And>v. ex L h code (NT RCallExpr) p v = Some (POk q (AExpr t) v)"
    by (auto elim: reads_run)
  show ?thesis
    using t follow_twice [OF q]
    by (intro reads_NT [where t = t])
      (simp_all add: post_sinop_rule_def exec_simps(4,6,14) ex_lit [OF skip] run_action_def assign_def numeral_2_eq_2
        cong: run_congs)
qed

lemma reads_pass_prefix:
  assumes e: "reads L h code RCallExpr p q e" and q: "follow k (drop q code)"
  shows "reads L h code RPreSinopExpr p q e"
proof -
  from reads_postfix [OF e q] obtain t where t: "canon t = canon e"
    "\<And>v. ex L h code (NT RPostSinopExpr) p v = Some (POk q (AExpr t) v)"
    by (auto elim: reads_run)
  then show ?thesis
    by (intro reads_NT [where t = t])
      (simp_all add: pre_sinop_rule_def exec_simps(6,14) run_action_def assign_def cong: run_congs)
qed

lemma operator_no_expression:
  assumes "number_lib L" and "drop p code = c # s" and "c = CHR ''!'' \<or> c = CHR ''~'' \<or> c = CHR ''|''"
  shows "stops L h code (NT RPrimary) p"
  by (rule stops_primary [OF assms(1,2)])
    (use assms(3) in \<open>auto simp: no_number_def like_number_def like_letter_def is_alpha_def is_digit_def Let_def\<close>)

lemma reads_prefix:
  assumes L: "number_lib L" and op: "op = LNot \<or> op = INot" and at: "drop p code = sinop_str op @ s"
    and e: "reads L h code RCallExpr (Suc p) q e" and q: "follow k (drop q code)"
  shows "reads L h code RPreSinopExpr p q (SingleOp op b e)"
proof -
  have at1: "drop p code = (if op = LNot then CHR ''!'' else CHR ''~'') # s" using op at by auto
  have "stops L h code (NT RPostSinopExpr) p"
    by (rule stops_postfix, rule operator_no_expression [OF L at1]) auto
  then have post: "ex L h code (NT RPostSinopExpr) p v = Some (PFail v)" for v by (simp add: stops_def)
  have skip: "\<not> skippable (drop p code)" unfolding at1 by (auto simp: Let_def)
  from reads_postfix [OF e q] obtain t where t: "canon t = canon e"
    "\<And>v. ex L h code (NT RPostSinopExpr) (Suc p) v = Some (POk q (AExpr t) v)"
    by (auto elim: reads_run)
  show ?thesis
    using op at1 t
    by (intro reads_NT [where t = "set_where_r h (SingleOp op new_attribute t) (where_pos L p q, length code)"])
      (auto simp: pre_sinop_rule_def prefix_p_def exec_simps(5,6,14) post ex_lit [OF skip] run_action_def seq_attr_def
        seq_parts_def cong: run_congs)
qed

lemma reads_pass_assign:
  assumes e: "reads L h code RCondExpr p q e" and q: "follow 14 (drop q code)"
  shows "reads L h code RAssignExpr p q e"
proof -
  have skip: "\<not> skippable (drop q code)" by (rule follow_not_skippable [OF q])
  from e obtain t where t: "canon t = canon e" "\<And>v. ex L h code (NT RCondExpr) p v = Some (POk q (AExpr t) v)"
    by (auto elim: reads_run)
  then show ?thesis
    using follow_no_assign [OF q]
    by (intro reads_NT [where t = t])
      (simp_all add: assign_rule_def exec_simps(4,6,14) ex_lit [OF skip] run_action_def assign_def cong: run_congs)
qed

lemma reads_assign:
  assumes x: "reads L h code RCondExpr p q x" and at: "drop q code = CHR ''='' # c # s" and c: "starter c"
    and y: "reads L h code RAssignExpr (Suc q) z y"
  shows "reads L h code RAssignExpr p z (BinaryOp Assign b (set_lval x True) y)"
proof -
  have skip: "\<not> skippable (drop q code)" unfolding at by (simp add: Let_def)
  from x obtain t where t: "canon t = canon x" "\<And>v. ex L h code (NT RCondExpr) p v = Some (POk q (AExpr t) v)"
    by (auto elim: reads_run)
  from y obtain u where u: "canon u = canon y" "\<And>v. ex L h code (NT RAssignExpr) (Suc q) v = Some (POk z (AExpr u) v)"
    by (auto elim: reads_run)
  let ?tree = "\<lambda>wh. set_where_r h (BinaryOp Assign new_attribute (set_lval t True) u) wh"
  have "\<exists>a wh. \<forall>v. ex L h code (rule_of RAssignExpr) p v = Some (POk z a (?tree wh))"
    using t(2) u(2) at
    by (auto simp: assign_rule_def exec_simps(4,6,14) ex_lit [OF skip] run_action_def assign_def cong: run_congs)
  then obtain a wh where "\<And>v. ex L h code (rule_of RAssignExpr) p v = Some (POk z a (?tree wh))" by blast
  with t(1) u(1) show ?thesis
    by (intro reads_NT [where t = "?tree wh"]) (auto intro: canon_set_lval)
qed

lemma reads_start:
  assumes "reads L h code RRetExpr p q e"
  shows "reads L h code RExpression p q e"
proof -
  from assms obtain t where "canon t = canon e" "\<And>v. ex L h code (NT RRetExpr) p v = Some (POk q (AExpr t) v)"
    by (auto elim: reads_run)
  then show ?thesis
    by (intro reads_NT [where t = t]) (simp_all add: expression_rule_def exec_simps(14) run_action_def assign_def)
qed

lemma reads_expression:
  assumes "reads L h code RPipeExpr p q e"
  shows "reads L h code RExpression p q e"
proof (rule reads_start)
  from assms obtain t where "canon t = canon e" "\<And>v. ex L h code (NT RPipeExpr) p v = Some (POk q (AExpr t) v)"
    by (auto elim: reads_run)
  then show "reads L h code RRetExpr p q e"
    by (intro reads_NT [where t = t])
      (simp_all add: ret_rule_def exec_simps(6,14) run_action_def assign_def cong: run_congs)
qed

lemma reads_ret:
  assumes L: "number_lib L" and at: "drop p code = ''|>'' @ s" and e: "reads L h code RPipeExpr (p + 2) q e"
  shows "reads L h code RExpression p q (SingleOp Ret b e)"
proof (rule reads_start)
  have at1: "drop p code = CHR ''|'' # CHR ''>'' # s" using at by simp
  have skip: "\<not> skippable (drop p code)" unfolding at1 by (simp add: Let_def)
  have "stops L h code (NT RPipeExpr) p"
    by (rule stops_pipe [OF operator_no_expression [OF L at1] at1]) (simp_all add: Let_def)
  then have none: "ex L h code (NT RPipeExpr) p v = Some (PFail v)" for v by (simp add: stops_def)
  from e obtain t where "canon t = canon e" "\<And>v. ex L h code (NT RPipeExpr) (Suc (Suc p)) v = Some (POk q (AExpr t) v)"
    by (auto elim: reads_run)
  then show "reads L h code RRetExpr p q (SingleOp Ret b e)"
    using at1
    by (intro reads_NT [where t = "set_where_r h (SingleOp Ret new_attribute t) (where_pos L p q, length code)"])
      (simp_all add: ret_rule_def prefix_p_def exec_simps(5,6,14) none ex_lit [OF skip] run_action_def
        seq_attr_def seq_parts_def cong: run_congs)
qed

text \<open>A level that is passed through.\<close>

lemma reads_pass:
  assumes "reads L h code (rule_at j) p q e" and "j \<le> k" and "k \<le> 16" and "follow k (drop q code)"
  shows "reads L h code (rule_at k) p q e"
  using assms(2,3,4)
proof (induction k rule: dec_induct)
  case base
  show ?case by (rule assms(1))
next
  case (step i)
  have q: "follow (Suc i) (drop q code)" by (rule step.prems)
  have IH: "reads L h code (rule_at i) p q e"
    using step.IH step.prems(1) follow_mono [OF q] by simp
  have "Suc i \<in> loop_levels \<or> i = 1 \<or> i = 13 \<or> i = 15"
    using step.prems(1) unfolding loop_levels_def by simp presburger
  then consider "Suc i \<in> loop_levels" | "i = 1" | "i = 13" | "i = 15" by blast
  then show ?case
  proof cases
    case 1
    show ?thesis by (rule reads_pass_loop [OF _ 1 q]) (use IH in simp)
  next
    case 2
    with IH reads_pass_prefix [OF _ q] show ?thesis by (simp add: rule_at_def)
  next
    case 3
    with IH reads_pass_assign [of L h code p q e] q show ?thesis by (simp add: rule_at_def)
  next
    case 4
    with IH reads_expression show ?thesis by (simp add: rule_at_def)
  qed
qed

lemma rule_at_ends: "rule_at 0 = RAttrExpr" "rule_at 16 = RExpression"
  by (simp_all add: rule_at_def)

text \<open>Names at the beginning of a group are not taken for parameters.\<close>

lemma group_no_parameters:
  assumes at: "drop p code = CHR ''('' # s" and s: "group_text s"
  shows "stops L h code (NT RFunction) p" and "stops L h code (NT RShortFunction) p"
proof -
  have at1: "drop (Suc p) code = s" using drop_after [of p code "''(''"] at by simp
  have no_more: "ex L h code (comma_list RIdentifier) z v = Some (POk z (AVec []) v)"
    if "drop z code = c # u" "\<not> is_alpha c" "\<not> skippable (c # u)" for z c u v
    using stops_alternatives(10) [OF that(1,3) that(2), of L h] unfolding comma_list_def
    by (intro star_stops [where w = v]) (simp add: exec_simps(4) stops_def)
  have one: "\<exists>z c u. (\<forall>v. \<exists>a. ex L h code (comma_list RIdentifier) (Suc p) v = Some (POk z a v)) \<and>
      drop z code = c # u \<and> c \<noteq> CHR '')'' \<and> \<not> skippable (c # u)"
    if t: "\<And>v. ex L h code (NT RIdentifier) (Suc p) v = Some (POk z (AExpr t) v)" and at: "drop z code = c # u"
      and c: "\<not> name_char c" "c \<notin> set '')#,''" "\<not> skippable (c # u)" for z t c u
  proof -
    have "ex L h code (Opt (lit '','')) z v = Some (POk z (AOpt None) v)" for v
      using c at by (simp add: exec_simps(8) ex_lit)
    moreover have "ex L h code (comma_list RIdentifier) z v = Some (POk z (AVec []) v)" for v
      by (rule no_more [OF at _ c(3)]) (use c(1) in auto)
    ultimately have "\<exists>a. ex L h code (comma_list RIdentifier) (Suc p) v = Some (POk z a v)" for v
      using t unfolding comma_list_def by (subst exec_simps(7)) (simp add: exec_simps(4))
    then show ?thesis using at c(2,3) by (intro exI [of _ z] exI [of _ c] exI [of _ u]) auto
  qed
  have "\<exists>z c u. (\<forall>v. \<exists>a. ex L h code (comma_list RIdentifier) (Suc p) v = Some (POk z a v)) \<and>
      drop z code = c # u \<and> c \<noteq> CHR '')'' \<and> \<not> skippable (c # u)"
    using s
  proof (cases rule: group_text.cases)
    case (other c u)
    then show ?thesis using no_more [of "Suc p" c u] at1 by blast
  next
    case (declared x kvs u)
    from declared at1 have at2: "drop (Suc p) code = x @ attributes_text kvs @ CHR ''='' # u" by simp
    from declared_parameter [OF declared(2,3) this, of L h] obtain b where t: "\<And>v. ex L h code (NT RIdentifier) (Suc p) v =
      Some (POk (Suc p + length x + length (attributes_text kvs)) (AExpr (Identifier b x)) v)"
      by blast
    from drop_after [OF drop_after [OF at2]] show ?thesis
      by (rule one [OF t]) (simp_all add: is_alpha_def is_digit_def Let_def)
  next
    case (name x c u)
    let ?z = "Suc p + length x"
    from name at1 have at2: "drop (Suc p) code = x @ c # u" by simp
    have "ends_name (c # u)" "c # u = [] \<or> hd (c # u) \<noteq> CHR ''#''" using name by (auto simp: ends_name_def)
    from reads_parameter [OF name(2) at2 this(1) name(5) this(2)] obtain a where
      t: "\<And>v. ex L h code (NT RIdentifier) (Suc p) v = Some (POk ?z (AExpr (Identifier a x)) v)" by blast
    show ?thesis by (rule one [OF t drop_after [OF at2] name(3,4,5)])
  qed
  then obtain z c u where z: "\<And>v. \<exists>a. ex L h code (comma_list RIdentifier) (Suc p) v = Some (POk z a v)"
    "drop z code = c # u" "c \<noteq> CHR '')''" "\<not> skippable (c # u)" by blast
  from no_parameters [OF at z] show "stops L h code (NT RFunction) p" "stops L h code (NT RShortFunction) p" .
qed

text \<open>A text in parentheses is read at every level.\<close>

lemma reads_grouped:
  assumes L: "number_lib L" and at: "drop p code = ''('' @ s @ '')'' @ r" and s: "group_text (s @ '')'' @ r)"
    and e: "reads L h code (rule_at j) (Suc p) (Suc p + length s) e" and j: "j \<le> 16"
    and k: "k \<le> 16" "follow k r"
  shows "reads L h code (rule_at k) p (p + length (''('' @ s @ '')'')) e"
proof -
  have at0: "drop p code = CHR ''('' # s @ '')'' @ r" using at by simp
  have at1: "drop (Suc p) code = s @ CHR '')'' # r" using drop_after [of p code "''(''"] at by simp
  from drop_after [OF at1] have at2: "drop (Suc p + length s) code = CHR '')'' # r" .
  then have at3: "drop (Suc (Suc p + length s)) code = r" using drop_after [of "Suc p + length s" code "'')''"] by simp
  have "follow 16 (drop (Suc p + length s) code)" unfolding at2 by (rule follow.bracket) simp
  from reads_pass [OF e j _ this] have "reads L h code RExpression (Suc p) (Suc p + length s) e"
    by (simp add: rule_at_ends)
  from reads_group [OF L at0 group_no_parameters [OF at0 s] this at2]
  have "reads L h code RPrimary p (Suc (Suc p + length s)) e" .
  then have "reads L h code (rule_at 0) p (Suc (Suc p + length s)) e"
    unfolding rule_at_ends by (rule reads_atom [where k = k]) (simp only: at3 k)
  from reads_pass [OF this _ k(1)] k(2) at3 show ?thesis by simp
qed

section \<open>Every tree is read back\<close>

text \<open>
  A tree is read back at every level, and the loop of a level that the tree belongs to comes to its
  end, where it may go on.
\<close>

definition read_back :: "(nonterm, act) x3 \<Rightarrow> rangePathHolder \<Rightarrow> string \<Rightarrow> expr \<Rightarrow> bool" where
  "read_back L h code e \<longleftrightarrow>
     (\<forall>k p r. k \<le> 16 \<longrightarrow> drop p code = text_at k e @ r \<longrightarrow> follow k r \<longrightarrow>
        reads L h code (rule_at k) p (p + length (text_at k e)) (marked e)) \<and>
     (\<forall>k p r. k \<in> loop_levels \<longrightarrow> drop p code = text_at k e @ r \<longrightarrow> follow (k - 1) r \<longrightarrow>
        reaches L h code (rule_at k) (loop k) p (p + length (text_at k e)) (marked e))"

lemma read_back_reads:
  "read_back L h code e \<Longrightarrow> k \<le> 16 \<Longrightarrow> drop p code = text_at k e @ r \<Longrightarrow> follow k r \<Longrightarrow>
   reads L h code (rule_at k) p (p + length (text_at k e)) (marked e)"
  by (simp add: read_back_def)

lemma read_back_reaches:
  "read_back L h code e \<Longrightarrow> k \<in> loop_levels \<Longrightarrow> drop p code = text_at k e @ r \<Longrightarrow> follow (k - 1) r \<Longrightarrow>
   reaches L h code (rule_at k) (loop k) p (p + length (text_at k e)) (marked e)"
  by (simp add: read_back_def)

lemma loop_levels_le: "k \<in> loop_levels \<Longrightarrow> 0 < k \<and> k \<le> 15"
  by (auto simp: loop_levels_def)

lemma read_back_atom:
  assumes written: "\<And>k. text_at k e = s"
    and prim: "\<And>p r. drop p code = s @ r \<Longrightarrow> follow 0 r \<Longrightarrow> reads L h code RPrimary p (p + length s) (marked e)"
  shows "read_back L h code e"
proof -
  have reads: "reads L h code (rule_at k) p (p + length s) (marked e)"
    if "k \<le> 16" "drop p code = s @ r" "follow k r" for k p r
  proof -
    from prim [OF that(2) follow_mono [OF that(3)]] have "reads L h code RPrimary p (p + length s) (marked e)" by simp
    moreover have q: "follow k (drop (p + length s) code)" using drop_after [OF that(2)] that(3) by simp
    ultimately have "reads L h code (rule_at 0) p (p + length s) (marked e)"
      unfolding rule_at_ends by (rule reads_atom)
    from reads_pass [OF this _ that(1) q] show ?thesis by simp
  qed
  show ?thesis
    unfolding read_back_def written
    by (auto intro!: reads reaches_start [OF rule_with_loop] dest: loop_levels_le)
qed

lemma read_back_level:
  assumes L: "number_lib L" and e: "readable e" "level e = j" "0 < j" "j \<le> 16"
    and written: "\<And>k. text_at k e = grouped (k < j) s"
    and base: "\<And>p r. drop p code = s @ r \<Longrightarrow> follow j r \<Longrightarrow> reads L h code (rule_at j) p (p + length s) (marked e)"
    and reach: "\<And>p r. j \<in> loop_levels \<Longrightarrow> drop p code = s @ r \<Longrightarrow> follow (j - 1) r \<Longrightarrow>
      reaches L h code (rule_at j) (loop j) p (p + length s) (marked e)"
  shows "read_back L h code e"
proof -
  have reads: "reads L h code (rule_at k) p (p + length (text_at k e)) (marked e)"
    if "k \<le> 16" "drop p code = text_at k e @ r" "follow k r" for k p r
  proof (cases "k < j")
    case False
    with that have at: "drop p code = s @ r" "follow j r" by (auto simp: written grouped_def intro: follow_mono)
    have "follow k (drop (p + length s) code)" using drop_after [OF at(1)] that(3) by simp
    from reads_pass [OF base [OF at] _ that(1) this] False show ?thesis by (simp add: written grouped_def)
  next
    case True
    with that(2) have at: "drop p code = ''('' @ s @ '')'' @ r" by (simp add: written grouped_def)
    have "group_text (text_at 16 e @ '')'' @ r)" using e by (intro group_text_level) simp_all
    then have group: "group_text (s @ '')'' @ r)" using e(4) by (simp add: written grouped_def)
    have "drop (Suc p) code = s @ '')'' @ r" using drop_after [of p code "''(''"] at by simp
    then have "reads L h code (rule_at j) (Suc p) (Suc p + length s) (marked e)"
      by (rule base) (simp add: follow.bracket)
    from reads_grouped [OF L at group this e(4) that(1,3)] True show ?thesis by (simp add: written grouped_def)
  qed
  have "reaches L h code (rule_at k) (loop k) p (p + length (text_at k e)) (marked e)"
    if k: "k \<in> loop_levels" and at: "drop p code = text_at k e @ r" and r: "follow (k - 1) r" for k p r
  proof (cases "k = j")
    case True
    with reach at k r show ?thesis by (simp add: written grouped_def)
  next
    case False
    then have "k - 1 < j \<longleftrightarrow> k < j" using loop_levels_le [OF k] by arith
    then have same: "text_at (k - 1) e = text_at k e" by (simp only: written)
    have "reads L h code (rule_at (k - 1)) p (p + length (text_at k e)) (marked e)"
      using reads [of "k - 1" p r, unfolded same, OF _ at r] loop_levels_le [OF k] by auto
    then show ?thesis by (rule reaches_start [OF rule_with_loop [OF k]])
  qed
  with reads show ?thesis unfolding read_back_def by blast
qed

lemma read_back_loop:
  assumes "number_lib L" and "readable e" "level e = j" and j: "j \<in> loop_levels"
    and "\<And>k. text_at k e = grouped (k < j) s"
    and reach: "\<And>p r. drop p code = s @ r \<Longrightarrow> follow (j - 1) r \<Longrightarrow>
      reaches L h code (rule_at j) (loop j) p (p + length s) (marked e)"
  shows "read_back L h code e"
proof (rule read_back_level [OF assms(1-3)])
  fix p r
  assume at: "drop p code = s @ r" "follow j r"
  from follow_mono [OF at(2)] have "follow (j - 1) r" by simp
  from reaches_stop [OF reach [OF at(1) this] stops_loop [OF j]] drop_after [OF at(1)] at(2)
  show "reads L h code (rule_at j) p (p + length s) (marked e)" by simp
qed (use assms loop_levels_le [OF j] in auto)

lemma op_level_loop: "infix_op op \<Longrightarrow> op_level op \<in> loop_levels \<and> 3 \<le> op_level op \<and> op_level op \<le> 12"
  by (cases op) (auto simp: infix_op_def loop_levels_def)

lemma read_back_infix:
  assumes L: "number_lib L" and op: "infix_op op" and x: "readable x" "read_back L h code x"
    and y: "readable y" "read_back L h code y"
  shows "read_back L h code (BinaryOp op a x y)"
proof (rule read_back_loop [OF L])
  let ?j = "op_level op" let ?x = "text_at ?j x" let ?y = "text_at (?j - 1) y"
  show "readable (BinaryOp op a x y)" using op x(1) y(1) by (cases op) (auto simp: infix_op_def)
  show "?j \<in> loop_levels" using op_level_loop [OF op] by simp
  show "text_at k (BinaryOp op a x y) = grouped (k < ?j) (?x @ binop_str op @ ?y)" for k
    by (rule text_infix [OF op])
  fix p r
  assume at: "drop p code = (?x @ binop_str op @ ?y) @ r" and r: "follow (?j - 1) r"
  let ?q = "p + length ?x" let ?q' = "?q + length (binop_str op)"
  have j: "?j \<in> loop_levels" "3 \<le> ?j" "?j - 1 \<le> 15" using op_level_loop [OF op] by auto
  from starter_text [OF y(1) j(3)] obtain c s where c: "?y = c # s" "starter c" by blast
  have atx: "drop p code = ?x @ binop_str op @ c # s @ r" using at c(1) by simp
  from drop_after [OF atx] have atq: "drop ?q code = binop_str op @ c # s @ r" .
  have "follow (?j - 1) (binop_str op @ c # s @ r)" using op j(2) c(2) by (intro follow.opr) auto
  from read_back_reaches [OF x(2) j(1) atx this]
  have reach: "reaches L h code (rule_at ?j) (loop ?j) p ?q (marked x)" .
  have "drop ?q code = binop_str op @ ?y @ r" using atq c(1) by simp
  from read_back_reads [OF y(2) _ drop_after [OF this] r] j(3)
  have y': "reads L h code (rule_at (?j - 1)) ?q' (?q' + length ?y) (marked y)" by simp
  have "reaches L h code (rule_at ?j) (loop ?j) p (?q' + length ?y) (BinaryOp op a (marked x) (marked y))"
    by (rule reaches_step [OF reach]) (rule loop_infix [OF op atq c(2) y'])
  moreover have "marked (BinaryOp op a x y) = BinaryOp op a (marked x) (marked y)"
    using op by (cases op) (simp_all add: infix_op_def)
  ultimately show "reaches L h code (rule_at ?j) (loop ?j) p (p + length (?x @ binop_str op @ ?y)) (marked (BinaryOp op a x y))"
    by (simp add: add.assoc)
qed simp

lemma read_back_at:
  assumes L: "number_lib L" and x: "readable x" "read_back L h code x" and y: "readable y" "read_back L h code y"
  shows "read_back L h code (BinaryOp At a x y)"
proof (rule read_back_loop [OF L])
  let ?s = "text_at 1 x @ ''['' @ text_at 16 y @ '']''"
  show "text_at k (BinaryOp At a x y) = grouped (k < 1) ?s" for k by simp
  fix p r
  assume at: "drop p code = ?s @ r" and "follow (1 - 1) r"
  let ?q = "p + length (text_at 1 x)" let ?q' = "Suc ?q + length (text_at 16 y)"
  have atx: "drop p code = text_at 1 x @ CHR ''['' # text_at 16 y @ CHR '']'' # r" using at by simp
  from drop_after [OF atx] have atq: "drop ?q code = CHR ''['' # text_at 16 y @ CHR '']'' # r" .
  then have aty: "drop (Suc ?q) code = text_at 16 y @ CHR '']'' # r" using drop_after [of ?q code "''[''"] by simp
  from read_back_reaches [OF x(2) _ atx] have reach: "reaches L h code (rule_at 1) (loop 1) p ?q (marked x)"
    by (simp add: loop_levels_def follow.calls)
  from read_back_reads [OF y(2) _ aty] have y': "reads L h code RExpression (Suc ?q) ?q' (marked y)"
    by (simp add: follow.bracket rule_at_ends)
  have "reaches L h code (rule_at 1) (loop 1) p (Suc ?q') (BinaryOp At a (marked x) (marked y))"
    by (rule reaches_step [OF reach]) (rule loop_at [OF atq drop_after [OF aty] y'])
  then show "reaches L h code (rule_at 1) (loop 1) p (p + length ?s) (marked (BinaryOp At a x y))"
    by (simp add: add.assoc)
qed (use x y in \<open>simp_all add: loop_levels_def\<close>)

lemma read_back_call:
  assumes L: "number_lib L" and f: "readable f" "read_back L h code f" and b: "unmarked b"
    and xs: "\<forall>x \<in> set xs. readable x \<and> read_back L h code x"
  shows "read_back L h code (BinaryOp Call a f (ArgList b xs))"
proof (rule read_back_loop [OF L])
  let ?args = "commas (map (text_at 16) xs)" let ?s = "text_at 1 f @ ''('' @ ?args @ '')''"
  show "text_at k (BinaryOp Call a f (ArgList b xs)) = grouped (k < 1) ?s" for k by simp
  fix p r
  assume at: "drop p code = ?s @ r" and "follow (1 - 1) r"
  define q where "q = p + length (text_at 1 f)"
  define q' where "q' = Suc q + length ?args"
  have atf: "drop p code = text_at 1 f @ CHR ''('' # ?args @ CHR '')'' # r" using at by simp
  from drop_after [OF atf] have atq: "drop q code = CHR ''('' # ?args @ CHR '')'' # r" by (simp add: q_def)
  then have atx: "drop (Suc q) code = ?args @ CHR '')'' # r" using drop_after [of q code "''(''"] by simp
  from drop_after [OF atx] have ate: "drop q' code = CHR '')'' # r" by (simp add: q'_def)
  from read_back_reaches [OF f(2) _ atf] have reach: "reaches L h code (rule_at 1) (loop 1) p q (marked f)"
    by (simp add: loop_levels_def follow.calls q_def)
  have "reads L h code RExpression i (i + length (text_at 16 x)) (marked x)"
    if "x \<in> set xs" "drop i code = text_at 16 x @ c # s" "c = CHR '','' \<or> c = CHR '')''" for x i c s
  proof -
    have "follow 16 (c # s)" using that(3) by (intro follow.bracket) auto
    from read_back_reads [OF _ _ that(2) this] xs that(1) show ?thesis by (simp add: rule_at_ends)
  qed
  with reads_commas [OF _ _ atx, of L h RExpression marked] stops_expression [OF L] obtain ts where
    ts: "map canon ts = map (canon \<circ> marked) xs"
    "\<And>v. ex L h code (comma_list RExpression) (Suc q) v = Some (POk q' (AVec (map AExpr ts)) v)"
    unfolding q'_def by blast
  have skip: "\<not> skippable (drop q code)" "\<not> skippable (drop q' code)" unfolding atq ate by (simp_all add: Let_def)
  have "\<exists>t' c. canon t' = canon (marked (BinaryOp Call a f (ArgList b xs))) \<and> ex L h code (loop 1) q t = Some (POk (Suc q') c t')"
    if t: "canon t = canon (marked f)" for t
  proof -
    have "has_attr (comma_list RExpression)" by (simp add: comma_list_def)
    then have "\<exists>c wh. ex L h code (loop 1) q t = Some (POk (Suc q') c
        (set_where_r h (BinaryOp Call new_attribute (set_to_call t True) (ArgList new_attribute ts)) wh))"
      using atq ate ts(2)
      by (simp add: loop_rules(1) [simplified] exec_simps(5,6,14) ex_lit [OF skip(1)] ex_lit [OF skip(2)]
        run_action_def seq_attr_def seq_parts_def cong: run_congs) blast
    then show ?thesis using ts(1) canon_set_to_call [OF t] canon_unmarked [OF b] by force
  qed
  from reaches_step [OF reach this]
  show "reaches L h code (rule_at 1) (loop 1) p (p + length ?s) (marked (BinaryOp Call a f (ArgList b xs)))"
    by (simp add: q_def q'_def add.assoc)
qed (use f b xs in \<open>simp_all add: loop_levels_def list_all_iff\<close>)

lemma read_back_cond:
  assumes L: "number_lib L" and x: "readable x" "read_back L h code x" and y: "readable y" "read_back L h code y"
    and z: "readable z" "read_back L h code z"
  shows "read_back L h code (TernaryOp Cond a x y z)"
proof (rule read_back_loop [OF L])
  let ?s = "text_at 13 x @ ''?'' @ text_at 12 y @ '':'' @ text_at 12 z"
  show "text_at k (TernaryOp Cond a x y z) = grouped (k < 13) ?s" for k by simp
  fix p r
  assume at: "drop p code = ?s @ r" and r: "follow (13 - 1) r"
  let ?q = "p + length (text_at 13 x)" let ?q1 = "Suc ?q + length (text_at 12 y)"
  have atx: "drop p code = text_at 13 x @ CHR ''?'' # text_at 12 y @ CHR '':'' # text_at 12 z @ r" using at by simp
  from drop_after [OF atx] have atq: "drop ?q code = CHR ''?'' # text_at 12 y @ CHR '':'' # text_at 12 z @ r" .
  then have aty: "drop (Suc ?q) code = text_at 12 y @ CHR '':'' # text_at 12 z @ r"
    using drop_after [of ?q code "''?''"] by simp
  from drop_after [OF aty] have atq1: "drop ?q1 code = CHR '':'' # text_at 12 z @ r" .
  then have atz: "drop (Suc ?q1) code = text_at 12 z @ r" using drop_after [of ?q1 code "'':''"] by simp
  from read_back_reaches [OF x(2) _ atx] have reach: "reaches L h code (rule_at 13) (loop 13) p ?q (marked x)"
    by (simp add: loop_levels_def follow.quest)
  from read_back_reads [OF y(2) _ aty] have y': "reads L h code RLOrExpr (Suc ?q) ?q1 (marked y)"
    by (simp add: follow.bracket rule_at_def)
  from read_back_reads [OF z(2) _ atz] r have z': "reads L h code RLOrExpr (Suc ?q1) (Suc ?q1 + length (text_at 12 z)) (marked z)"
    by (simp add: rule_at_def)
  have "reaches L h code (rule_at 13) (loop 13) p (Suc ?q1 + length (text_at 12 z))
      (TernaryOp Cond a (marked x) (marked y) (marked z))"
    by (rule reaches_step [OF reach]) (rule loop_cond [OF atq atq1 y' z'])
  then show "reaches L h code (rule_at 13) (loop 13) p (p + length ?s) (marked (TernaryOp Cond a x y z))"
    by (simp add: add.assoc)
qed (use x y z in \<open>simp_all add: loop_levels_def\<close>)

lemma read_back_target:
  assumes L: "number_lib L" and e: "readable (BinaryOp Assign a x y)" and y: "readable y" "read_back L h code y"
    and target: "\<And>p c s. drop p code = text_at 13 x @ CHR ''='' # c # s \<Longrightarrow> starter c \<Longrightarrow>
      reads L h code RCondExpr p (p + length (text_at 13 x)) (marked x)"
  shows "read_back L h code (BinaryOp Assign a x y)"
proof (rule read_back_level [OF L e])
  let ?s = "text_at 13 x @ ''='' @ text_at 14 y"
  show "text_at k (BinaryOp Assign a x y) = grouped (k < 14) ?s" for k by simp
  fix p r
  assume at: "drop p code = ?s @ r" and r: "follow 14 r"
  let ?q = "p + length (text_at 13 x)"
  from starter_text [OF y(1), of 14] obtain c s where c: "text_at 14 y = c # s" "starter c" by auto
  have atx: "drop p code = text_at 13 x @ CHR ''='' # c # s @ r" using at c(1) by simp
  from drop_after [OF atx] have atq: "drop ?q code = CHR ''='' # c # s @ r" .
  then have aty: "drop (Suc ?q) code = text_at 14 y @ r" using drop_after [of ?q code "''=''"] c(1) by simp
  from read_back_reads [OF y(2) _ aty r]
  have y': "reads L h code RAssignExpr (Suc ?q) (Suc ?q + length (text_at 14 y)) (marked y)" by (simp add: rule_at_def)
  from reads_assign [OF target [OF atx c(2)] atq c(2) y', of a]
  show "reads L h code (rule_at 14) p (p + length ?s) (marked (BinaryOp Assign a x y))"
    by (simp add: rule_at_def add.assoc)
qed (simp_all add: loop_levels_def)

lemma follow_equals: "starter c \<Longrightarrow> k < 14 \<Longrightarrow> follow k (CHR ''='' # c # s)"
  using follow.opr [of Assign k c s] by simp

lemma read_back_assign:
  assumes L: "number_lib L" and x: "readable x" "read_back L h code x" and y: "readable y" "read_back L h code y"
  shows "read_back L h code (BinaryOp Assign a x y)"
proof (rule read_back_target [OF L _ y])
  fix p c s
  assume at: "drop p code = text_at 13 x @ CHR ''='' # c # s" and c: "starter c"
  from read_back_reads [OF x(2) _ at follow_equals [OF c]] show "reads L h code RCondExpr p (p + length (text_at 13 x)) (marked x)"
    by (simp add: rule_at_def)
qed (use x y in simp)

text \<open>A name and what is read as its attributes.\<close>

lemma reads_named:
  assumes L: "number_lib L" and name: "variable_text x" and at: "drop p code = x @ c # s" and c: "c = CHR ''#'' \<or> c = CHR ''=''"
    and attrs: "\<And>t. \<exists>bs. ex L h code attributes_p (p + length x) t = Some (POk z (AVec bs) (f t))"
    and f: "\<And>a. attributes a = [] \<Longrightarrow> f (Variable a x) = Variable (a\<lparr>attributes := kvs\<rparr>) x"
  shows "reads L h code RAttrExpr p z (Variable (new_attribute\<lparr>attributes := kvs\<rparr>) x)"
proof -
  let ?q = "p + length x"
  from drop_after [OF at] have atq: "drop ?q code = c # s" .
  have skip: "\<not> skippable (drop ?q code)" unfolding atq using c by (auto simp: Let_def)
  have dots: "stops L h code (lit ''.'') ?q" "stops L h code (lit ''.:'') ?q" "stops L h code (lit ''.='') ?q"
    by (rule stops_lit [OF skip]; use c atq in auto)+
  have ends: "ends_name (c # s)" using c by (auto simp: ends_name_def is_alpha_def is_digit_def Let_def)
  have "reads L h code RDotExpr p ?q (Variable new_attribute x)"
    by (rule reads_next [OF _ reads_variable [OF L name at ends]], simp only: rule_of.simps dot_rule_def)
      (simp add: infix_p_def stops_rules dots)
  then obtain t where t: "canon t = canon (Variable new_attribute x)"
    "\<And>v. ex L h code (NT RDotExpr) p v = Some (POk ?q (AExpr t) v)" by (auto elim: reads_run)
  from t(1) obtain a where a: "t = Variable a x" "canon_attr a = new_attribute" by (cases t) auto
  then have plain: "attributes a = []" "\<not> lval a" "\<not> to_call a" by (auto simp: canon_attr_def new_attribute_def)
  from attrs [of t] obtain bs where "ex L h code attributes_p ?q t = Some (POk z (AVec bs) (f t))" ..
  with ex_assign [OF t(2)] show ?thesis
    by (intro reads_NT [where t = "f t"])
      (use plain in \<open>simp_all add: a(1) f attr_rule_def exec_simps(4) canon_attr_def new_attribute_def\<close>)
qed

lemma reads_declared:
  assumes L: "number_lib L" and x: "declarable (Variable b x)" and at: "drop p code = text_at k (Variable b x) @ CHR ''='' # s"
  shows "reads L h code RAttrExpr p (p + length (text_at k (Variable b x))) (Variable b x)"
proof -
  let ?kvs = "attributes b"
  from x have wf: "sm_wf ?kvs" "list_all attribute_ok ?kvs" and name: "variable_text x" by simp_all
  obtain c u where c: "attributes_text ?kvs @ CHR ''='' # s = c # u" "c = CHR ''#'' \<or> c = CHR ''=''" by (cases ?kvs) auto
  from at c(1) have at0: "drop p code = x @ c # u" by simp
  from drop_after [OF this] have atq: "drop (p + length x) code = attributes_text ?kvs @ CHR ''='' # s" using c(1) by simp
  have "reads L h code RAttrExpr p (p + length x + length (attributes_text ?kvs)) (Variable (new_attribute\<lparr>attributes := ?kvs\<rparr>) x)"
    by (rule reads_named [OF L name at0 c(2) attributes_read [OF wf(2) atq] attributes_set [OF wf(1)]])
  moreover have "canon (Variable (new_attribute\<lparr>attributes := ?kvs\<rparr>) x) = canon (Variable b x)"
    using x by (simp add: canon_attr_def new_attribute_def)
  ultimately show ?thesis by (simp add: reads_def add.assoc)
qed

lemma read_back_declare:
  assumes L: "number_lib L" and x: "declarable (Variable b x)" and y: "readable y" "read_back L h code y"
  shows "read_back L h code (BinaryOp Assign a (Variable b x) y)"
proof (rule read_back_target [OF L _ y])
  fix p c s
  assume at: "drop p code = text_at 13 (Variable b x) @ CHR ''='' # c # s" and c: "starter c"
  have "follow 13 (drop (p + length (text_at 13 (Variable b x))) code)"
    unfolding drop_after [OF at] by (rule follow_equals [OF c]) simp
  from reads_pass [OF reads_declared [OF L x at, folded rule_at_ends(1)] _ _ this]
  show "reads L h code RCondExpr p (p + length (text_at 13 (Variable b x))) (marked (Variable b x))"
    by (simp add: rule_at_def)
qed (use x y in simp)

lemma read_back_prefix:
  assumes L: "number_lib L" and op: "op = LNot \<or> op = INot" and x: "readable x" "read_back L h code x"
  shows "read_back L h code (SingleOp op a x)"
proof (rule read_back_level [OF L])
  let ?s = "sinop_str op @ text_at 1 x"
  show "text_at k (SingleOp op a x) = grouped (k < 2) ?s" for k using op by auto
  fix p r
  assume at: "drop p code = ?s @ r" and r: "follow 2 r"
  have len: "length (sinop_str op) = 1" using op by auto
  have at0: "drop p code = sinop_str op @ text_at 1 x @ r" using at by simp
  have at1: "drop (Suc p) code = text_at 1 x @ r" using drop_after [OF at0] len by simp
  from read_back_reads [OF x(2) _ at1] follow_mono [OF r]
  have "reads L h code RCallExpr (Suc p) (Suc p + length (text_at 1 x)) (marked x)" by (simp add: rule_at_def)
  from reads_prefix [OF L op at0 this] drop_after [OF at1] r
  have "reads L h code RPreSinopExpr p (Suc p + length (text_at 1 x)) (SingleOp op a (marked x))" by simp
  then show "reads L h code (rule_at 2) p (p + length ?s) (marked (SingleOp op a x))"
    using len by (simp add: rule_at_def)
qed (use op x in \<open>auto simp: loop_levels_def\<close>)

lemma read_back_ret:
  assumes L: "number_lib L" and x: "readable x" "read_back L h code x"
  shows "read_back L h code (SingleOp Ret a x)"
proof (rule read_back_level [OF L])
  let ?s = "''|>'' @ text_at 15 x"
  show "text_at k (SingleOp Ret a x) = grouped (k < 16) ?s" for k by simp
  fix p r
  assume at: "drop p code = ?s @ r" and r: "follow 16 r"
  have at0: "drop p code = ''|>'' @ text_at 15 x @ r" using at by simp
  from drop_after [OF at0] have at1: "drop (p + 2) code = text_at 15 x @ r" by simp
  from read_back_reads [OF x(2) _ at1] follow_mono [OF r]
  have "reads L h code RPipeExpr (p + 2) (p + 2 + length (text_at 15 x)) (marked x)" by (simp add: rule_at_def)
  from reads_ret [OF L at0 this, of a]
  show "reads L h code (rule_at 16) p (p + length ?s) (marked (SingleOp Ret a x))"
    by (simp add: rule_at_def)
qed (use x in \<open>auto simp: loop_levels_def\<close>)

lemma follow_ends: "follow k r \<Longrightarrow> ends_name r \<and> ends_number r"
proof (induction rule: follow.induct)
  case (opr op k c s)
  then show ?case by (cases op) (auto simp: infix_op_def ends_name_def ends_number_def is_alpha_def is_digit_def Let_def)
qed (auto simp: ends_name_def ends_number_def is_alpha_def is_digit_def Let_def)

lemma read_back_integer:
  assumes L: "number_lib L" and a: "unmarked a"
  shows "read_back L h code (Integer a n)"
proof (rule read_back_atom)
  show "text_at k (Integer a n) = grouped (sint n < 0) (int_string n)" for k by simp
  fix p r
  assume at: "drop p code = grouped (sint n < 0) (int_string n) @ r" and r: "follow 0 r"
  have same: "canon (Integer new_attribute n) = canon (marked (Integer a n))" using canon_unmarked [OF a] by simp
  have int: "reads L h code RPrimary q (q + length (int_string n)) (marked (Integer a n))"
    if "drop q code = int_string n @ u" "ends_number u" for q u
    using reads_integer [OF L that, of h] same by (simp add: reads_def)
  show "reads L h code RPrimary p (p + length (grouped (sint n < 0) (int_string n))) (marked (Integer a n))"
  proof (cases "sint n < 0")
    case False
    with int [of p r] at follow_ends [OF r] show ?thesis by (simp add: grouped_def)
  next
    case True
    let ?q = "Suc p + length (int_string n)"
    have at0: "drop p code = CHR ''('' # int_string n @ CHR '')'' # r" using at True by (simp add: grouped_def)
    then have at1: "drop (Suc p) code = int_string n @ CHR '')'' # r" using drop_after [of p code "''(''"] by simp
    from drop_after [OF at1] have at2: "drop ?q code = CHR '')'' # r" .
    have "group_text (int_string n @ CHR '')'' # r)"
      using True by (auto simp: int_string_def is_alpha_def Let_def intro!: group_text.other)
    note fn = group_no_parameters [OF at0 this]
    have "reads L h code RPrimary (Suc p) ?q (marked (Integer a n))"
      by (rule int [OF at1]) (simp add: ends_number_def is_digit_def)
    moreover have follows: "follow k (drop ?q code)" for k unfolding at2 by (rule follow.bracket) simp
    ultimately have "reads L h code (rule_at 0) (Suc p) ?q (marked (Integer a n))"
      unfolding rule_at_ends by (rule reads_atom)
    from reads_pass [OF this _ _ follows, of 16] have "reads L h code RExpression (Suc p) ?q (marked (Integer a n))"
      by (simp add: rule_at_ends)
    from reads_group [OF L at0 fn this at2] True show ?thesis by (simp add: grouped_def)
  qed
qed

lemma reads_canon: "reads L h code n p q e \<Longrightarrow> canon e = canon e' \<Longrightarrow> reads L h code n p q e'"
  by (simp add: reads_def)

lemma readable_read_back:
  assumes L: "number_lib L" and "readable e"
  shows "read_back L h code e"
  using assms(2)
proof (induction rule: readable_induct)
  case (Boolean a b)
  show ?case
  proof (rule read_back_atom)
    show "text_at k (Boolean a b) = (if b then ''true'' else ''false'')" for k by simp
    fix p r
    assume "drop p code = (if b then ''true'' else ''false'') @ r"
    from reads_boolean [OF L this, of h] canon_unmarked [OF Boolean]
    show "reads L h code RPrimary p (p + length (if b then ''true'' else ''false'')) (marked (Boolean a b))"
      by (elim reads_canon) simp
  qed
next
  case (String a s)
  show ?case
  proof (rule read_back_atom)
    show "text_at k (String a s) = literal quote_char True s" for k by simp
    fix p r
    assume "drop p code = literal quote_char True s @ r"
    from reads_string [OF L String(2) this, of h] canon_unmarked [OF String(1)]
    show "reads L h code RPrimary p (p + length (literal quote_char True s)) (marked (String a s))"
      by (elim reads_canon) simp
  qed
next
  case (Variable a x)
  show ?case
  proof (rule read_back_atom)
    show "text_at k (Variable a x) = x" for k using Variable(1) by (simp add: unmarked_def)
    fix p r
    assume "drop p code = x @ r" "follow 0 r"
    with reads_variable [OF L Variable(2), of p code r h] follow_ends canon_unmarked [OF Variable(1)]
    show "reads L h code RPrimary p (p + length x) (marked (Variable a x))"
      by (auto elim: reads_canon)
  qed
next
  case (Function a ps ls)
  let ?s = "''('' @ commas (map snd ps) @ ''){'' @ lines_text (text_at 16) ls @ ''}''"
  show ?case
  proof (rule read_back_atom)
    show "text_at k (Function a ps ls) = ?s" for k by simp
    fix p r
    assume at: "drop p code = ?s @ r"
    have "\<forall>x \<in> set ls. \<forall>p s. drop p code = text_at 16 x @ CHR '';'' # s \<longrightarrow>
        reads L h code RExpression p (p + length (text_at 16 x)) (marked x)"
      using Function(3) read_back_reads [where k = 16 and L = L and h = h and code = code]
      by (auto simp: rule_at_ends follow.bracket)
    from reads_function [OF L Function(1,2) _ this] at
    show "reads L h code RPrimary p (p + length ?s) (marked (Function a ps ls))" by simp
  qed
next
  case (Scope a ls)
  let ?s = "''{'' @ lines_text (text_at 16) ls @ ''}''"
  show ?case
  proof (rule read_back_atom)
    show "text_at k (Scope a ls) = ?s" for k by simp
    fix p r
    assume at: "drop p code = ?s @ r"
    have "\<forall>x \<in> set ls. \<forall>p s. drop p code = text_at 16 x @ CHR '';'' # s \<longrightarrow>
        reads L h code RExpression p (p + length (text_at 16 x)) (marked x)"
      using Scope(2) read_back_reads [where k = 16 and L = L and h = h and code = code]
      by (auto simp: rule_at_ends follow.bracket)
    from reads_scope [OF L Scope(1) _ this] at
    show "reads L h code RPrimary p (p + length ?s) (marked (Scope a ls))" by simp
  qed
qed (simp_all add: L read_back_integer read_back_ret read_back_prefix read_back_call read_back_at read_back_declare read_back_assign
    read_back_infix read_back_cond)

end
