(* ===== verification/Source_Parsed.thy ===== *)
theory Source_Parsed
  imports Parser_Roundtrip
begin

text \<open>
  The round trip of \<open>parser::parse\<close>: it gives back the tree whose text it is called with. A library
  with signed numbers, for which the hypotheses on X3 hold, runs it on a concrete text.
\<close>

section \<open>Trees with the same canonical form\<close>

lemma is_nan_canon [simp]: "is_nan (double_canon d) = is_nan d"
proof -
  have "take_bit 52 d = take_bit 52 (take_bit 63 d)" by simp
  then have "take_bit 63 d = 0 \<Longrightarrow> take_bit 52 d = 0" by simp
  then have "is_zero d \<Longrightarrow> \<not> is_nan d" by (auto simp: is_zero_def is_nan_def double_mantissa_def)
  then show ?thesis by (simp add: double_canon_def)
qed

lemma no_nan_canon: "no_nan (canon e) = no_nan e"
  by (induction e) (auto simp: list_all_iff)

lemma canon_no_nan: "canon t = canon e \<Longrightarrow> no_nan t = no_nan e"
  by (metis no_nan_canon)

lemma no_nan_setter [simp]: "no_nan (setter_visitor f e) = no_nan e"
  by (cases e) auto

lemma readable_no_nan: "readable e \<Longrightarrow> no_nan (marked e)"
  by (induction rule: readable_induct) (auto simp: list_all_iff set_lval_def set_to_call_def)

section \<open>A library with signed numbers\<close>

definition signed_int :: "string \<Rightarrow> (int32 \<times> nat) option" where
  "signed_int s =
     (case s of
        c # r \<Rightarrow> if c = CHR ''-'' then map_option (\<lambda>(n, k). (- n, Suc k)) (demo_int r) else demo_int s
      | [] \<Rightarrow> None)"

definition signed_lib :: "(nonterm, act) x3" where
  "signed_lib = demo_lib\<lparr>int_p := signed_int\<rparr>"

lemma demo_int_digits:
  assumes "ends_number r"
  shows "demo_int (nat_string n @ r) = Some (of_nat n, length (nat_string n))"
proof -
  have "takeWhile is_digit (nat_string n @ r) = nat_string n"
    using digits_nat_string [of n] assms
    by (cases r) (auto simp: takeWhile_append ends_number_def list_all_iff)
  with digits_nat_string [of n] show ?thesis by (simp add: demo_int_def)
qed

lemma signed_int_unsigned: "s \<noteq> [] \<Longrightarrow> hd s \<noteq> CHR ''-'' \<Longrightarrow> signed_int (s @ r) = demo_int (s @ r)"
  by (cases s) (simp_all add: signed_int_def)

lemma signed_int_reads:
  assumes "ends_number r"
  shows "signed_int (int_string n @ r) = Some (n, length (int_string n))"
proof (cases "0 \<le> sint n")
  case True
  let ?s = "nat_string (nat (sint n))"
  have "?s \<noteq> []" and "is_digit (hd ?s)"
    using digits_nat_string [of "nat (sint n)"] by (simp_all add: list.pred_set)
  then have "signed_int (?s @ r) = demo_int (?s @ r)"
    by (intro signed_int_unsigned) (auto simp: is_digit_def)
  moreover have "(of_nat (nat (sint n)) :: int32) = n" using True by (simp add: of_nat_nat)
  ultimately show ?thesis using True by (simp add: int_string_def demo_int_digits [OF assms])
next
  case False
  then have "(of_nat (nat (- sint n)) :: int32) = - n" by (simp add: of_nat_nat)
  with False show ?thesis by (simp add: int_string_def signed_int_def demo_int_digits [OF assms])
qed

lemma signed_int_none: "no_number s \<Longrightarrow> signed_int s = None"
  by (cases s) (auto simp: no_number_def signed_int_def demo_int_def)

lemma signed_lib_numbers: "number_lib signed_lib"
  by (auto simp: number_lib_def signed_lib_def demo_lib_def signed_int_reads signed_int_none demo_bool_def like_bool_def
      numeral_eq_Suc)

section \<open>The round trip\<close>

text \<open>A text that the start rule reads to its end is parsed.\<close>

lemma parse_read:
  assumes E: "x3_conforms E" and read: "\<And>h. reads L h code RExpression 0 (length code) e"
  obtains t where "parse E L holder code err path = Some (Tree t, err, holder)" and "canon t = canon e"
proof -
  let ?h = "\<lparr>current_text = code, current_range = (0, length code), current_path = path\<rparr>"
  from read [of ?h] obtain t where t: "canon t = canon e"
    "ex L ?h code (NT RExpression) 0 default_expr = Some (POk (length code) (AExpr t) default_expr)" by (auto elim: reads_run)
  have "ex L ?h code PreSkip (length code) v = Some (POk (length code) AUnused v)" for v
    by (rule exec_no_skip) simp
  with t(2) have "phrase_parse E (grammar_x3 L ?h code) = Some (PhOk t (length code))"
    unfolding phrase_parse_def post_skip_def conforming_engine [OF E] by simp
  with t(1) show thesis by (intro that [of t]) (simp_all add: parse_defs)
qed

lemma parse_source:
  assumes "x3_conforms E" and "number_lib L" and "readable e"
  obtains t where "parse E L holder (source e) err path = Some (Tree t, err, holder)"
    and "canon t = canon (marked e)"
proof (rule parse_read [OF assms(1)])
  show "reads L h (source e) RExpression 0 (length (source e)) (marked e)" for h
    using read_back_reads [OF readable_read_back [OF assms(2,3)], of 16 0 "source e" "[]" h]
    by (simp add: rule_at_ends follow.nil)
qed (rule that)

text \<open>
  C2. Parsing undoes writing. For every tree of numbers, truth values, strings, variables, functions,
  scopes, calls, indices, assignments to expressions and to variables with attributes, conditionals,
  returns and all prefix and infix operators, the parser reads the text of the tree, with parentheses
  only where the precedence and the grouping to the left ask for them, back to that tree, with its marks
  for assigned and called operands.
\<close>

theorem source_parsed:
  assumes "x3_conforms E" and "number_lib L" and "readable e"
  shows "\<exists>t. parse E L holder (source e) err path = Some (Tree t, err, holder) \<and> expr_eq t (marked e)"
proof -
  from parse_source [OF assms] obtain t where "parse E L holder (source e) err path = Some (Tree t, err, holder)"
    and "canon t = canon (marked e)" .
  with readable_no_nan [OF assms(3)] canon_no_nan [of t "marked e"] show ?thesis by (auto simp: expr_eq_canon)
qed

definition sample :: expr where
  "sample =
     (let num = Integer new_attribute; var = Variable new_attribute; bin = (\<lambda>op. BinaryOp op new_attribute)
      in bin Assign (Variable (new_attribute\<lparr>attributes := [(''mut'', [])]\<rparr>) ''x'')
           (bin Sub (bin Mul (bin Add (var ''a'') (num 1)) (num (- 2))) (bin Sub (num 3) (var ''b''))))"

lemma sample_digits: "digit_char 1 = CHR ''1''" "digit_char 2 = CHR ''2''" "digit_char 3 = CHR ''3''"
  unfolding digit_char_def by code_simp+

lemma sample_source: "source sample = ''x#mut=(a+1)*(-2)-(3-b)''"
  by (simp add: sample_def Let_def new_attribute_def grouped_def int_string_def nat_string.simps sample_digits [simplified])

theorem source_parsed_witness:
  "\<exists>t. parse x3_exec signed_lib new_holder ''x#mut=(a+1)*(-2)-(3-b)'' no_error None = Some (Tree t, no_error, new_holder) \<and>
     expr_eq t (marked sample)"
proof -
  have "readable sample"
    by (simp add: sample_def Let_def unmarked_def new_attribute_def infix_op_def variable_text_def like_number_def
        like_letter_def like_bool_def attribute_ok_def is_alpha_def)
  from source_parsed [OF x3_exec_conforms signed_lib_numbers this] show ?thesis by (metis sample_source)
qed

end
