(* ===== verification/Parser_Limits.thy ===== *)
theory Parser_Limits
  imports Source_Parsed
begin

text \<open>
  Texts that the grammar does not read as the documents and the shape of the text suggest: an
  attribute after an attribute without a value, conditionals in sequence, and a name in parentheses.
\<close>

section \<open>Attributes of attributes\<close>

lemma key_swallows:
  assumes k: "identifier_text k" and j: "identifier_text j" and at: "drop p code = ''#'' @ k @ ''#'' @ j @ CHR ''='' # s"
  shows "\<exists>bs. ex L h code attributes_p p v = Some (POk (p + length (''#'' @ k @ ''#'' @ j)) (AVec bs) (set_attr v k []))"
proof -
  let ?z = "Suc (p + length k) + length (attributes_text [(j, [])])"
  have ok: "list_all attribute_ok [(j, [])]" using j by (simp add: attribute_ok_def)
  have at1: "drop (Suc p) code = k @ attributes_text [(j, [])] @ CHR ''='' # s"
    using drop_after [of p code "''#''"] at by simp
  from declared_parameter [OF k ok at1, of L h] obtain b where
    key: "\<And>v. ex L h code (NT RIdentifier) (Suc p) v = Some (POk ?z (AExpr (Identifier b k)) v)" by auto
  from drop_after [OF drop_after [OF at1]] have at2: "drop ?z code = CHR ''='' # s" by simp
  have skip: "\<not> skippable (drop p code)" "\<not> skippable (drop ?z code)" using at at2 by (simp_all add: Let_def)
  let ?one = "Act (Seq (Seq (lit ''#'') (NT RIdentifier)) (Opt (Expect (lit '':'') (NT RAttributeVal)))) SetAttr"
  have colon: "ex L h code (lit '':'') ?z v = Some (PFail v)" for v
    unfolding ex_lit [OF skip(2)] using at2 by simp
  have "\<exists>a. ex L h code ?one p v = Some (POk ?z a (set_attr v k []))"
    using at key colon
    by (simp add: exec_simps(4,5,8,14) ex_lit [OF skip(1)] run_action_def assign_attr_def seq_attr_def seq_parts_def)
  then obtain a where one: "ex L h code ?one p v = Some (POk ?z a (set_attr v k []))" ..
  have "ex L h code (lit ''#'') ?z w = Some (PFail w)" for w
    unfolding ex_lit [OF skip(2)] using at2 by simp
  then have "ex L h code attributes_p ?z w = Some (POk ?z (AVec []) w)" for w
    unfolding attributes_p_def by (intro star_stops) (simp add: exec_simps(4,14))
  with one show ?thesis
    unfolding attributes_p_def by (subst exec_simps(7)) simp
qed

text \<open>A text that is an assignment to what is read up to \<open>z\<close>.\<close>

lemma parse_assignment:
  assumes E: "x3_conforms E" and L: "number_lib L" and e: "readable e" and code: "code = s @ ''='' @ text_at 14 e"
    and target: "\<And>h. reads L h code RAttrExpr 0 (length s) x" and x: "no_nan x"
  shows "\<exists>t. parse E L holder code err path = Some (Tree t, err, holder) \<and>
    expr_eq t (BinaryOp Assign new_attribute (set_lval x True) (marked e))"
proof -
  let ?e = "BinaryOp Assign new_attribute (set_lval x True) (marked e)"
  from starter_text [OF e, of 14] obtain c u where c: "text_at 14 e = c # u" "starter c" by auto
  have atz: "drop (length s) code = CHR ''='' # c # u" by (simp add: code c(1))
  have aty: "drop (Suc (length s)) code = text_at 14 e @ []" by (simp add: code)
  have len: "Suc (length s) + length (text_at 14 e) = length code" by (simp add: code)
  have "reads L h code RExpression 0 (length code) ?e" for h
  proof -
    have "follow 13 (drop (length s) code)" unfolding atz by (rule follow_equals [OF c(2)]) simp
    from reads_pass [OF target [of h, folded rule_at_ends(1)] _ _ this]
    have x: "reads L h code RCondExpr 0 (length s) x" by (simp add: rule_at_def)
    from read_back_reads [OF readable_read_back [OF L e] _ aty follow.nil, of h]
    have "reads L h code RAssignExpr (Suc (length s)) (length code) (marked e)" by (simp add: rule_at_def len [simplified])
    from reads_assign [OF x atz c(2) this, of new_attribute]
    have "reads L h code (rule_at 14) 0 (length code) ?e" by (simp add: rule_at_def)
    from reads_pass [OF this, of 16] show ?thesis by (simp add: rule_at_ends follow.nil)
  qed
  from parse_read [OF E this] obtain t where t: "parse E L holder code err path = Some (Tree t, err, holder)"
    "canon t = canon ?e" .
  with x readable_no_nan [OF e] canon_no_nan [OF t(2)] show ?thesis by (auto simp: expr_eq_canon set_lval_def)
qed

text \<open>
  C29. An attribute that follows an attribute without a value is lost. In an assignment to \<open>x#k#j\<close>
  the name \<open>j\<close> is taken for an attribute of the key \<open>k\<close> and dropped with it: the text is parsed
  without an error to the assignment to a variable that has the attribute \<open>k\<close> only.
\<close>

theorem second_attribute_lost:
  assumes "x3_conforms E" and "number_lib L"
    and "variable_text x" and "identifier_text k" and "identifier_text j" and "readable e"
  shows "\<exists>t. parse E L holder (x @ ''#'' @ k @ ''#'' @ j @ ''='' @ text_at 14 e) err path = Some (Tree t, err, holder) \<and>
    expr_eq t (marked (BinaryOp Assign new_attribute (Variable (new_attribute\<lparr>attributes := [(k, [])]\<rparr>) x) e))"
proof -
  let ?keys = "''#'' @ k @ ''#'' @ j" let ?code = "x @ ?keys @ ''='' @ text_at 14 e"
  have at: "drop 0 ?code = x @ CHR ''#'' # k @ ''#'' @ j @ ''='' @ text_at 14 e" by simp
  from drop_after [OF this] have atq: "drop (0 + length x) ?code = ''#'' @ k @ ''#'' @ j @ CHR ''='' # text_at 14 e" by simp
  have "reads L h ?code RAttrExpr 0 (0 + length x + length ?keys) (Variable (new_attribute\<lparr>attributes := [(k, [])]\<rparr>) x)" for h
    by (rule reads_named [OF assms(2,3) at _ key_swallows [OF assms(4,5) atq]]) (simp_all add: set_attr_def)
  then have "reads L h ?code RAttrExpr 0 (length (x @ ?keys)) (Variable (new_attribute\<lparr>attributes := [(k, [])]\<rparr>) x)" for h
    by (simp add: add.assoc)
  from parse_assignment [OF assms(1,2,6) _ this] show ?thesis by simp
qed

theorem second_attribute_lost_witness:
  "\<exists>t. parse x3_exec signed_lib new_holder ''x#mut#heap=1'' no_error None = Some (Tree t, no_error, new_holder) \<and>
    expr_eq t (BinaryOp Assign new_attribute
      (Variable (new_attribute\<lparr>attributes := [(''mut'', [])], lval := True\<rparr>) ''x'') (Integer new_attribute 1))"
proof -
  have "variable_text ''x''"
    by (simp add: variable_text_def like_number_def like_letter_def like_bool_def is_alpha_def)
  moreover have "identifier_text ''mut''" "identifier_text ''heap''" "readable (Integer new_attribute 1)"
    by (simp_all add: is_alpha_def unmarked_def new_attribute_def)
  ultimately show ?thesis
    using second_attribute_lost [OF x3_exec_conforms signed_lib_numbers, of "''x''" "''mut''" "''heap''"
      "Integer new_attribute 1" new_holder no_error None]
    by (simp add: grouped_def int_string_def nat_string.simps sample_digits [simplified] set_lval_def)
qed

section \<open>Conditionals in sequence\<close>

text \<open>
  Conditionals group to the left, whereas \<open>docs/Operator.md\<close> has them group to the right.
\<close>

lemma conditionals_group_left:
  assumes "x3_conforms E" and "number_lib L" and "readable a" "readable b" "readable c" "readable d" "readable e"
  shows "\<exists>t. parse E L holder (text_at 13 a @ ''?'' @ text_at 12 b @ '':'' @ text_at 12 c @ ''?'' @ text_at 12 d @ '':'' @
      text_at 12 e) err path = Some (Tree t, err, holder) \<and>
    expr_eq t (marked (TernaryOp Cond new_attribute (TernaryOp Cond new_attribute a b c) d e))"
proof -
  let ?e = "TernaryOp Cond new_attribute (TernaryOp Cond new_attribute a b c) d e"
  have e: "readable ?e" using assms by simp
  from parse_source [OF assms(1,2) e, of holder err path] obtain t where
    t: "parse E L holder (source ?e) err path = Some (Tree t, err, holder)" "canon t = canon (marked ?e)" .
  with readable_no_nan [OF e] canon_no_nan [OF t(2)] show ?thesis
    by (intro exI [of _ t]) (simp add: expr_eq_canon grouped_def)
qed

section \<open>A name in parentheses\<close>

text \<open>A rule that is left by a failed expectation.\<close>

definition expects :: "(nonterm, act) x3 \<Rightarrow> rangePathHolder \<Rightarrow> string \<Rightarrow> nonterm \<Rightarrow> nat \<Rightarrow> bool" where
  "expects L h code n p \<longleftrightarrow> (\<exists>i s. \<forall>v. ex L h code (NT n) p v = Some (PRaise (ExpectFail i s)))"

lemma expects_rule:
  "(\<And>v. ex L h code (rule_of n) p v = Some (PRaise (ExpectFail i s))) \<Longrightarrow> n \<noteq> RExpression \<Longrightarrow> expects L h code n p"
  unfolding expects_def by (intro exI [of _ i] exI [of _ s]) (cases n; simp add: exec_simps(15))

lemma expects_first: "expects L h code m p \<Longrightarrow> rule_of n = Seq (Act (NT m) f) g \<Longrightarrow> n \<noteq> RExpression \<Longrightarrow> expects L h code n p"
  by (subst (asm) expects_def) (auto simp: exec_simps(4,14) intro: expects_rule)

lemma rule_at_not_last:
  assumes "k < 16"
  shows "rule_at k \<noteq> RExpression"
proof -
  have "rule_at k \<noteq> rule_at 16" unfolding rule_at_def by (subst nth_eq_iff_index_eq) (use assms in simp_all)
  then show ?thesis by (simp add: rule_at_ends)
qed

lemma expects_loops:
  assumes "expects L h code RPreSinopExpr p" and "k \<le> 11"
  shows "expects L h code (rule_at (2 + k)) p"
  using assms(2)
proof (induction k)
  case (Suc k)
  then have "expects L h code (rule_at (2 + Suc k - 1)) p" by simp
  moreover have "2 + Suc k \<in> loop_levels" using Suc.prems unfolding loop_levels_def by simp presburger
  moreover have "rule_at (2 + Suc k) \<noteq> RExpression" by (rule rule_at_not_last) (use Suc.prems in simp)
  ultimately show ?case by (rule expects_first [OF _ rule_with_loop])
qed (use assms(1) in \<open>simp add: rule_at_def\<close>)

lemma expects_raise:
  assumes "expects L h code RPrimary p"
  shows "\<exists>e. err_type e = Parse \<and> (\<forall>v. ex L h code (NT RExpression) p v = Some (PRaise (ThrowError e)))"
proof -
  have "expects L h code RDotExpr p" by (rule expects_first [OF assms]) (simp_all add: dot_rule_def)
  then have "expects L h code RAttrExpr p" by (rule expects_first) (simp_all add: attr_rule_def)
  then have "expects L h code RCallExpr p" by (rule expects_first) (simp_all add: call_rule_def)
  then have "expects L h code RPostSinopExpr p"
    by (subst (asm) expects_def) (auto simp: post_sinop_rule_def exec_simps(4,6,14) intro!: expects_rule)
  then have "expects L h code RPreSinopExpr p"
    by (subst (asm) expects_def) (auto simp: pre_sinop_rule_def exec_simps(6,14) cong: run_congs intro!: expects_rule)
  from expects_loops [OF this, of 11] have "expects L h code RCondExpr p" by (simp add: rule_at_def)
  then have "expects L h code RAssignExpr p"
    by (subst (asm) expects_def) (auto simp: assign_rule_def exec_simps(4,6,14) intro!: expects_rule)
  then have "expects L h code RPipeExpr p" by (rule expects_first) (simp_all add: pipe_rule_def)
  then have "expects L h code RRetExpr p"
    by (subst (asm) expects_def) (auto simp: ret_rule_def exec_simps(6,14) cong: run_congs intro!: expects_rule)
  then show ?thesis
    by (subst (asm) expects_def) (auto simp: expression_rule_def exec_simps(14,15) on_error_expression_def mk_error_def)
qed

lemma parameter_expects:
  assumes L: "number_lib L" and x: "identifier_text x" and at: "drop p code = CHR ''('' # x @ CHR '')'' # c # s"
    and c: "c \<in> set ''*=<>&^?%),:;]}''"
  shows "expects L h code RPrimary p"
proof -
  let ?z = "Suc (p + length x)"
  have at1: "drop (Suc p) code = x @ CHR '')'' # c # s" using drop_after [of p code "''(''"] at by simp
  from drop_after [OF at1] have at2: "drop ?z code = CHR '')'' # c # s" by simp
  then have at3: "drop (Suc ?z) code = c # s" using drop_after [of ?z code "'')''"] by simp
  have skip: "\<not> skippable (drop p code)" "\<not> skippable (drop ?z code)" "\<not> skippable (drop (Suc ?z) code)"
    using at at2 at3 c by (auto simp: Let_def)
  have nexts: "ends_name (CHR '')'' # c # s)" "\<not> skippable (CHR '')'' # c # s)"
    by (simp_all add: ends_name_def is_alpha_def is_digit_def Let_def)
  from reads_parameter [OF x at1 nexts, of L h] obtain a where
    id: "\<And>v. ex L h code (NT RIdentifier) (Suc p) v = Some (POk ?z (AExpr (Identifier a x)) v)" by auto
  have "stops L h code (NT RIdentifier) ?z"
    by (rule stops_alternatives(10) [OF at2 nexts(2)]) (simp add: is_alpha_def Let_def)
  then have "ex L h code (comma_list RIdentifier) ?z v = Some (POk ?z (AVec []) v)" for v
    unfolding comma_list_def by (intro star_stops) (simp add: stops_def exec_simps(4))
  moreover have "ex L h code (Opt (lit '','')) ?z v = Some (POk ?z (AOpt None) v)" for v
    using at2 by (simp add: exec_simps(8) ex_lit [OF skip(2)])
  ultimately have names: "\<exists>b. ex L h code (comma_list RIdentifier) (Suc p) v = Some (POk ?z b v)" for v
    using id unfolding comma_list_def by (subst exec_simps(7)) (simp add: exec_simps(4))
  have params: "\<exists>b. ex L h code (Seq (Expect (lit ''('') (comma_list RIdentifier)) (lit '')'')) p v = Some (POk (Suc ?z) b v)" for v
    using names [of v] at at2 by (auto simp: exec_simps(4,5) ex_lit [OF skip(1)] ex_lit [OF skip(2)])
  have none: "ex L h code (lit ''{'') (Suc ?z) v = Some (PFail v)" "ex L h code (NT RExpression) (Suc ?z) v = Some (PFail v)" for v
    using no_expression [OF L at3 c, of h] at3 c by (auto simp: ex_lit [OF skip(3)] stops_def)
  have fn: "ex L h code (NT RFunction) p v = Some (PFail v)" for v
    using params [of default_expr] none(1) by (auto simp: function_rule_def exec_simps(4,5,14,15))
  have short: "ex L h code (NT RShortFunction) p v =
      Some (PRaise (ExpectFail (fail_at L (NT RExpression) (Suc ?z)) (what L (NT RExpression))))" for v
    using params [of default_expr] none(2) by (auto simp: short_function_rule_def exec_simps(5,14,15) cong: run_congs)
  have num: "nonnumber L code p" by (rule bracket_no_number [OF L at]) simp
  then have nums: "real_p (grammar_x3 L h code) (drop p code) = None"
    "int_p (grammar_x3 L h code) (drop p code) = None" "bool_p (grammar_x3 L h code) (drop p code) = None"
    by (simp_all add: nonnumber_def grammar_x3_def)
  have own: "ex L h code (NT m) p v = Some (PFail v)" if "m \<in> {RString, RRawString, RVariable, RPreVariable, RStructure, RArray}" for m v
    using bracket_stops [OF at] that unfolding stops_def by auto
  show ?thesis
    by (rule expects_rule) (simp_all add: primary_rule_def exec_simps(3,6,14) exec_no_skip [OF skip(1)] run_prim_def
      nums [unfolded at] at own fn short cong: run_congs)
qed



end
