(* ===== verification/Outcome.thy ===== *)
theory Outcome
  imports Location
begin

text \<open>
  Computations of the compiler: they read and change a state and end with a value, with a thrown
  \<open>error\<close>, with undefined behaviour or a failed assertion, or not at all. The second half are the
  two relations the proofs about the translator use: what a computation keeps of the state, and
  that a computation agrees with another one wherever it ends.
\<close>

datatype 'a outcome = Value 'a | Throw error | Crash | Diverge

type_synonym ('s, 'a) comp = "'s \<Rightarrow> 'a outcome \<times> 's"

section \<open>Combinators\<close>

definition ret :: "'a \<Rightarrow> ('s, 'a) comp" where
  "ret a = (\<lambda>s. (Value a, s))"

definition throw :: "error \<Rightarrow> ('s, 'a) comp" where
  "throw e = (\<lambda>s. (Throw e, s))"

definition crash :: "('s, 'a) comp" where
  "crash = (\<lambda>s. (Crash, s))"

definition diverge :: "('s, 'a) comp" where
  "diverge = (\<lambda>s. (Diverge, s))"

definition andThen :: "('s, 'a) comp \<Rightarrow> ('a \<Rightarrow> ('s, 'b) comp) \<Rightarrow> ('s, 'b) comp" where
  "andThen m f = (\<lambda>s.
     case m s of
       (Value a, s') \<Rightarrow> f a s'
     | (Throw e, s') \<Rightarrow> (Throw e, s')
     | (Crash, s') \<Rightarrow> (Crash, s')
     | (Diverge, s') \<Rightarrow> (Diverge, s'))"

definition then_do :: "('s, 'a) comp \<Rightarrow> ('s, 'b) comp \<Rightarrow> ('s, 'b) comp" where
  "then_do m k = andThen m (\<lambda>_. k)"

definition gets :: "('s \<Rightarrow> 'a) \<Rightarrow> ('s, 'a) comp" where
  "gets f = (\<lambda>s. (Value (f s), s))"

definition modifies :: "('s \<Rightarrow> 's) \<Rightarrow> ('s, unit) comp" where
  "modifies f = (\<lambda>s. (Value (), f s))"

text \<open>\<open>assert\<close>; a value that a null pointer or a missing entry does not have; \<open>if\<close> without \<open>else\<close>.\<close>

definition assert :: "bool \<Rightarrow> ('s, unit) comp" where
  "assert b = (if b then ret () else crash)"

definition the_or_crash :: "'a option \<Rightarrow> ('s, 'a) comp" where
  "the_or_crash m = (case m of Some a \<Rightarrow> ret a | None \<Rightarrow> crash)"

definition the_or_diverge :: "'a option \<Rightarrow> ('s, 'a) comp" where
  "the_or_diverge m = (case m of Some a \<Rightarrow> ret a | None \<Rightarrow> diverge)"

definition throw_if :: "bool \<Rightarrow> error \<Rightarrow> ('s, unit) comp" where
  "throw_if b e = (if b then throw e else ret ())"

definition do_if :: "bool \<Rightarrow> ('s, unit) comp \<Rightarrow> ('s, unit) comp" where
  "do_if b m = (if b then m else ret ())"

fun map_comp :: "('a \<Rightarrow> ('s, 'b) comp) \<Rightarrow> 'a list \<Rightarrow> ('s, 'b list) comp" where
  "map_comp f [] = ret []"
| "map_comp f (x # xs) = andThen (f x) (\<lambda>y. andThen (map_comp f xs) (\<lambda>ys. ret (y # ys)))"

fun fold_comp :: "('b \<Rightarrow> 'a \<Rightarrow> ('s, 'b) comp) \<Rightarrow> 'b \<Rightarrow> 'a list \<Rightarrow> ('s, 'b) comp" where
  "fold_comp f b [] = ret b"
| "fold_comp f b (x # xs) = andThen (f b x) (\<lambda>b'. fold_comp f b' xs)"

definition each :: "('a \<Rightarrow> ('s, unit) comp) \<Rightarrow> 'a list \<Rightarrow> ('s, unit) comp" where
  "each f xs = fold_comp (\<lambda>_ x. f x) () xs"

text \<open>\<open>try\<close> with a handler for \<open>error\<close>.\<close>

definition catch_error :: "('s, 'a) comp \<Rightarrow> (error \<Rightarrow> ('s, 'a) comp) \<Rightarrow> ('s, 'a) comp" where
  "catch_error m h = (\<lambda>s. case m s of (Throw e, s') \<Rightarrow> h e s' | r \<Rightarrow> r)"

text \<open>The list with its indices, from the left.\<close>

definition indexed :: "'a list \<Rightarrow> (nat \<times> 'a) list" where
  "indexed xs = zip [0..<length xs] xs"

lemma andThen_ret [simp]: "andThen (ret a) f = f a"
  by (simp add: andThen_def ret_def)

lemma andThen_throw [simp]: "andThen (throw e) f = throw e"
  by (simp add: andThen_def throw_def)

lemma andThen_crash [simp]: "andThen crash f = crash"
  by (simp add: andThen_def crash_def)

lemma andThen_diverge [simp]: "andThen diverge f = diverge"
  by (simp add: andThen_def diverge_def)

lemma andThen_assoc: "andThen (andThen m f) g = andThen m (\<lambda>a. andThen (f a) g)"
  by (rule ext) (simp add: andThen_def split: prod.splits outcome.splits)

lemma andThen_Value: "andThen m f s = (Value b, s') \<longleftrightarrow> (\<exists>a t. m s = (Value a, t) \<and> f a t = (Value b, s'))"
  by (simp add: andThen_def split: prod.splits outcome.splits)

section \<open>What a computation keeps\<close>

text \<open>\<open>keeps R m\<close>: when \<open>m\<close> returns, the state before and the state after are related.\<close>

definition keeps :: "('s \<Rightarrow> 's \<Rightarrow> bool) \<Rightarrow> ('s, 'a) comp \<Rightarrow> bool" where
  "keeps R m \<longleftrightarrow> (\<forall>s a s'. m s = (Value a, s') \<longrightarrow> R s s')"

definition preorder :: "('s \<Rightarrow> 's \<Rightarrow> bool) \<Rightarrow> bool" where
  "preorder R \<longleftrightarrow> reflp R \<and> transp R"

named_theorems keeps_rules

lemma keepsI: "(\<And>s a s'. m s = (Value a, s') \<Longrightarrow> R s s') \<Longrightarrow> keeps R m"
  by (simp add: keeps_def)

lemma keepsD: "keeps R m \<Longrightarrow> m s = (Value a, s') \<Longrightarrow> R s s'"
  by (simp add: keeps_def)

lemma keeps_ret: "preorder R \<Longrightarrow> keeps R (ret a)"
  by (simp add: keeps_def ret_def preorder_def reflp_def)

lemma keeps_stop [keeps_rules]: "keeps R (throw e)" "keeps R crash" "keeps R diverge"
  by (simp_all add: keeps_def throw_def crash_def diverge_def)

lemma keeps_gets: "preorder R \<Longrightarrow> keeps R (gets f)"
  by (simp add: keeps_def gets_def preorder_def reflp_def)

lemma keeps_modifies: "(\<And>s. R s (f s)) \<Longrightarrow> keeps R (modifies f)"
  by (simp add: keeps_def modifies_def)

lemma keeps_andThen:
  assumes "preorder R" and "keeps R m" and "\<And>a. keeps R (f a)"
  shows "keeps R (andThen m f)"
proof (rule keepsI)
  fix s b s'
  assume "andThen m f s = (Value b, s')"
  then obtain a t where "m s = (Value a, t)" "f a t = (Value b, s')"
    by (auto simp: andThen_Value)
  with assms(2,3) have "R s t" "R t s'" by (auto dest: keepsD)
  with assms(1) show "R s s'" by (auto simp: preorder_def dest: transpD)
qed

lemma keeps_then_do: "preorder R \<Longrightarrow> keeps R m \<Longrightarrow> keeps R k \<Longrightarrow> keeps R (then_do m k)"
  by (simp add: then_do_def keeps_andThen)

lemma keeps_checks:
  assumes "preorder R"
  shows "keeps R (assert b)" "keeps R (the_or_crash m)" "keeps R (the_or_diverge m)" "keeps R (throw_if b e)"
  using assms
  by (simp_all add: assert_def the_or_crash_def the_or_diverge_def throw_if_def keeps_ret keeps_stop
      split: option.splits)

lemma keeps_do_if: "preorder R \<Longrightarrow> keeps R m \<Longrightarrow> keeps R (do_if b m)"
  by (simp add: do_if_def keeps_ret)

lemma keeps_map_comp: "preorder R \<Longrightarrow> (\<And>x. keeps R (f x)) \<Longrightarrow> keeps R (map_comp f xs)"
  by (induction xs) (simp_all add: keeps_ret keeps_andThen)

lemma keeps_fold_comp: "preorder R \<Longrightarrow> (\<And>b x. keeps R (f b x)) \<Longrightarrow> keeps R (fold_comp f b xs)"
  by (induction xs arbitrary: b) (simp_all add: keeps_ret keeps_andThen)

lemma keeps_each: "preorder R \<Longrightarrow> (\<And>x. keeps R (f x)) \<Longrightarrow> keeps R (each f xs)"
  by (simp add: each_def keeps_fold_comp)

section \<open>Agreement of computations\<close>

text \<open>\<open>agrees m m'\<close>: wherever \<open>m\<close> ends, \<open>m'\<close> ends in the same way.\<close>

definition agrees :: "('s, 'a) comp \<Rightarrow> ('s, 'a) comp \<Rightarrow> bool" where
  "agrees m m' \<longleftrightarrow> (\<forall>s. fst (m s) \<noteq> Diverge \<longrightarrow> m' s = m s)"

named_theorems agrees_rules

lemma agrees_refl [agrees_rules]: "agrees m m"
  by (simp add: agrees_def)

lemma agreesD: "agrees m m' \<Longrightarrow> fst (m s) \<noteq> Diverge \<Longrightarrow> m' s = m s"
  by (simp add: agrees_def)

lemma agrees_andThen [agrees_rules]:
  assumes "agrees m m'" and "\<And>a. agrees (f a) (f' a)"
  shows "agrees (andThen m f) (andThen m' f')"
  unfolding agrees_def
proof (intro allI impI)
  fix s
  assume ends: "fst (andThen m f s) \<noteq> Diverge"
  then have "fst (m s) \<noteq> Diverge"
    by (auto simp: andThen_def split: prod.splits outcome.splits)
  then have m: "m' s = m s" using assms(1) by (simp add: agrees_def)
  show "andThen m' f' s = andThen m f s"
    using ends assms(2) by (auto simp: andThen_def agrees_def m split: prod.splits outcome.splits)
qed

lemma agrees_then_do [agrees_rules]: "agrees m m' \<Longrightarrow> agrees k k' \<Longrightarrow> agrees (then_do m k) (then_do m' k')"
  by (simp add: then_do_def agrees_andThen)

lemma agrees_catch_error [agrees_rules]:
  assumes "agrees m m'" and "\<And>e. agrees (h e) (h' e)"
  shows "agrees (catch_error m h) (catch_error m' h')"
  unfolding agrees_def
proof (intro allI impI)
  fix s
  assume ends: "fst (catch_error m h s) \<noteq> Diverge"
  then have "fst (m s) \<noteq> Diverge"
    by (auto simp: catch_error_def split: prod.splits outcome.splits)
  then have m: "m' s = m s" using assms(1) by (simp add: agrees_def)
  show "catch_error m' h' s = catch_error m h s"
    using ends assms(2) by (auto simp: catch_error_def agrees_def m split: prod.splits outcome.splits)
qed

lemma agrees_diverge [agrees_rules]: "agrees diverge m"
  by (simp add: agrees_def diverge_def)

lemma agrees_if [agrees_rules]:
  "agrees m m' \<Longrightarrow> agrees k k' \<Longrightarrow> agrees (if b then m else k) (if b then m' else k')"
  by simp

lemma agrees_do_if [agrees_rules]: "agrees m m' \<Longrightarrow> agrees (do_if b m) (do_if b m')"
  by (simp add: do_if_def agrees_refl)

lemma agrees_map_comp [agrees_rules]:
  "(\<And>x. agrees (f x) (f' x)) \<Longrightarrow> agrees (map_comp f xs) (map_comp f' xs)"
  by (induction xs) (simp_all add: agrees_rules)

lemma agrees_fold_comp [agrees_rules]:
  "(\<And>b x. agrees (f b x) (f' b x)) \<Longrightarrow> agrees (fold_comp f b xs) (fold_comp f' b xs)"
  by (induction xs arbitrary: b) (simp_all add: agrees_rules)

lemma agrees_each [agrees_rules]: "(\<And>x. agrees (f x) (f' x)) \<Longrightarrow> agrees (each f xs) (each f' xs)"
  by (simp add: each_def agrees_fold_comp)

lemma agrees_option [agrees_rules]:
  "agrees m m' \<Longrightarrow> (\<And>a. agrees (f a) (f' a)) \<Longrightarrow>
   agrees (case x of None \<Rightarrow> m | Some a \<Rightarrow> f a) (case x of None \<Rightarrow> m' | Some a \<Rightarrow> f' a)"
  by (simp split: option.splits)

lemma agrees_prod [agrees_rules]:
  "(\<And>a b. agrees (f a b) (f' a b)) \<Longrightarrow>
   agrees (case x of (a, b) \<Rightarrow> f a b) (case x of (a, b) \<Rightarrow> f' a b)"
  by (simp split: prod.splits)

lemma agrees_list [agrees_rules]:
  "agrees m m' \<Longrightarrow> (\<And>a as. agrees (f a as) (f' a as)) \<Longrightarrow>
   agrees (case xs of [] \<Rightarrow> m | a # as \<Rightarrow> f a as) (case xs of [] \<Rightarrow> m' | a # as \<Rightarrow> f' a as)"
  by (simp split: list.splits)

lemma agrees_sum [agrees_rules]:
  "(\<And>a. agrees (f a) (f' a)) \<Longrightarrow> (\<And>b. agrees (g b) (g' b)) \<Longrightarrow>
   agrees (case x of Inl a \<Rightarrow> f a | Inr b \<Rightarrow> g b) (case x of Inl a \<Rightarrow> f' a | Inr b \<Rightarrow> g' b)"
  by (simp split: sum.splits)

lemma agrees_bool [agrees_rules]:
  "agrees m m' \<Longrightarrow> agrees k k' \<Longrightarrow>
   agrees (case b of True \<Rightarrow> m | False \<Rightarrow> k) (case b of True \<Rightarrow> m' | False \<Rightarrow> k')"
  by (simp split: bool.splits)

lemma agrees_trans: "agrees m m' \<Longrightarrow> agrees m' m'' \<Longrightarrow> agrees m m''"
  by (auto simp: agrees_def)

lemma agrees_chain:
  assumes "\<And>n. agrees (f n) (f (Suc n))" and "n \<le> k"
  shows "agrees (f n) (f k)"
  using assms(2) by (induction k rule: dec_induct) (auto intro: agrees_refl agrees_trans assms(1))

end
