(* ===== verification/Llvm.thy ===== *)
theory Llvm
  imports Ast
begin

text \<open>
  The interface of LLVM that the translator calls. LLVM is not part of the repository: its types
  \<open>'t\<close>, values \<open>'v\<close> (functions and basic blocks are values too), insertion points \<open>'p\<close> and the
  state \<open>'m\<close> of a context with its module are parameters, and its functions are the fields of a
  record. The methods \<open>Create...\<close> of \<open>IRBuilder\<close> are one operation on the datatype of the
  instructions they ask for.
\<close>

datatype type_kind = VoidTy | IntegerTy | DoubleTy | LabelTy | PointerTy | StructTy | ArrayTy | FunctionTy | OtherTy

datatype bin_instr =
    CreateAdd | CreateFAdd | CreateSub | CreateFSub | CreateMul | CreateFMul | CreateSDiv | CreateFDiv
  | CreateSRem | CreateFRem | CreateShl | CreateLShr | CreateAnd | CreateOr | CreateXor
  | CreateICmpEQ | CreateICmpNE | CreateICmpSGT | CreateICmpSLT | CreateICmpSGE | CreateICmpSLE

datatype ('t, 'v) instr =
    CreateBin bin_instr 'v 'v
  | CreateLoad 'v
  | CreateStore 'v 'v
  | CreateAlloca 't string
  | CreateGEP 't 'v "'v list"
  | CreateInBoundsGEP 't 'v "'v list"
  | CreateStructGEP 't 'v uint32
  | CreateCall 'v "'v list"
  | CreateRet "'v option"
  | CreateRetVoid
  | CreateBr 'v
  | CreateCondBr 'v 'v 'v
  | CreatePtrToInt 'v 't
  | CreatePointerCast 'v 't string
  | CreateSIToFP 'v 't
  | CreateFPToSI 'v 't
  | CreateGlobalStringPtr string

datatype intrinsic = Memcpy | Powi | Pow_intrinsic

text \<open>
  What a loop over a basic block looks at: a \<open>ret\<close> with the type of its operand, if it has one, a
  branch, or another instruction.
\<close>

datatype 't inst_view = RetInst "'t option" | BrInst | OtherInst

text \<open>A function of a module that was read from a file: its name, its function type and its type.\<close>

type_synonym 't ir_function = "string \<times> 't \<times> 't"

record ('t, 'v, 'p, 'm) llvm =
  kind :: "'t \<Rightarrow> type_kind"
  void_ty :: 't
  int_ty :: "nat \<Rightarrow> 't"
  double_ty :: 't
  ptr_to :: "'t \<Rightarrow> 't"
  pointee :: "'t \<Rightarrow> 't"
  array_ty :: "'t \<Rightarrow> nat \<Rightarrow> 't"
  fun_ty :: "'t \<Rightarrow> 't list \<Rightarrow> bool \<Rightarrow> 't"
  fun_params :: "'t \<Rightarrow> 't list"
  fun_vararg :: "'t \<Rightarrow> bool"
  indexed_type :: "'t \<Rightarrow> 'v \<Rightarrow> bool"
  print_type :: "'m \<Rightarrow> 't \<Rightarrow> string"
  parse_type :: "'m \<Rightarrow> string \<Rightarrow> 't option"
  new_struct :: "'m \<Rightarrow> 't \<times> 'm"
  set_body :: "'t \<Rightarrow> 't list \<Rightarrow> 'm \<Rightarrow> 'm"
  set_struct_name :: "'t \<Rightarrow> string \<Rightarrow> 'm \<Rightarrow> 'm"
  identified_structs :: "'m \<Rightarrow> 't list"
  layout_identical :: "'m \<Rightarrow> 't \<Rightarrow> 't \<Rightarrow> bool"
  ty_of :: "'v \<Rightarrow> 't"
  is_function :: "'v \<Rightarrow> bool"
  const_value :: "'v \<Rightarrow> nat option"
  signed_const :: "'t \<Rightarrow> int \<Rightarrow> 'v"
  int_const :: "'t \<Rightarrow> nat \<Rightarrow> 'v"
  fp_const :: "'t \<Rightarrow> double \<Rightarrow> 'v"
  null_value :: "'t \<Rightarrow> 'v"
  value_name :: "'m \<Rightarrow> 'v \<Rightarrow> string"
  get_function :: "'m \<Rightarrow> string \<Rightarrow> 'v option"
  create_function :: "'t \<Rightarrow> string \<Rightarrow> bool \<Rightarrow> 'm \<Rightarrow> 'v \<times> 'm"
  insert_function :: "string \<Rightarrow> 't \<Rightarrow> 'm \<Rightarrow> 'm"
  intrinsic_decl :: "intrinsic \<Rightarrow> 't list \<Rightarrow> 'm \<Rightarrow> 'v \<times> 'm"
  fun_args :: "'m \<Rightarrow> 'v \<Rightarrow> 'v list"
  fun_blocks :: "'m \<Rightarrow> 'v \<Rightarrow> 'v list"
  entry_block :: "'m \<Rightarrow> 'v \<Rightarrow> 'v"
  create_block :: "string \<Rightarrow> 'v option \<Rightarrow> 'm \<Rightarrow> 'v \<times> 'm"
  block_parent :: "'m \<Rightarrow> 'v \<Rightarrow> 'v"
  block_insts :: "'m \<Rightarrow> 'v \<Rightarrow> 't inst_view list"
  erase :: "'v \<Rightarrow> 'm \<Rightarrow> 'm"
  no_point :: "'p"
  at_end :: "'v \<Rightarrow> 'p"
  insert_block :: "'p \<Rightarrow> 'v"
  build :: "('t, 'v) instr \<Rightarrow> 'p \<Rightarrow> 'm \<Rightarrow> 'v \<times> 'm"
  parse_ir_file :: "string \<Rightarrow> 'm \<Rightarrow> 't ir_function list option"

end
