(* ===== verification/Asm_State.thy ===== *)
theory Asm_State
  imports Outcome Llvm "HOL-Library.While_Combinator"
begin

text \<open>
  The state of the translator and the objects it works on: \<open>include/scopion/assembly/type.hpp\<close>,
  \<open>value.hpp\<close>, and the data members of \<open>translator\<close> and \<open>module\<close>. Objects of the class \<open>value\<close> are
  shared by pointers and never freed, so they live in a heap, a list that only grows, and a
  \<open>value*\<close> is an index into it, or \<open>None\<close> for a null pointer. Following a null pointer, or calling
  a method of LLVM on one, is \<open>Crash\<close>, as is a failed assertion.
\<close>

section \<open>Types\<close>

record 't asm_type =
  llvm_type :: "'t option"
  is_lazy :: bool
  is_const :: bool

definition copyWithNewLLVMType :: "'t asm_type \<Rightarrow> 't option \<Rightarrow> 't asm_type" where
  "copyWithNewLLVMType ty t = \<lparr>llvm_type = t, is_lazy = is_lazy ty, is_const = is_const ty\<rparr>"

text \<open>\<open>isType_if_impl\<close>: the predicate on the type behind all pointers. A pointer chain without an end has no result.\<close>

definition strip_pointers :: "('t, 'v, 'p, 'm) llvm \<Rightarrow> 't \<Rightarrow> 't option" where
  "strip_pointers L t = while_option (\<lambda>u. kind L u = PointerTy) (pointee L) t"

definition isType_if ::
  "('t, 'v, 'p, 'm) llvm \<Rightarrow> (type_kind \<Rightarrow> bool) \<Rightarrow> 't asm_type \<Rightarrow> ('s, bool) comp" where
  "isType_if L f ty =
     andThen (the_or_crash (llvm_type ty)) (\<lambda>t.
     andThen (the_or_diverge (strip_pointers L t)) (\<lambda>u.
     ret (f (kind L u))))"

definition isFundamental :: "('t, 'v, 'p, 'm) llvm \<Rightarrow> 't asm_type \<Rightarrow> ('s, bool) comp" where
  "isFundamental L ty = isType_if L (\<lambda>k. \<not> (k = StructTy \<or> k = ArrayTy)) ty"

definition isStruct :: "('t, 'v, 'p, 'm) llvm \<Rightarrow> 't asm_type \<Rightarrow> ('s, bool) comp" where
  "isStruct L ty = isType_if L (\<lambda>k. k = StructTy) ty"

definition isArray :: "('t, 'v, 'p, 'm) llvm \<Rightarrow> 't asm_type \<Rightarrow> ('s, bool) comp" where
  "isArray L ty = isType_if L (\<lambda>k. k = ArrayTy) ty"

definition isVoid :: "('t, 'v, 'p, 'm) llvm \<Rightarrow> 't asm_type \<Rightarrow> bool" where
  "isVoid L ty = (case llvm_type ty of Some t \<Rightarrow> kind L t = VoidTy | None \<Rightarrow> True)"

section \<open>Values\<close>

type_synonym ret_table = "nat smap \<times> uint32 smap"

record ('t, 'v) vobj =
  llvm_value :: "'v option"
  parent :: "nat option"
  ast_value :: expr
  vtype :: "'t asm_type"
  symbols :: "nat smap"
  field_ids :: "uint32 smap"
  vname :: string
  rtable :: "ret_table option"

definition void_value :: "('t, 'v) vobj" where
  "void_value =
     \<lparr>llvm_value = None, parent = None, ast_value = default_expr,
      vtype = \<lparr>llvm_type = None, is_lazy = False, is_const = False\<rparr>,
      symbols = [], field_ids = [], vname = [], rtable = None\<rparr>"

text \<open>The constructor with a value and a node; the constant flag is always left at its default.\<close>

definition mk_value ::
  "('t, 'v, 'p, 'm) llvm \<Rightarrow> 'v option \<Rightarrow> expr \<Rightarrow> bool \<Rightarrow> ('t, 'v) vobj" where
  "mk_value L v e lazy =
     void_value\<lparr>llvm_value := v, ast_value := e,
       vtype := \<lparr>llvm_type = map_option (ty_of L) v, is_lazy = lazy, is_const = False\<rparr>\<rparr>"

section \<open>The state of the translator\<close>

text \<open>
  \<open>ir\<close> is what LLVM keeps: the context with the module. \<open>ip\<close> is the insertion point of the builder.
  \<open>link_libraries\<close> is a member of \<open>module\<close>, the others are members of \<open>translator\<close>.
\<close>

record ('t, 'v, 'p, 'm) tstate =
  ir :: 'm
  ip :: 'p
  heap :: "('t, 'v) vobj list"
  this_scope :: nat
  flags :: "string list"
  link_libraries :: "string list"
  loaded_map :: "'t ir_function list smap"

type_synonym ('t, 'v, 'p, 'm, 'a) tcomp = "(('t, 'v, 'p, 'm) tstate, 'a) comp"

section \<open>Access to objects\<close>

definition deref :: "nat \<Rightarrow> ('t, 'v, 'p, 'm, ('t, 'v) vobj) tcomp" where
  "deref a = (\<lambda>s. if a < length (heap s) then (Value (heap s ! a), s) else (Crash, s))"

definition update_obj ::
  "nat \<Rightarrow> (('t, 'v) vobj \<Rightarrow> ('t, 'v) vobj) \<Rightarrow> ('t, 'v, 'p, 'm, unit) tcomp" where
  "update_obj a f = (\<lambda>s.
     if a < length (heap s) then (Value (), s\<lparr>heap := (heap s)[a := f (heap s ! a)]\<rparr>) else (Crash, s))"

text \<open>\<open>new value(...)\<close>\<close>

definition alloc :: "('t, 'v) vobj \<Rightarrow> ('t, 'v, 'p, 'm, nat) tcomp" where
  "alloc obj = (\<lambda>s. (Value (length (heap s)), s\<lparr>heap := heap s @ [obj]\<rparr>))"

definition new_value ::
  "('t, 'v, 'p, 'm) llvm \<Rightarrow> 'v \<Rightarrow> expr \<Rightarrow> ('t, 'v, 'p, 'm, nat) tcomp" where
  "new_value L v e = alloc (mk_value L (Some v) e False)"

definition new_lazy ::
  "('t, 'v, 'p, 'm) llvm \<Rightarrow> 'v \<Rightarrow> expr \<Rightarrow> ('t, 'v, 'p, 'm, nat) tcomp" where
  "new_lazy L v e = alloc (mk_value L (Some v) e True)"

definition new_null ::
  "('t, 'v, 'p, 'm) llvm \<Rightarrow> expr \<Rightarrow> ('t, 'v, 'p, 'm, nat) tcomp" where
  "new_null L e = alloc (mk_value L None e False)"

text \<open>
  \<open>getType\<close>: the type must agree with the type of the LLVM value, when there is one. Storing it back
  then changes nothing.
\<close>

definition getType ::
  "('t, 'v, 'p, 'm) llvm \<Rightarrow> nat \<Rightarrow> ('t, 'v, 'p, 'm, 't asm_type) tcomp" where
  "getType L a =
     andThen (deref a) (\<lambda>obj.
     then_do (assert (\<forall>v \<in> set_option (llvm_value obj). llvm_type (vtype obj) = Some (ty_of L v)))
       (ret (vtype obj)))"

definition getLLVM :: "nat \<Rightarrow> ('t, 'v, 'p, 'm, 'v option) tcomp" where
  "getLLVM a = andThen (deref a) (\<lambda>obj. ret (llvm_value obj))"

definition setLLVM ::
  "('t, 'v, 'p, 'm) llvm \<Rightarrow> nat \<Rightarrow> 'v option \<Rightarrow> ('t, 'v, 'p, 'm, unit) tcomp" where
  "setLLVM L a val =
     update_obj a (\<lambda>obj. obj\<lparr>llvm_value := val,
       vtype := (case val of
                   Some v \<Rightarrow> (vtype obj)\<lparr>llvm_type := Some (ty_of L v)\<rparr>
                 | None \<Rightarrow> vtype obj)\<rparr>)"

definition set_const ::
  "('t, 'v, 'p, 'm) llvm \<Rightarrow> nat \<Rightarrow> bool \<Rightarrow> ('t, 'v, 'p, 'm, unit) tcomp" where
  "set_const L a b =
     then_do (getType L a) (update_obj a (\<lambda>obj. obj\<lparr>vtype := (vtype obj)\<lparr>is_const := b\<rparr>\<rparr>))"

definition setParent :: "nat \<Rightarrow> nat \<Rightarrow> ('t, 'v, 'p, 'm, unit) tcomp" where
  "setParent a p = update_obj a (\<lambda>obj. obj\<lparr>parent := Some p\<rparr>)"

definition setName :: "nat \<Rightarrow> string \<Rightarrow> ('t, 'v, 'p, 'm, unit) tcomp" where
  "setName a n = update_obj a (\<lambda>obj. obj\<lparr>vname := n\<rparr>)"

definition set_symbol :: "nat \<Rightarrow> string \<Rightarrow> nat \<Rightarrow> ('t, 'v, 'p, 'm, unit) tcomp" where
  "set_symbol a k x = update_obj a (\<lambda>obj. obj\<lparr>symbols := sm_put k x (symbols obj)\<rparr>)"

definition set_field :: "nat \<Rightarrow> string \<Rightarrow> uint32 \<Rightarrow> ('t, 'v, 'p, 'm, unit) tcomp" where
  "set_field a k i = update_obj a (\<lambda>obj. obj\<lparr>field_ids := sm_put k i (field_ids obj)\<rparr>)"

definition setRetTable :: "nat \<Rightarrow> ret_table option \<Rightarrow> ('t, 'v, 'p, 'm, unit) tcomp" where
  "setRetTable a t = update_obj a (\<lambda>obj. obj\<lparr>rtable := t\<rparr>)"

definition applyRetTable :: "nat \<Rightarrow> ret_table \<Rightarrow> ('t, 'v, 'p, 'm, unit) tcomp" where
  "applyRetTable a t = update_obj a (\<lambda>obj. obj\<lparr>symbols := fst t, field_ids := snd t\<rparr>)"

section \<open>Copying\<close>

text \<open>
  \<open>copyWithNewLLVMValue\<close> copies the symbols too, to any depth. The first argument bounds the depth;
  a path through more objects than the heap has visits one twice, so with the bound of
  \<open>copy_with\<close> it runs out exactly when the recursion has no end.
\<close>

primrec copy_value ::
  "nat \<Rightarrow> ('t, 'v, 'p, 'm) llvm \<Rightarrow> nat \<Rightarrow> 'v option \<Rightarrow> ('t, 'v, 'p, 'm, nat) tcomp" where
  "copy_value 0 L a v = diverge"
| "copy_value (Suc n) L a v =
     andThen (deref a) (\<lambda>obj.
     andThen (alloc void_value) (\<lambda>b.
     andThen (map_comp (\<lambda>kc.
       andThen (getLLVM (snd kc)) (\<lambda>w.
       andThen (copy_value n L (snd kc) w) (\<lambda>d.
       ret (fst kc, d)))) (symbols obj)) (\<lambda>syms.
     andThen (the_or_crash v) (\<lambda>w.
     then_do (update_obj b (\<lambda>_. obj\<lparr>llvm_value := Some w, symbols := syms,
       vtype := copyWithNewLLVMType (vtype obj) (Some (ty_of L w))\<rparr>))
       (ret b)))))"

definition copy_with ::
  "('t, 'v, 'p, 'm) llvm \<Rightarrow> nat \<Rightarrow> 'v option \<Rightarrow> ('t, 'v, 'p, 'm, nat) tcomp" where
  "copy_with L a v =
     andThen (gets (\<lambda>s. Suc (length (heap s)))) (\<lambda>n. copy_value n L a v)"

definition copy :: "('t, 'v, 'p, 'm) llvm \<Rightarrow> nat \<Rightarrow> ('t, 'v, 'p, 'm, nat) tcomp" where
  "copy L a = andThen (getLLVM a) (\<lambda>v. copy_with L a v)"

definition generateRetTable ::
  "('t, 'v, 'p, 'm) llvm \<Rightarrow> nat \<Rightarrow> ('t, 'v, 'p, 'm, ret_table) tcomp" where
  "generateRetTable L a =
     andThen (deref a) (\<lambda>obj.
     andThen (map_comp (\<lambda>kc. andThen (copy L (snd kc)) (\<lambda>d. ret (fst kc, d))) (symbols obj)) (\<lambda>syms.
     ret (syms, field_ids obj)))"

section \<open>LLVM through the state\<close>

definition reads :: "('m \<Rightarrow> 'a) \<Rightarrow> ('t, 'v, 'p, 'm, 'a) tcomp" where
  "reads f = gets (\<lambda>s. f (ir s))"

definition changes :: "('m \<Rightarrow> 'm) \<Rightarrow> ('t, 'v, 'p, 'm, unit) tcomp" where
  "changes f = modifies (\<lambda>s. s\<lparr>ir := f (ir s)\<rparr>)"

definition creates :: "('m \<Rightarrow> 'a \<times> 'm) \<Rightarrow> ('t, 'v, 'p, 'm, 'a) tcomp" where
  "creates f = (\<lambda>s. (Value (fst (f (ir s))), s\<lparr>ir := snd (f (ir s))\<rparr>))"

text \<open>An instruction at the insertion point, which stays behind it.\<close>

definition emit ::
  "('t, 'v, 'p, 'm) llvm \<Rightarrow> ('t, 'v) instr \<Rightarrow> ('t, 'v, 'p, 'm, 'v) tcomp" where
  "emit L i = (\<lambda>s. (Value (fst (build L i (ip s) (ir s))), s\<lparr>ir := snd (build L i (ip s) (ir s))\<rparr>))"

definition emit_unit ::
  "('t, 'v, 'p, 'm) llvm \<Rightarrow> ('t, 'v) instr \<Rightarrow> ('t, 'v, 'p, 'm, unit) tcomp" where
  "emit_unit L i = andThen (emit L i) (\<lambda>_. ret ())"

definition set_insert_point :: "'p \<Rightarrow> ('t, 'v, 'p, 'm, unit) tcomp" where
  "set_insert_point p = modifies (\<lambda>s. s\<lparr>ip := p\<rparr>)"

definition setScope :: "nat \<Rightarrow> ('t, 'v, 'p, 'm, unit) tcomp" where
  "setScope a = modifies (\<lambda>s. s\<lparr>this_scope := a\<rparr>)"

definition link_library :: "string \<Rightarrow> ('t, 'v, 'p, 'm, unit) tcomp" where
  "link_library l = modifies (\<lambda>s. s\<lparr>link_libraries := link_libraries s @ [l]\<rparr>)"

text \<open>A type as a message shows it; \<open>getNameString\<close> follows the pointer.\<close>

definition getNameString :: "('t, 'v, 'p, 'm) llvm \<Rightarrow> 't \<Rightarrow> ('t, 'v, 'p, 'm, string) tcomp" where
  "getNameString L t = reads (\<lambda>m. print_type L m t)"

text \<open>The value and the type of an object where the code needs them to be there.\<close>

definition need_llvm :: "nat \<Rightarrow> ('t, 'v, 'p, 'm, 'v) tcomp" where
  "need_llvm a = andThen (getLLVM a) the_or_crash"

definition type_of :: "('t, 'v, 'p, 'm) llvm \<Rightarrow> nat \<Rightarrow> ('t, 'v, 'p, 'm, 't) tcomp" where
  "type_of L a = andThen (getType L a) (\<lambda>ty. the_or_crash (llvm_type ty))"

definition translate_error :: "string \<Rightarrow> locationInfo \<Rightarrow> error" where
  "translate_error msg wh = mk_error msg wh Translate"

text \<open>
  How the translator reads a variable, an element or a member: a copy of the object, with the value
  loaded from its place unless the place itself is asked for (\<open>keep\<close>), the object is lazy, or it is
  a structure or an array.
\<close>

definition fetch ::
  "('t, 'v, 'p, 'm) llvm \<Rightarrow> bool \<Rightarrow> nat \<Rightarrow> ('t, 'v, 'p, 'm, nat) tcomp" where
  "fetch L keep a =
     andThen (if keep then ret False
              else andThen (getType L a) (\<lambda>ty. if is_lazy ty then ret False else isFundamental L ty))
       (\<lambda>load.
     if load then
       andThen (need_llvm a) (\<lambda>v.
       andThen (emit L (CreateLoad v)) (\<lambda>w.
       copy_with L a (Some w)))
     else copy L a)"

end
