(* ===== verification/Translator_Base.thy ===== *)
theory Translator_Base
  imports Asm_State Parser_Run
begin

text \<open>
  What the operations of the translator share: the surroundings of a translator, allocation, and
  \<open>copyFull\<close>, the one way a value is stored under a name. From \<open>lib/assembly/translator.cpp\<close> and
  the beginning of \<open>translator_operators.cpp\<close>.
\<close>

text \<open>
  LLVM, the name of the entry function, the file system (\<open>absolute\<close> resolves a path against the
  directory of the importing file, or the current one), the script that turns a C header into a
  file of LLVM code, and the parts of the parser that come from its library.
\<close>

record ('t, 'v, 'p, 'm) env =
  lib :: "('t, 'v, 'p, 'm) llvm"
  entry_function_name :: string
  absolute :: "string \<Rightarrow> string option \<Rightarrow> string"
  read_file :: "string \<Rightarrow> string option"
  h2ir_path :: "string \<Rightarrow> string"
  run_h2ir :: "string \<Rightarrow> 'm \<Rightarrow> 'm"
  x3_engine :: "(nonterm, act) engine"
  x3_lib :: "(nonterm, act) x3"

type_synonym ('t, 'v, 'p, 'm) visitor = "expr \<Rightarrow> ('t, 'v, 'p, 'm, nat option) tcomp"

abbreviation i32 :: "('t, 'v, 'p, 'm) llvm \<Rightarrow> nat \<Rightarrow> 'v" where
  "i32 L n \<equiv> int_const L (int_ty L 32) n"

abbreviation i8_ptr :: "('t, 'v, 'p, 'm) llvm \<Rightarrow> 't" where
  "i8_ptr L \<equiv> ptr_to L (int_ty L 8)"

section \<open>The translator\<close>

definition new_translator :: "'m \<Rightarrow> 'p \<Rightarrow> ('t, 'v) vobj list \<Rightarrow> string list \<Rightarrow> ('t, 'v, 'p, 'm) tstate" where
  "new_translator m p h fs =
     \<lparr>ir = m, ip = p, heap = h @ [void_value], this_scope = length h, flags = fs,
      link_libraries = [], loaded_map = []\<rparr>"

definition hasFlag :: "string \<Rightarrow> ('t, 'v, 'p, 'm, bool) tcomp" where
  "hasFlag key = gets (\<lambda>s. key \<in> set (flags s))"

definition createMain :: "('t, 'v, 'p, 'm) env \<Rightarrow> ('t, 'v, 'p, 'm, unit) tcomp" where
  "createMain C =
     (let L = lib C in
      andThen (creates (create_function L
        (fun_ty L (int_ty L 32) [int_ty L 32, ptr_to L (i8_ptr L)] False) (entry_function_name C) True)) (\<lambda>mainf.
      andThen (creates (create_block L ''entry'' (Some mainf))) (\<lambda>bb.
      set_insert_point (at_end L bb))))"

definition insertGCInitInMain :: "('t, 'v, 'p, 'm) env \<Rightarrow> ('t, 'v, 'p, 'm, unit) tcomp" where
  "insertGCInitInMain C =
     (let L = lib C in
      andThen (gets ip) (\<lambda>p.
      andThen (reads (\<lambda>m. get_function L m (entry_function_name C))) (\<lambda>f.
      andThen (the_or_crash f) (\<lambda>mainf.
      andThen (reads (\<lambda>m. entry_block L m mainf)) (\<lambda>bb.
      then_do (set_insert_point (at_end L bb))
     (andThen (reads (\<lambda>m. get_function L m ''GC_init'')) (\<lambda>g.
      andThen (the_or_crash g) (\<lambda>init.
      then_do (emit_unit L (CreateCall init []))
        (set_insert_point p)))))))))"

section \<open>Sizes and allocation\<close>

text \<open>\<open>ptrtoint\<close> of the address of the second element of an array at the null pointer.\<close>

definition size_of :: "('t, 'v, 'p, 'm) llvm \<Rightarrow> 't \<Rightarrow> 't \<Rightarrow> ('t, 'v, 'p, 'm, 'v) tcomp" where
  "size_of L t ptr =
     andThen (emit L (CreateGEP t (null_value L ptr) [i32 L 1])) (\<lambda>p.
     emit L (CreatePtrToInt p (int_ty L 64)))"

definition sizeofType :: "('t, 'v, 'p, 'm) llvm \<Rightarrow> 't \<Rightarrow> ('t, 'v, 'p, 'm, 'v) tcomp" where
  "sizeofType L ptr = size_of L (pointee L ptr) ptr"

definition createGCMalloc ::
  "('t, 'v, 'p, 'm) env \<Rightarrow> 't \<Rightarrow> string \<Rightarrow> ('t, 'v, 'p, 'm, 'v) tcomp" where
  "createGCMalloc C t name =
     (let L = lib C in
      andThen (gets (\<lambda>s. ''gc'' \<in> set (link_libraries s))) (\<lambda>linked.
      then_do (do_if (\<not> linked)
        (then_do (changes (insert_function L ''GC_init'' (fun_ty L (void_ty L) [] False)))
        (then_do (changes (insert_function L ''GC_malloc'' (fun_ty L (i8_ptr L) [int_ty L 64] False)))
        (then_do (insertGCInitInMain C)
          (link_library ''gc'')))))
     (andThen (size_of L t (ptr_to L t)) (\<lambda>size.
      andThen (reads (\<lambda>m. get_function L m ''GC_malloc'')) (\<lambda>f.
      andThen (the_or_crash f) (\<lambda>malloc.
      andThen (emit L (CreateCall malloc [size])) (\<lambda>p.
      emit L (CreatePointerCast p (ptr_to L t) name))))))))"

section \<open>copyFull\<close>

text \<open>The copy of an aggregate: a call of the intrinsic \<open>memcpy\<close>.\<close>

definition emit_memcpy :: "('t, 'v, 'p, 'm) llvm \<Rightarrow> 'v \<Rightarrow> 'v \<Rightarrow> ('t, 'v, 'p, 'm, unit) tcomp" where
  "emit_memcpy L dst src =
     andThen (creates (intrinsic_decl L Memcpy [i8_ptr L, i8_ptr L, int_ty L 64])) (\<lambda>f.
     andThen (emit L (CreatePointerCast dst (i8_ptr L) [])) (\<lambda>d.
     andThen (emit L (CreatePointerCast src (i8_ptr L) [])) (\<lambda>c.
     andThen (sizeofType L (ty_of L src)) (\<lambda>n.
     emit_unit L (CreateCall f [d, c, n, i32 L 0, int_const L (int_ty L 1) 0])))))"

text \<open>The store of \<open>src\<close> to \<open>lval\<close>; it is refused for a target of another type.\<close>

definition store_full ::
  "('t, 'v, 'p, 'm) llvm \<Rightarrow> nat \<Rightarrow> 'v option \<Rightarrow> ('t, 'v, 'p, 'm, bool) tcomp" where
  "store_full L src target =
     andThen (getLLVM src) (\<lambda>r.
     andThen (the_or_crash target) (\<lambda>lval.
     if kind L (ty_of L lval) = PointerTy then
       andThen (getType L src) (\<lambda>ty.
       andThen (isFundamental L ty) (\<lambda>fundamental.
       andThen (the_or_crash r) (\<lambda>rval.
       if (if fundamental then pointee L (ty_of L lval) else ty_of L lval) = ty_of L rval then
         then_do (if fundamental then emit_unit L (CreateStore rval lval) else emit_memcpy L lval rval)
           (ret True)
       else ret False)))
     else ret False))"

definition copyFull ::
  "('t, 'v, 'p, 'm) llvm \<Rightarrow> nat \<Rightarrow> nat \<Rightarrow> string \<Rightarrow> 'v option \<Rightarrow> nat option \<Rightarrow>
   ('t, 'v, 'p, 'm, bool) tcomp" where
  "copyFull L src dest name newv defp =
     andThen (deref dest) (\<lambda>d.
     let lval = (if newv \<noteq> None then newv else llvm_value d) in
     andThen (getType L src) (\<lambda>ty.
     andThen (if is_lazy ty then ret True else store_full L src lval) (\<lambda>stored.
     if \<not> stored then ret False
     else if name = [] then ret True
     else
       andThen (gets this_scope) (\<lambda>scope.
       andThen (if is_lazy ty then copy L src else copy_with L src lval) (\<lambda>c.
       then_do (set_symbol (case parent d of Some p \<Rightarrow> p | None \<Rightarrow> case defp of Some q \<Rightarrow> q | None \<Rightarrow> scope)
         name c)
         (ret True))))))"

end
