(* ===== verification/Evaluator.thy ===== *)
theory Evaluator
  imports Translator_Base
begin

text \<open>
  Forcing lazy values: \<open>lib/assembly/evaluator.cpp\<close>. A lazy value is the node of a function or of
  a scope that has not been compiled yet; \<open>evaluate\<close> compiles it for the arguments at hand. The
  translator it calls back is the argument \<open>tr\<close>.
\<close>

section \<open>Variables\<close>

text \<open>
  The handler of variables of the translator, which the evaluator calls directly for
  \<open>#typeof\<close>. A name without a value is a declaration if it is to be assigned.
\<close>

definition visit_variable ::
  "('t, 'v, 'p, 'm) llvm \<Rightarrow> attribute \<Rightarrow> string \<Rightarrow> ('t, 'v, 'p, 'm, nat option) tcomp" where
  "visit_variable L a n =
     andThen (gets this_scope) (\<lambda>scope.
     andThen (deref scope) (\<lambda>sc.
     case sm_find (symbols sc) n of
       None \<Rightarrow>
         if lval a then
           andThen (new_null L (Variable a n)) (\<lambda>vp.
           then_do (setName vp n) (ret (Some vp)))
         else throw (translate_error (''\"'' @ n @ ''\" has not declared in this scope'') (where_at a))
     | Some vp \<Rightarrow>
         then_do (setName vp n)
           (andThen (fetch L (lval a) vp) (\<lambda>c. ret (Some c)))))"

section \<open>Blocks\<close>

text \<open>
  The lines of a scope at the insertion point, the value of the last one, and whether control can
  leave the block at its end.
\<close>

definition apply_bb ::
  "('t, 'v, 'p, 'm) llvm \<Rightarrow> ('t, 'v, 'p, 'm) visitor \<Rightarrow> expr list \<Rightarrow>
   ('t, 'v, 'p, 'm, bool \<times> nat option) tcomp" where
  "apply_bb L tr insts =
     andThen (fold_comp (\<lambda>_ e. tr e) None insts) (\<lambda>ll.
     andThen (gets (\<lambda>s. block_insts L (ir s) (insert_block L (ip s)))) (\<lambda>is.
     ret (list_all (\<lambda>i. i = OtherInst) is, ll)))"

definition new_block_here :: "('t, 'v, 'p, 'm) llvm \<Rightarrow> ('t, 'v, 'p, 'm, 'v) tcomp" where
  "new_block_here L =
     andThen (gets (\<lambda>s. block_parent L (ir s) (insert_block L (ip s)))) (\<lambda>f.
     creates (create_block L [] (Some f)))"

definition evaluate_scope ::
  "('t, 'v, 'p, 'm) llvm \<Rightarrow> ('t, 'v, 'p, 'm) visitor \<Rightarrow> nat \<Rightarrow> expr list \<Rightarrow>
   ('t, 'v, 'p, 'm, nat option) tcomp" where
  "evaluate_scope L tr v lines =
     andThen (gets ip) (\<lambda>p.
     andThen (new_block_here L) (\<lambda>nb.
     andThen (new_block_here L) (\<lambda>theblock.
     then_do (set_insert_point (at_end L theblock))
    (andThen (gets this_scope) (\<lambda>prevScope.
     then_do (setScope v)
    (andThen (apply_bb L tr lines) (\<lambda>(non_rb, r).
     then_do (if non_rb then emit_unit L (CreateBr nb) else changes (erase L nb))
    (then_do (setScope prevScope)
    (then_do (set_insert_point p)
    (then_do (emit_unit L (CreateBr theblock))
    (then_do (do_if non_rb (set_insert_point (at_end L nb)))
    (ret r))))))))))))"

section \<open>Functions\<close>

definition parseType ::
  "('t, 'v, 'p, 'm) llvm \<Rightarrow> string \<Rightarrow> locationInfo \<Rightarrow> ('t, 'v, 'p, 'm, 't) tcomp" where
  "parseType L n wh =
     andThen (reads (\<lambda>m. parse_type L m n)) (\<lambda>t.
     case t of
       Some u \<Rightarrow> ret u
     | None \<Rightarrow> throw (translate_error (''Failed to parse type name \"'' @ n @ ''\"'') wh))"

text \<open>The type of the variable that \<open>#typeof\<close> or \<open>#rettypeof\<close> names.\<close>

definition type_of_variable ::
  "('t, 'v, 'p, 'm) llvm \<Rightarrow> string \<Rightarrow> locationInfo \<Rightarrow> ('t, 'v, 'p, 'm, 't option) tcomp" where
  "type_of_variable L n wh =
     andThen (visit_variable L (new_attribute\<lparr>where_at := wh\<rparr>) n) (\<lambda>r.
     andThen (the_or_crash r) (\<lambda>var.
     andThen (getType L var) (\<lambda>ty.
     ret (llvm_type ty))))"

text \<open>The type that the attributes of a parameter ask for, if they do.\<close>

definition expected_type ::
  "('t, 'v, 'p, 'm) llvm \<Rightarrow> locationInfo \<Rightarrow> wrapped \<Rightarrow> ('t, 'v, 'p, 'm, 't option) tcomp" where
  "expected_type L wh x =
     (case sm_find (attributes (fst x)) ''type'' of
        Some n \<Rightarrow> andThen (parseType L n wh) (\<lambda>t. ret (Some t))
      | None \<Rightarrow>
          case sm_find (attributes (fst x)) ''typeof'' of
            Some n \<Rightarrow>
              andThen (type_of_variable L n (where_at (fst x))) (\<lambda>t.
              then_do (assert (t \<noteq> None)) (ret t))
          | None \<Rightarrow> ret None)"

definition expected_ret_type ::
  "('t, 'v, 'p, 'm) llvm \<Rightarrow> attribute \<Rightarrow> ('t, 'v, 'p, 'm, 't option) tcomp" where
  "expected_ret_type L a =
     (case sm_find (attributes a) ''rettype'' of
        Some n \<Rightarrow> andThen (parseType L n (where_at a)) (\<lambda>t. ret (Some t))
      | None \<Rightarrow>
          case sm_find (attributes a) ''rettypeof'' of
            Some n \<Rightarrow> type_of_variable L n (where_at a)
          | None \<Rightarrow> ret None)"

text \<open>A type error with the two types in its message.\<close>

definition throw_types ::
  "('t, 'v, 'p, 'm) llvm \<Rightarrow> string \<Rightarrow> 't \<Rightarrow> string \<Rightarrow> 't \<Rightarrow> string \<Rightarrow> locationInfo \<Rightarrow>
   ('t, 'v, 'p, 'm, 'a) tcomp" where
  "throw_types L pre t mid u post wh =
     andThen (getNameString L t) (\<lambda>ts.
     andThen (getNameString L u) (\<lambda>us.
     throw (translate_error (pre @ ts @ mid @ us @ post) wh)))"

text \<open>
  For each argument whether it is passed, its type in the signature, and the type of the variable
  it is stored in.
\<close>

definition check_argument ::
  "('t, 'v, 'p, 'm) llvm \<Rightarrow> locationInfo \<Rightarrow> nat \<times> nat \<times> 't option \<Rightarrow>
   ('t, 'v, 'p, 'm, bool \<times> 't \<times> 't) tcomp" where
  "check_argument L wh arg =
     (case arg of (i, v, expt) \<Rightarrow>
        andThen (type_of L v) (\<lambda>t.
        andThen (case expt of
            Some e \<Rightarrow>
              if e \<noteq> t then
                throw_types L (''Type mismatch on argument No.'' @ nat_string i @ '': expected \"'')
                  e ''\" but supplied \"'' t ''\"'' wh
              else ret ()
          | None \<Rightarrow> ret ()) (\<lambda>_.
        andThen (getType L v) (\<lambda>ty.
        andThen (isFundamental L ty) (\<lambda>fundamental.
        ret (\<not> is_lazy ty, t, if fundamental then t else pointee L t))))))"

definition signature_types :: "(bool \<times> 't \<times> 't) list \<Rightarrow> 't list" where
  "signature_types xs = map (\<lambda>x. fst (snd x)) (filter fst xs)"

text \<open>
  A new scope for a body: the variable \<open>__self\<close> and the parameters. The arguments of the function
  that are passed are stored into the parameters when there are any (\<open>Some\<close>); in the survey only
  the places are made.
\<close>

definition declare_parameter ::
  "('t, 'v, 'p, 'm) llvm \<Rightarrow> nat \<Rightarrow> string \<times> nat \<times> bool \<times> 't \<times> 't \<Rightarrow> 'v list option \<Rightarrow>
   ('t, 'v, 'p, 'm, 'v list option) tcomp" where
  "declare_parameter L scope par args =
     (case par of (n, v, passed, _, t) \<Rightarrow>
        if passed then
          andThen (emit L (CreateAlloca t n)) (\<lambda>place.
          andThen (copy_with L v (Some place)) (\<lambda>c.
          then_do (set_symbol scope n c)
            (case args of
               None \<Rightarrow> ret None
             | Some [] \<Rightarrow> crash
             | Some (a # rest) \<Rightarrow>
                 andThen (getType L v) (\<lambda>ty.
                 andThen (isFundamental L ty) (\<lambda>fundamental.
                 andThen (if fundamental then ret a else emit L (CreateLoad a)) (\<lambda>w.
                 then_do (emit_unit L (CreateStore w place)) (ret (Some rest))))))))
        else then_do (set_symbol scope n v) (ret args))"

definition enter_body ::
  "('t, 'v, 'p, 'm) llvm \<Rightarrow> expr \<Rightarrow> 'v \<Rightarrow> 'v \<Rightarrow> bool \<Rightarrow> ('t, 'v, 'p, 'm, nat) tcomp" where
  "enter_body L f func entry store_self =
     andThen (new_value L entry f) (\<lambda>scope.
     then_do (setScope scope)
    (then_do (set_insert_point (at_end L entry))
    (andThen (emit L (CreateAlloca (ty_of L func) ''__self'')) (\<lambda>self.
     andThen (new_value L self f) (\<lambda>c.
     then_do (set_symbol scope ''__self'' c)
    (then_do (do_if store_self (emit_unit L (CreateStore func self)))
    (ret scope)))))))"

text \<open>The table of the first line that returns one.\<close>

definition survey_line ::
  "('t, 'v, 'p, 'm) visitor \<Rightarrow> ret_table option \<Rightarrow> expr \<Rightarrow> ('t, 'v, 'p, 'm, ret_table option) tcomp" where
  "survey_line tr table line =
     andThen (tr (set_survey line True)) (\<lambda>r.
     case table of
       Some t \<Rightarrow> ret (Some t)
     | None \<Rightarrow> andThen (the_or_crash r) (\<lambda>v. andThen (deref v) (\<lambda>obj. ret (rtable obj))))"

text \<open>The one type that all \<open>ret\<close> instructions of the surveyed body have.\<close>

fun ret_type_of :: "locationInfo \<Rightarrow> 't option \<Rightarrow> 't inst_view list \<Rightarrow> ('s, 't option) comp" where
  "ret_type_of wh t [] = ret t"
| "ret_type_of wh t (RetInst None # is) = crash"
| "ret_type_of wh t (RetInst (Some u) # is) =
     (if t = Some u then ret_type_of wh t is
      else if t = None then ret_type_of wh (Some u) is
      else throw (translate_error ''All return values must have the same type'' wh))"
| "ret_type_of wh t (_ # is) = ret_type_of wh t is"

definition all_insts :: "('t, 'v, 'p, 'm) llvm \<Rightarrow> 'm \<Rightarrow> 'v \<Rightarrow> 't inst_view list" where
  "all_insts L m f = concat (map (block_insts L m) (fun_blocks L m f))"

text \<open>The first pass over the body, in a function that is thrown away: the type it returns.\<close>

definition survey_body ::
  "('t, 'v, 'p, 'm) llvm \<Rightarrow> ('t, 'v, 'p, 'm) visitor \<Rightarrow> expr \<Rightarrow> nat \<Rightarrow> 't option \<Rightarrow>
   (string \<times> nat \<times> bool \<times> 't \<times> 't) list \<Rightarrow> 't list \<Rightarrow> expr list \<Rightarrow>
   ('t, 'v, 'p, 'm, ret_table option \<times> 't) tcomp" where
  "survey_body L tr f v retst pars sig lines =
     (let wh = where_at (attr f) in
      andThen (need_llvm v) (\<lambda>w.
      andThen (reads (\<lambda>m. value_name L m w)) (\<lambda>name.
      andThen (creates (create_function L
        (fun_ty L (case retst of Some t \<Rightarrow> t | None \<Rightarrow> void_ty L) sig False) name True)) (\<lambda>func.
      andThen (creates (create_block L ''entry_survey'' (Some func))) (\<lambda>entry.
      andThen (enter_body L f func entry False) (\<lambda>scope.
      andThen (fold_comp (\<lambda>args par. declare_parameter L scope par args) None pars) (\<lambda>_.
      andThen (fold_comp (survey_line tr) None lines) (\<lambda>table.
      andThen (reads (\<lambda>m. all_insts L m func)) (\<lambda>is.
      andThen (ret_type_of wh None is) (\<lambda>found.
      then_do (do_if (found = None) (emit_unit L CreateRetVoid))
     (let ret_type = (case found of Some t \<Rightarrow> t | None \<Rightarrow> void_ty L) in
      then_do (case retst of
          Some t \<Rightarrow>
            if t \<noteq> ret_type then
              throw_types L ''Return type doesn't match: expected \"'' t ''\" but supplied \"'' ret_type
                ''\"'' wh
            else ret ()
        | None \<Rightarrow> ret ())
     (then_do (changes (erase L func))
     (ret (table, ret_type))))))))))))))"

text \<open>The second pass, in the function that stays.\<close>

definition emit_body ::
  "('t, 'v, 'p, 'm) llvm \<Rightarrow> ('t, 'v, 'p, 'm) visitor \<Rightarrow> expr \<Rightarrow> nat \<Rightarrow> 't \<Rightarrow>
   (string \<times> nat \<times> bool \<times> 't \<times> 't) list \<Rightarrow> 't list \<Rightarrow> expr list \<Rightarrow> ('t, 'v, 'p, 'm, 'v) tcomp" where
  "emit_body L tr f v ret_type pars sig lines =
     andThen (need_llvm v) (\<lambda>w.
     andThen (reads (\<lambda>m. value_name L m w)) (\<lambda>name.
     andThen (creates (create_function L (fun_ty L ret_type sig False) name True)) (\<lambda>func.
     andThen (creates (create_block L ''entry'' (Some func))) (\<lambda>entry.
     andThen (enter_body L f func entry True) (\<lambda>scope.
     andThen (reads (\<lambda>m. fun_args L m func)) (\<lambda>args.
     andThen (fold_comp (\<lambda>as par. declare_parameter L scope par as) (Some args) pars) (\<lambda>_.
     andThen (each (\<lambda>line. andThen (tr line) (\<lambda>_. ret ())) lines) (\<lambda>_.
     then_do (do_if (kind L ret_type = VoidTy) (emit_unit L CreateRetVoid))
     (ret func)))))))))"

definition evaluate_function ::
  "('t, 'v, 'p, 'm) llvm \<Rightarrow> ('t, 'v, 'p, 'm) visitor \<Rightarrow> nat \<Rightarrow> nat list \<Rightarrow>
   attribute \<Rightarrow> wrapped list \<Rightarrow> expr list \<Rightarrow> ('t, 'v, 'p, 'm, nat option) tcomp" where
  "evaluate_function L tr v arguments a params lines =
     (let f = Function a params lines; wh = where_at a in
      andThen (type_of L v) (\<lambda>vt.
      let required = length (fun_params L (pointee L vt)) in
      then_do (throw_if (required \<noteq> length arguments)
        (translate_error (''The number of arguments doesn't match: required '' @ nat_string required
          @ '' but supplied '' @ nat_string (length arguments)) wh))
     (andThen (map_comp (expected_type L wh) params) (\<lambda>expts.
      andThen (expected_ret_type L a) (\<lambda>retst.
      andThen (map_comp (check_argument L wh) (zip [0..<length arguments] (zip arguments expts))) (\<lambda>types.
      let pars = zip (map snd params) (zip arguments types); sig = signature_types types in
      andThen (gets this_scope) (\<lambda>prevScope.
      andThen (gets ip) (\<lambda>p.
      andThen (survey_body L tr f v retst pars sig lines) (\<lambda>(table, ret_type).
      andThen (if survey a then creates (create_function L (fun_ty L ret_type sig False) [] False)
               else emit_body L tr f v ret_type pars sig lines) (\<lambda>newfunc.
      then_do (setScope prevScope)
     (then_do (set_insert_point p)
     (andThen (new_value L newfunc f) (\<lambda>destv.
      then_do (setRetTable destv table)
      (ret (Some destv)))))))))))))))"

section \<open>evaluate\<close>

text \<open>Other lazy nodes than functions and scopes fail an assertion.\<close>

definition evaluate ::
  "('t, 'v, 'p, 'm) llvm \<Rightarrow> ('t, 'v, 'p, 'm) visitor \<Rightarrow> nat \<Rightarrow> nat list \<Rightarrow>
   ('t, 'v, 'p, 'm, nat option) tcomp" where
  "evaluate L tr v args =
     andThen (getType L v) (\<lambda>ty.
     if is_lazy ty then
       andThen (deref v) (\<lambda>obj.
       case ast_value obj of
         Function a params lines \<Rightarrow> evaluate_function L tr v args a params lines
       | Scope a lines \<Rightarrow> evaluate_scope L tr v lines
       | _ \<Rightarrow> crash)
     else andThen (copy L v) (\<lambda>c. ret (Some c)))"

end
