(* ===== verification/Return_Types.thy ===== *)
theory Return_Types
  imports Evaluator
begin

text \<open>
  The return type that the first pass over a function finds (\<open>evaluator::operator()\<close> for functions): the
  code scans the instructions and compares each \<open>ret\<close> with the type found so far; here the outcome is
  stated over the returned operands alone.
\<close>

section \<open>The operands of the ret instructions\<close>

fun returned :: "'t inst_view list \<Rightarrow> 't option list" where
  "returned [] = []"
| "returned (RetInst t # is) = t # returned is"
| "returned (_ # is) = returned is"

lemma returned_set: "set (returned is) = {t. RetInst t \<in> set is}"
  by (induction "is" rule: returned.induct) auto

lemma returned_append: "returned (xs @ ys) = returned xs @ returned ys"
  by (induction xs rule: returned.induct) simp_all

lemma returned_all_insts:
  "returned (all_insts L m f) = concat (map (\<lambda>b. returned (block_insts L m b)) (fun_blocks L m f))"
proof -
  have "returned (concat xss) = concat (map returned xss)" for xss :: "'a inst_view list list"
    by (induction xss) (simp_all add: returned_append)
  then show ?thesis by (simp add: all_insts_def comp_def)
qed

section \<open>The outcome of the scan\<close>

text \<open>
  \<open>ts\<close> are the operands before the first \<open>ret void\<close>. Reading the operand of a \<open>ret void\<close> is undefined
  behaviour, but two types among \<open>ts\<close> end the scan before that.
\<close>

definition return_type_outcome :: "locationInfo \<Rightarrow> 't option list \<Rightarrow> 't option outcome" where
  "return_type_outcome wh rs =
     (let ts = takeWhile (\<lambda>r. r \<noteq> None) rs in
      if \<exists>t \<in> set ts. \<exists>u \<in> set ts. t \<noteq> u then Throw (translate_error ''All return values must have the same type'' wh)
      else if ts \<noteq> rs then Crash
      else Value (case rs of [] \<Rightarrow> None | t # _ \<Rightarrow> t))"

text \<open>Once a type is known, the scan looks for another one.\<close>

lemma ret_type_of_known:
  "ret_type_of wh (Some t) is s =
     (let ts = takeWhile (\<lambda>r. r \<noteq> None) (returned is) in
      if \<exists>r \<in> set ts. r \<noteq> Some t then Throw (translate_error ''All return values must have the same type'' wh)
      else if ts \<noteq> returned is then Crash else Value (Some t), s)"
proof (induction "is" rule: returned.induct)
  case (2 r "is")
  then show ?case by (cases r) (auto simp: Let_def crash_def throw_def)
qed (simp_all add: ret_def Let_def)

text \<open>
  C40. A function returns one type. The scan over the instructions of the surveyed body finds the
  type of the first \<open>ret\<close> when all of them have it, and none when there is no \<open>ret\<close>. Two types fail
  with the error for them, at the place of the function; a \<open>ret void\<close>, whose operand the code reads
  although it has none, is undefined behaviour unless two types were found before it. The state
  is not changed.
\<close>

theorem return_types_agree:
  "ret_type_of wh None is s = (return_type_outcome wh (returned is), s)"
proof (induction "is" rule: returned.induct)
  case (2 r "is")
  then show ?case
    by (cases r) (auto simp: return_type_outcome_def ret_type_of_known Let_def crash_def)
qed (simp_all add: return_type_outcome_def ret_def)

end
