(* ===== verification/Translator_Ops.thy ===== *)
theory Translator_Ops
  imports Evaluator
begin

text \<open>
  The handlers \<open>apply_op\<close> of \<open>lib/assembly/translator_operators.cpp\<close>: what an operator does with
  its operands' values. An operand is \<open>None\<close> when its visit returned a null pointer. The node of
  the operator is passed along, since the result of most operators keeps it.
\<close>

section \<open>Operands\<close>

definition operand :: "nat option list \<Rightarrow> nat \<Rightarrow> ('t, 'v, 'p, 'm, nat) tcomp" where
  "operand args i = (if i < length args then the_or_crash (args ! i) else crash)"

definition operand_llvm :: "nat option list \<Rightarrow> nat \<Rightarrow> ('t, 'v, 'p, 'm, 'v) tcomp" where
  "operand_llvm args i = andThen (operand args i) need_llvm"

section \<open>Arithmetic and comparisons\<close>

text \<open>Whether no operand is a \<open>double\<close>; the search stops at the first.\<close>

fun none_double :: "('t, 'v, 'p, 'm) llvm \<Rightarrow> nat option list \<Rightarrow> ('t, 'v, 'p, 'm, bool) tcomp" where
  "none_double L [] = ret True"
| "none_double L (x # xs) =
     andThen (the_or_crash x) (\<lambda>v.
     andThen (type_of L v) (\<lambda>t.
     if kind L t = DoubleTy then ret False else none_double L xs))"

definition apply_binary ::
  "('t, 'v, 'p, 'm) llvm \<Rightarrow> bin_instr \<Rightarrow> expr \<Rightarrow> nat option list \<Rightarrow> ('t, 'v, 'p, 'm, nat option) tcomp" where
  "apply_binary L i e args =
     andThen (operand_llvm args 0) (\<lambda>x.
     andThen (operand_llvm args 1) (\<lambda>y.
     andThen (emit L (CreateBin i x y)) (\<lambda>w.
     andThen (new_value L w e) (\<lambda>r. ret (Some r)))))"

definition apply_arith ::
  "('t, 'v, 'p, 'm) llvm \<Rightarrow> bin_instr \<Rightarrow> bin_instr \<Rightarrow> expr \<Rightarrow> nat option list \<Rightarrow>
   ('t, 'v, 'p, 'm, nat option) tcomp" where
  "apply_arith L int_instr fp_instr e args =
     andThen (none_double L args) (\<lambda>ints.
     apply_binary L (if ints then int_instr else fp_instr) e args)"

text \<open>Both operands are compared with the null of \<open>i1\<close> first.\<close>

definition apply_logical ::
  "('t, 'v, 'p, 'm) llvm \<Rightarrow> bin_instr \<Rightarrow> expr \<Rightarrow> nat option list \<Rightarrow> ('t, 'v, 'p, 'm, nat option) tcomp" where
  "apply_logical L i e args =
     (let zero1 = null_value L (int_ty L 1) in
      andThen (operand_llvm args 0) (\<lambda>x.
      andThen (operand_llvm args 1) (\<lambda>y.
      andThen (emit L (CreateBin CreateICmpNE x zero1)) (\<lambda>p.
      andThen (emit L (CreateBin CreateICmpNE y zero1)) (\<lambda>q.
      andThen (emit L (CreateBin i p q)) (\<lambda>w.
      andThen (new_value L w e) (\<lambda>r. ret (Some r))))))))"

definition apply_pow ::
  "('t, 'v, 'p, 'm) llvm \<Rightarrow> expr \<Rightarrow> nat option list \<Rightarrow> ('t, 'v, 'p, 'm, nat option) tcomp" where
  "apply_pow L e args =
     then_do (link_library ''m'')
       (andThen (operand args 0) (\<lambda>x.
        andThen (type_of L x) (\<lambda>tx.
        andThen (need_llvm x) (\<lambda>v.
        andThen (if kind L tx = DoubleTy then ret v else emit L (CreateSIToFP v (double_ty L))) (\<lambda>lv.
        andThen (operand args 1) (\<lambda>y.
        andThen (type_of L y) (\<lambda>ty.
        let integer = (kind L ty = IntegerTy) in
        andThen (creates (intrinsic_decl L (if integer then Powi else Pow_intrinsic) [ty_of L lv])) (\<lambda>f.
        andThen (need_llvm y) (\<lambda>w.
        andThen (emit L (CreateCall f [lv, w])) (\<lambda>res.
        andThen (if integer then emit L (CreateFPToSI res ty) else ret res) (\<lambda>out.
        andThen (new_value L out e) (\<lambda>r. ret (Some r)))))))))))))"

definition apply_lnot ::
  "('t, 'v, 'p, 'm) llvm \<Rightarrow> expr \<Rightarrow> nat option list \<Rightarrow> ('t, 'v, 'p, 'm, nat option) tcomp" where
  "apply_lnot L e args =
     andThen (operand_llvm args 0) (\<lambda>x.
     andThen (emit L (CreateBin CreateICmpNE x (null_value L (int_ty L 1)))) (\<lambda>p.
     andThen (emit L (CreateBin CreateXor p (i32 L 1))) (\<lambda>w.
     andThen (new_value L w e) (\<lambda>r. ret (Some r)))))"

definition apply_inot ::
  "('t, 'v, 'p, 'm) llvm \<Rightarrow> expr \<Rightarrow> nat option list \<Rightarrow> ('t, 'v, 'p, 'm, nat option) tcomp" where
  "apply_inot L e args =
     andThen (operand_llvm args 0) (\<lambda>x.
     andThen (emit L (CreateBin CreateXor x (i32 L 1))) (\<lambda>w.
     andThen (new_value L w e) (\<lambda>r. ret (Some r))))"

text \<open>\<open>|>\<close>: the result is void, with the table of the members of what is returned.\<close>

definition apply_ret ::
  "('t, 'v, 'p, 'm) llvm \<Rightarrow> nat option list \<Rightarrow> ('t, 'v, 'p, 'm, nat option) tcomp" where
  "apply_ret L args =
     andThen (operand args 0) (\<lambda>x.
     andThen (getLLVM x) (\<lambda>v.
     then_do (emit_unit L (CreateRet v))
       (andThen (alloc void_value) (\<lambda>r.
        andThen (generateRetTable L x) (\<lambda>t.
        then_do (setRetTable r (Some t)) (ret (Some r)))))))"

section \<open>Assignment\<close>

text \<open>
  A target without an LLVM value is new: the place of a variable is made here, and the value becomes
  constant unless the variable has the attribute \<open>mut\<close>. The argument \<open>target\<close> is the node on the
  left.
\<close>

definition declare_variable ::
  "('t, 'v, 'p, 'm) env \<Rightarrow> expr \<Rightarrow> string \<Rightarrow> nat \<Rightarrow> 'v \<Rightarrow> ('t, 'v, 'p, 'm, 'v) tcomp" where
  "declare_variable C target n src rval =
     (let L = lib C in
      case unpack_variable target of
        None \<Rightarrow> crash
      | Some va \<Rightarrow>
          andThen (getType L src) (\<lambda>ty.
          andThen (isFundamental L ty) (\<lambda>fundamental.
          let thety = (if fundamental then ty_of L rval else pointee L (ty_of L rval)) in
          andThen (if sm_find (attributes (fst va)) ''heap'' \<noteq> None then createGCMalloc C thety n
                   else emit L (CreateAlloca thety n)) (\<lambda>place.
          then_do (set_const L src (sm_find (attributes (fst va)) ''mut'' = None))
            (ret place)))))"

definition new_place ::
  "('t, 'v, 'p, 'm) env \<Rightarrow> expr \<Rightarrow> locationInfo \<Rightarrow> nat option \<Rightarrow> string \<Rightarrow> nat \<Rightarrow> 'v \<Rightarrow>
   ('t, 'v, 'p, 'm, 'v) tcomp" where
  "new_place C target wh par n src rval =
     (case par of
        None \<Rightarrow> declare_variable C target n src rval
      | Some p \<Rightarrow>
          andThen (type_of (lib C) p) (\<lambda>t.
          if kind (lib C) t = StructTy then
            throw (translate_error ''Variadic structure: This feature is not supported yet'' wh)
          else if kind (lib C) t = ArrayTy then
            throw (translate_error ''Variadic array: This feature is not supported yet'' wh)
          else crash))"

definition apply_assign ::
  "('t, 'v, 'p, 'm) env \<Rightarrow> expr \<Rightarrow> locationInfo \<Rightarrow> nat option list \<Rightarrow> ('t, 'v, 'p, 'm, nat option) tcomp" where
  "apply_assign C target wh args =
     (let L = lib C in
      andThen (operand args 0) (\<lambda>dest.
      andThen (operand args 1) (\<lambda>src.
      andThen (deref dest) (\<lambda>d.
      andThen (need_llvm src) (\<lambda>rval.
      then_do (throw_if (kind L (ty_of L rval) = VoidTy)
        (translate_error ''Cannot assign the value of void type'' wh))
        (andThen (case llvm_value d of
            None \<Rightarrow> new_place C target wh (parent d) (vname d) src rval
          | Some v \<Rightarrow>
              andThen (getType L dest) (\<lambda>ty.
              then_do (throw_if (is_const ty)
                (translate_error ''Assignment of read-only variable'' wh)) (ret v))) (\<lambda>place.
         andThen (copyFull L src dest (vname d) (Some place) None) (\<lambda>copied.
         if copied then ret (Some src)
         else throw_types L ''Cannot assign to the value of incompatible type (lval: '' (ty_of L place)
           '', rval: '' (ty_of L rval) '')'' wh))))))))"

section \<open>Elements and members\<close>

text \<open>An index the compiler knows: the element is one of the symbols of the array.\<close>

definition element_at ::
  "('t, 'v, 'p, 'm) llvm \<Rightarrow> attribute \<Rightarrow> nat \<Rightarrow> 'v \<Rightarrow> nat \<Rightarrow> ('t, 'v, 'p, 'm, nat option) tcomp" where
  "element_at L a arr place n =
     (let aindex = min n (2 ^ 32 - 1); istr = nat_string aindex in
      andThen (deref arr) (\<lambda>obj.
      case sm_find (symbols obj) istr of
        None \<Rightarrow> throw (translate_error (''Index '' @ istr @ '' is out of range.'') (where_at a))
      | Some ep \<Rightarrow>
          andThen (getType L ep) (\<lambda>ty.
          then_do (do_if (\<not> is_lazy ty)
            (andThen (emit L (CreateInBoundsGEP (pointee L (ty_of L place)) place [i32 L 0, i32 L aindex]))
              (\<lambda>p. setLLVM L ep (Some p))))
            (then_do (setName ep istr)
              (andThen (fetch L (lval a) ep) (\<lambda>r. ret (Some r)))))))"

text \<open>An index computed at run time, into an array or through a pointer.\<close>

definition element_address ::
  "('t, 'v, 'p, 'm) llvm \<Rightarrow> locationInfo \<Rightarrow> nat \<Rightarrow> 'v \<Rightarrow> 'v \<Rightarrow> ('t, 'v, 'p, 'm, 'v) tcomp" where
  "element_address L wh arr place idx =
     (let t = pointee L (ty_of L place) in
      if kind L t = ArrayTy then
        andThen (deref arr) (\<lambda>obj.
        case symbols obj of
          [] \<Rightarrow> crash
        | (k, x) # _ \<Rightarrow>
            andThen (getType L x) (\<lambda>ty.
            then_do (throw_if (is_lazy ty) (translate_error
              ''Getting value from an array which contains lazy value with an index of non-constant value'' wh))
              (emit L (CreateInBoundsGEP t place [i32 L 0, idx]))))
      else if \<not> indexed_type L t idx then
        andThen (getNameString L (ty_of L place)) (\<lambda>s.
        throw (translate_error (''Cannot get element from incompatible type '' @ s) wh))
      else emit L (CreateGEP t place [idx]))"

definition apply_at ::
  "('t, 'v, 'p, 'm) llvm \<Rightarrow> expr \<Rightarrow> attribute \<Rightarrow> nat option list \<Rightarrow> ('t, 'v, 'p, 'm, nat option) tcomp" where
  "apply_at L e a args =
     andThen (operand_llvm args 1) (\<lambda>r.
     andThen (if kind L (ty_of L r) = PointerTy then emit L (CreateLoad r) else ret r) (\<lambda>idx.
     andThen (operand args 0) (\<lambda>arr.
     andThen (getLLVM arr) (\<lambda>lv.
     if kind L (ty_of L idx) \<noteq> IntegerTy then
       andThen (getNameString L (ty_of L idx)) (\<lambda>s.
       throw (translate_error (''Array's index must be integer, not '' @ s) (where_at a)))
     else
       andThen (the_or_crash lv) (\<lambda>place.
       if kind L (ty_of L place) \<noteq> PointerTy then
         andThen (getNameString L (ty_of L place)) (\<lambda>s.
         throw (translate_error (''Cannot get element from non-pointer type '' @ s) (where_at a)))
       else
         case (const_value L r, kind L (pointee L (ty_of L place))) of
           (Some n, ArrayTy) \<Rightarrow> element_at L a arr place n
         | _ \<Rightarrow>
             andThen (element_address L (where_at a) arr place idx) (\<lambda>ep.
             andThen (if lval a \<or> kind L (pointee L (ty_of L ep)) \<in> {StructTy, ArrayTy} then ret ep
                      else emit L (CreateLoad ep)) (\<lambda>w.
             andThen (new_value L w e) (\<lambda>x. ret (Some x)))))))))"

text \<open>Reading \<open>fields()[id]\<close> makes an entry 0 when there is none.\<close>

definition field_index :: "nat \<Rightarrow> string \<Rightarrow> ('t, 'v, 'p, 'm, uint32) tcomp" where
  "field_index a k =
     andThen (deref a) (\<lambda>obj.
     case sm_find (field_ids obj) k of
       Some i \<Rightarrow> ret i
     | None \<Rightarrow> then_do (set_field a k 0) (ret 0))"

definition member_place ::
  "('t, 'v, 'p, 'm) llvm \<Rightarrow> nat \<Rightarrow> 'v \<Rightarrow> string \<Rightarrow> nat \<Rightarrow> ('t, 'v, 'p, 'm, unit) tcomp" where
  "member_place L str place k elm =
     andThen (getType L elm) (\<lambda>ty.
     do_if (\<not> is_lazy ty)
       (andThen (field_index str k) (\<lambda>i.
        andThen (emit L (CreateStructGEP (pointee L (ty_of L place)) place i)) (\<lambda>p.
        setLLVM L elm (Some p)))))"

definition apply_dot ::
  "('t, 'v, 'p, 'm) llvm \<Rightarrow> expr \<Rightarrow> attribute \<Rightarrow> nat option list \<Rightarrow> ('t, 'v, 'p, 'm, nat option) tcomp" where
  "apply_dot L key a args =
     andThen (operand args 0) (\<lambda>str.
     andThen (getLLVM str) (\<lambda>lv.
     case unpack_struct_key key of
       None \<Rightarrow> crash
     | Some (_, k) \<Rightarrow>
         andThen (the_or_crash lv) (\<lambda>v.
         if kind L (ty_of L v) \<noteq> PointerTy then
           andThen (getNameString L (ty_of L v)) (\<lambda>s.
           throw (translate_error (''Cannot get \"'' @ k @ ''\" from non-pointer type '' @ s) (where_at a)))
         else
           andThen (if kind L (pointee L (ty_of L v)) = PointerTy then emit L (CreateLoad v) else ret v) (\<lambda>place.
           if kind L (pointee L (ty_of L place)) \<noteq> StructTy then
             andThen (getNameString L (ty_of L place)) (\<lambda>s.
             throw (translate_error (''Cannot get \"'' @ k @ ''\" from non-structure type '' @ s) (where_at a)))
           else
             andThen (deref str) (\<lambda>obj.
             case sm_find (symbols obj) k of
               None \<Rightarrow>
                 throw (translate_error (''No member named \"'' @ k @ ''\" in the structure'') (where_at a))
             | Some elm \<Rightarrow>
                 then_do (member_place L str place k elm)
                   (then_do (setName elm k)
                     (andThen (fetch L (lval a) elm) (\<lambda>r. ret (Some r)))))))))"

text \<open>
  \<open>.:\<close> and \<open>.=\<close> are the member access of a callee: a \<open>dot\<close> with a new attribute that only has the
  location.
\<close>

definition apply_odot ::
  "('t, 'v, 'p, 'm) llvm \<Rightarrow> expr \<Rightarrow> attribute \<Rightarrow> nat option list \<Rightarrow> ('t, 'v, 'p, 'm, nat option) tcomp" where
  "apply_odot L key a args =
     (if \<not> to_call a then
        throw (translate_error ''Objective dot operator without call operator'' (where_at a))
      else apply_dot L key (new_attribute\<lparr>where_at := where_at a\<rparr>) args)"

end
