(* ===== verification/Translator_Calls.thy ===== *)
theory Translator_Calls
  imports Translator_Ops
begin

text \<open>
  The operators that translate more code: the conditional operator and calls, both from
  \<open>lib/assembly/translator_operators.cpp\<close>, and the handlers of operator nodes in
  \<open>include/scopion/assembly/translator.hpp\<close>, which visit the operands and look for an operator that
  a structure defines itself.
\<close>

section \<open>Conditional operator\<close>

text \<open>One alternative that is a scope, in its own block; whether control reaches the merge.\<close>

definition cond_block ::
  "('t, 'v, 'p, 'm) llvm \<Rightarrow> ('t, 'v, 'p, 'm) visitor \<Rightarrow> 'v \<Rightarrow> 'v \<Rightarrow> nat \<Rightarrow> expr list \<Rightarrow>
   ('t, 'v, 'p, 'm, bool) tcomp" where
  "cond_block L tr bb mergebb v lines =
     then_do (set_insert_point (at_end L bb))
       (then_do (setScope v)
         (andThen (apply_bb L tr lines) (\<lambda>(non_rb, _).
          then_do (do_if non_rb (emit_unit L (CreateBr mergebb))) (ret non_rb))))"

definition cond_scopes ::
  "('t, 'v, 'p, 'm) llvm \<Rightarrow> ('t, 'v, 'p, 'm) visitor \<Rightarrow> nat \<Rightarrow> nat \<Rightarrow> nat \<Rightarrow>
   ('t, 'v, 'p, 'm, nat option) tcomp" where
  "cond_scopes L tr c x y =
     andThen (new_block_here L) (\<lambda>thenbb.
     andThen (new_block_here L) (\<lambda>elsebb.
     andThen (gets ip) (\<lambda>p.
     andThen (gets this_scope) (\<lambda>prevScope.
     andThen (new_block_here L) (\<lambda>mergebb.
     andThen (deref x) (\<lambda>xobj.
     andThen (deref y) (\<lambda>yobj.
     case (unpack_scope (ast_value xobj), unpack_scope (ast_value yobj)) of
       (Some (_, xlines), Some (_, ylines)) \<Rightarrow>
         andThen (cond_block L tr thenbb mergebb x xlines) (\<lambda>merged1.
         andThen (cond_block L tr elsebb mergebb y ylines) (\<lambda>merged2.
         then_do (setScope prevScope)
           (then_do (do_if (\<not> (merged1 \<or> merged2)) (changes (erase L mergebb)))
             (then_do (set_insert_point p)
               (andThen (need_llvm c) (\<lambda>v.
                then_do (emit_unit L (CreateCondBr v thenbb elsebb))
                  (then_do (do_if (merged1 \<or> merged2) (set_insert_point (at_end L mergebb)))
                    (andThen (alloc void_value) (\<lambda>r. ret (Some r))))))))))
     | _ \<Rightarrow> crash)))))))"

text \<open>An alternative that is a value: stored to the place both alternatives share.\<close>

definition cond_store ::
  "('t, 'v, 'p, 'm) llvm \<Rightarrow> 'v \<Rightarrow> 'v \<Rightarrow> 'v \<Rightarrow> nat option \<Rightarrow> ('t, 'v, 'p, 'm, unit) tcomp" where
  "cond_store L bb mergebb place v =
     then_do (set_insert_point (at_end L bb))
       (andThen (the_or_crash v) (\<lambda>a.
        andThen (need_llvm a) (\<lambda>w.
        then_do (emit_unit L (CreateStore w place))
          (emit_unit L (CreateBr mergebb)))))"

definition cond_values ::
  "('t, 'v, 'p, 'm) llvm \<Rightarrow> ('t, 'v, 'p, 'm) visitor \<Rightarrow> expr \<Rightarrow> attribute \<Rightarrow> expr \<Rightarrow> expr \<Rightarrow>
   nat \<Rightarrow> nat \<Rightarrow> nat \<Rightarrow> 't \<Rightarrow> ('t, 'v, 'p, 'm, nat option) tcomp" where
  "cond_values L tr e a then_ast else_ast c x y t =
     andThen (getType L x) (\<lambda>xty.
     andThen (if is_lazy xty then ret True else andThen (getType L y) (\<lambda>yty. ret (is_lazy yty))) (\<lambda>lazy.
     then_do (throw_if lazy
       (translate_error ''Conditional operator with lazy value is currently not supported'' (where_at a)))
       (andThen (deref x) (\<lambda>xobj.
        andThen (deref y) (\<lambda>yobj.
        then_do (throw_if (map fst (field_ids xobj) \<noteq> map fst (field_ids yobj))
          (translate_error ''Conditional operator with different fields'' (where_at a)))
          (andThen (gets ip) (\<lambda>p.
           andThen (emit L (CreateAlloca (if lval a then ptr_to L t else t) [])) (\<lambda>destlv.
           andThen (new_block_here L) (\<lambda>thenbb.
           andThen (new_block_here L) (\<lambda>elsebb.
           andThen (new_block_here L) (\<lambda>mergebb.
           andThen (if lval a then tr (set_lval then_ast True) else ret (Some x)) (\<lambda>thenv.
           andThen (if lval a then tr (set_lval else_ast True) else ret (Some y)) (\<lambda>elsev.
           then_do (cond_store L thenbb mergebb destlv thenv)
             (then_do (cond_store L elsebb mergebb destlv elsev)
               (then_do (set_insert_point p)
                 (andThen (need_llvm c) (\<lambda>v.
                  then_do (emit_unit L (CreateCondBr v thenbb elsebb))
                    (then_do (set_insert_point (at_end L mergebb))
                      (andThen (emit L (CreateLoad destlv)) (\<lambda>w.
                       andThen (new_value L w e) (\<lambda>r.
                       andThen (deref x) (\<lambda>obj.
                       then_do (applyRetTable r (symbols obj, field_ids obj))
                         (ret (Some r))))))))))))))))))))))))"

definition apply_cond ::
  "('t, 'v, 'p, 'm) llvm \<Rightarrow> ('t, 'v, 'p, 'm) visitor \<Rightarrow> expr \<Rightarrow> attribute \<Rightarrow> expr \<Rightarrow> expr \<Rightarrow>
   nat option list \<Rightarrow> ('t, 'v, 'p, 'm, nat option) tcomp" where
  "apply_cond L tr e a then_ast else_ast args =
     andThen (operand args 0) (\<lambda>c.
     andThen (getType L c) (\<lambda>cty.
     then_do (throw_if (is_lazy cty)
       (translate_error ''Conditional operator with lazy value is not supported'' (where_at a)))
       (andThen (operand args 1) (\<lambda>x.
        andThen (getType L x) (\<lambda>xty.
        andThen (operand args 2) (\<lambda>y.
        andThen (getType L y) (\<lambda>yty.
        if llvm_type xty \<noteq> llvm_type yty then
          andThen (the_or_crash (llvm_type xty)) (\<lambda>t.
          andThen (the_or_crash (llvm_type yty)) (\<lambda>u.
          throw_types L ''Conditional operator with incompatible value types (lhs: '' t '', rhs: '' u
            '')'' (where_at a)))
        else
          andThen (the_or_crash (llvm_type xty)) (\<lambda>t.
          if kind L t = LabelTy then cond_scopes L tr c x y
          else cond_values L tr e a then_ast else_ast c x y t)))))))) "

section \<open>Calls\<close>

text \<open>The object of \<open>x.:f(...)\<close> and of \<open>x.=f(...)\<close>, and whether it is assigned the result.\<close>

fun object_of :: "expr \<Rightarrow> (expr \<times> bool) option" where
  "object_of (BinaryOp ODot a x key) = Some (x, False)"
| "object_of (BinaryOp ADot a x key) = Some (x, True)"
| "object_of e = None"

text \<open>The arguments of a function that is already compiled.\<close>

definition check_call_arg ::
  "('t, 'v, 'p, 'm) llvm \<Rightarrow> ('t, 'v, 'p, 'm) visitor \<Rightarrow> locationInfo \<Rightarrow> 't \<Rightarrow> nat \<times> expr \<Rightarrow>
   ('t, 'v, 'p, 'm, 'v option) tcomp" where
  "check_call_arg L tr wh functy ie =
     (case ie of (i, arg) \<Rightarrow>
        andThen (tr arg) (\<lambda>r.
        andThen (the_or_crash r) (\<lambda>rv.
        andThen (getType L rv) (\<lambda>ty.
        if is_lazy ty then
          throw (translate_error ''Cannot pass a lazy value to c-style functions'' wh)
        else if \<not> fun_vararg L functy \<and> Some (fun_params L functy ! i) \<noteq> llvm_type ty then
          andThen (the_or_crash (llvm_type ty)) (\<lambda>t.
          throw_types L (''Type mismatch on argument No.'' @ nat_string i @ '': expected \"'')
            (fun_params L functy ! i) ''\" but supplied \"'' t ''\"'' wh)
        else getLLVM rv))))"

definition call_compiled ::
  "('t, 'v, 'p, 'm) llvm \<Rightarrow> ('t, 'v, 'p, 'm) visitor \<Rightarrow> locationInfo \<Rightarrow> bool \<Rightarrow> nat \<Rightarrow> expr list \<Rightarrow>
   ('t, 'v, 'p, 'm, 'v option \<times> 'v option list \<times> ret_table option) tcomp" where
  "call_compiled L tr wh isodot callee arglist =
     andThen (need_llvm callee) (\<lambda>f.
     let t = ty_of L f in
     if kind L t \<noteq> PointerTy then
       andThen (getNameString L t) (\<lambda>s.
       throw (translate_error (''Cannot call a non-pointer value (type: '' @ s @ '')'') wh))
     else if kind L (pointee L t) \<noteq> FunctionTy then
       andThen (getNameString L t) (\<lambda>s.
       throw (translate_error
         (''Cannot call a value which is not a function pointer  (type: '' @ s @ '')'') wh))
     else
       let functy = pointee L t; required = length (fun_params L functy) in
       then_do (throw_if (required \<noteq> length arglist \<and> \<not> fun_vararg L functy)
         (translate_error (''The number of arguments doesn't match: required '' @ nat_string required
           @ '' but supplied '' @ nat_string (length arglist)) wh))
         (andThen (map_comp (check_call_arg L tr wh functy) (indexed arglist)) (\<lambda>vals.
          andThen (if isodot then
              andThen (deref callee) (\<lambda>obj.
              andThen (the_or_crash (parent obj)) (\<lambda>p.
              andThen (getLLVM p) (\<lambda>v. ret [v])))
            else ret []) (\<lambda>self.
          ret (Some f, vals @ self, None)))))"

text \<open>The arguments of a function that is compiled for them: lazy ones are not passed.\<close>

definition visit_arg ::
  "('t, 'v, 'p, 'm) llvm \<Rightarrow> ('t, 'v, 'p, 'm) visitor \<Rightarrow> expr \<Rightarrow>
   ('t, 'v, 'p, 'm, nat \<times> 'v option list) tcomp" where
  "visit_arg L tr e =
     andThen (tr e) (\<lambda>r.
     andThen (the_or_crash r) (\<lambda>rv.
     andThen (getType L rv) (\<lambda>ty.
     if is_lazy ty then ret (rv, []) else andThen (getLLVM rv) (\<lambda>v. ret (rv, [v])))))"

definition call_lazy ::
  "('t, 'v, 'p, 'm) llvm \<Rightarrow> ('t, 'v, 'p, 'm) visitor \<Rightarrow> expr option \<Rightarrow> nat \<Rightarrow> expr list \<Rightarrow>
   ('t, 'v, 'p, 'm, 'v option \<times> 'v option list \<times> ret_table option) tcomp" where
  "call_lazy L tr object callee arglist =
     andThen (map_comp (visit_arg L tr) arglist) (\<lambda>vary.
     andThen (case object of
         None \<Rightarrow> ret []
       | Some x \<Rightarrow>
           andThen (tr x) (\<lambda>r.
           andThen (the_or_crash r) (\<lambda>ob.
           andThen (getLLVM ob) (\<lambda>v. ret [(ob, [v])])))) (\<lambda>self.
     andThen (evaluate L tr callee (map fst (vary @ self))) (\<lambda>r.
     andThen (the_or_crash r) (\<lambda>v.
     andThen (deref v) (\<lambda>obj.
     ret (llvm_value obj, concat (map snd (vary @ self)), rtable obj))))))"

text \<open>The call itself; a table of the callee describes the members of the result.\<close>

definition emit_call ::
  "('t, 'v, 'p, 'm) llvm \<Rightarrow> expr \<Rightarrow> 'v option \<times> 'v option list \<times> ret_table option \<Rightarrow>
   ('t, 'v, 'p, 'm, nat) tcomp" where
  "emit_call L e call =
     (case call of (tocall, vals, table) \<Rightarrow>
        andThen (the_or_crash tocall) (\<lambda>f.
        andThen (map_comp the_or_crash vals) (\<lambda>args.
        andThen (emit L (CreateCall f args)) (\<lambda>w.
        andThen (new_value L w e) (\<lambda>destv.
        then_do (case table of Some t \<Rightarrow> applyRetTable destv t | None \<Rightarrow> ret ())
          (ret destv))))))"

definition call_scope ::
  "('t, 'v, 'p, 'm) llvm \<Rightarrow> ('t, 'v, 'p, 'm) visitor \<Rightarrow> locationInfo \<Rightarrow> bool \<Rightarrow> nat \<Rightarrow> expr \<Rightarrow>
   ('t, 'v, 'p, 'm, nat option) tcomp" where
  "call_scope L tr wh isodot callee arglist =
     (if isodot then throw (translate_error ''Calling scope with odot operator is not allowed'' wh)
      else
        andThen (the_or_crash (unpack_arglist arglist)) (\<lambda>(_, xs).
        then_do (throw_if (xs \<noteq> [])
          (translate_error ''Calling scope with arguments is not allowed'' wh))
          (evaluate L tr callee [])))"

text \<open>
  \<open>x.=f(...)\<close> assigns the result to \<open>x\<close>, by an assignment whose operands are dummies.
\<close>

definition reassign ::
  "('t, 'v, 'p, 'm) env \<Rightarrow> ('t, 'v, 'p, 'm) visitor \<Rightarrow> expr \<Rightarrow> locationInfo \<Rightarrow> expr \<Rightarrow> nat \<Rightarrow>
   ('t, 'v, 'p, 'm, nat option) tcomp" where
  "reassign C tr e wh x destv =
     andThen (tr (set_lval x True)) (\<lambda>target.
     apply_assign C e wh [target, Some destv])"

definition apply_call ::
  "('t, 'v, 'p, 'm) env \<Rightarrow> ('t, 'v, 'p, 'm) visitor \<Rightarrow> expr \<Rightarrow> attribute \<Rightarrow> expr \<Rightarrow> expr \<Rightarrow>
   nat option list \<Rightarrow> ('t, 'v, 'p, 'm, nat option) tcomp" where
  "apply_call C tr e a callee_ast arglist args =
     (let L = lib C; wh = where_at a; object = object_of callee_ast; isodot = object \<noteq> None in
      andThen (operand args 1) (\<lambda>al.
      andThen (getType L al) (\<lambda>alty.
      then_do (assert (isVoid L alty))
        (andThen (operand args 0) (\<lambda>callee.
         andThen (type_of L callee) (\<lambda>t.
         if kind L t = LabelTy then call_scope L tr wh isodot callee arglist
         else
           andThen (the_or_crash (unpack_arglist arglist)) (\<lambda>(_, xs).
           andThen (getType L callee) (\<lambda>ty.
           andThen (if is_lazy ty then call_lazy L tr (map_option fst object) callee xs
                    else call_compiled L tr wh isodot callee xs) (\<lambda>call.
           andThen (emit_call L e call) (\<lambda>destv.
           case object of
             Some (x, True) \<Rightarrow> if survey a then ret (Some destv) else reassign C tr e wh x destv
           | _ \<Rightarrow> ret (Some destv)))))))))))"

section \<open>apply_op\<close>

definition apply_op ::
  "('t, 'v, 'p, 'm) env \<Rightarrow> ('t, 'v, 'p, 'm) visitor \<Rightarrow> expr \<Rightarrow> nat option list \<Rightarrow>
   ('t, 'v, 'p, 'm, nat option) tcomp" where
  "apply_op C tr e args =
     (let L = lib C in
      case e of
        BinaryOp op a x y \<Rightarrow>
          (case op of
             Add \<Rightarrow> apply_arith L CreateAdd CreateFAdd e args
           | Sub \<Rightarrow> apply_arith L CreateSub CreateFSub e args
           | Pow \<Rightarrow> apply_pow L e args
           | Mul \<Rightarrow> apply_arith L CreateMul CreateFMul e args
           | Div \<Rightarrow> apply_arith L CreateSDiv CreateFDiv e args
           | Rem \<Rightarrow> apply_arith L CreateSRem CreateFRem e args
           | Shl \<Rightarrow> apply_binary L CreateShl e args
           | Shr \<Rightarrow> apply_binary L CreateLShr e args
           | IAnd \<Rightarrow> apply_binary L CreateAnd e args
           | IOr \<Rightarrow> apply_binary L CreateOr e args
           | IXor \<Rightarrow> apply_binary L CreateXor e args
           | LAnd \<Rightarrow> apply_logical L CreateAnd e args
           | LOr \<Rightarrow> apply_logical L CreateOr e args
           | Eeq \<Rightarrow> apply_binary L CreateICmpEQ e args
           | Neq \<Rightarrow> apply_binary L CreateICmpNE e args
           | Gt \<Rightarrow> apply_binary L CreateICmpSGT e args
           | Lt \<Rightarrow> apply_binary L CreateICmpSLT e args
           | Gtq \<Rightarrow> apply_binary L CreateICmpSGE e args
           | Ltq \<Rightarrow> apply_binary L CreateICmpSLE e args
           | Assign \<Rightarrow> apply_assign C x (where_at a) args
           | Call \<Rightarrow> apply_call C tr e a x y args
           | At \<Rightarrow> apply_at L e a args
           | Dot \<Rightarrow> apply_dot L y a args
           | ODot \<Rightarrow> apply_odot L y a args
           | ADot \<Rightarrow> apply_odot L y a args)
      | SingleOp op a x \<Rightarrow>
          (case op of
             Ret \<Rightarrow> apply_ret L args
           | LNot \<Rightarrow> apply_lnot L e args
           | INot \<Rightarrow> apply_inot L e args
           | Inc \<Rightarrow> crash
           | Dec \<Rightarrow> crash)
      | TernaryOp op a x y z \<Rightarrow> apply_cond L tr e a y z args
      | _ \<Rightarrow> crash)"

section \<open>Operator nodes\<close>

definition op_str :: "expr \<Rightarrow> string" where
  "op_str e =
     (case e of
        BinaryOp op _ _ _ \<Rightarrow> binop_str op
      | SingleOp op _ _ \<Rightarrow> sinop_str op
      | TernaryOp op _ _ _ _ \<Rightarrow> ternop_str op
      | _ \<Rightarrow> [])"

definition op_is_customizable :: "expr \<Rightarrow> bool" where
  "op_is_customizable e =
     (case e of
        BinaryOp op _ _ _ \<Rightarrow> binop_is_customizable op
      | SingleOp op _ _ \<Rightarrow> sinop_is_customizable op
      | TernaryOp op _ _ _ _ \<Rightarrow> ternop_is_customizable op
      | _ \<Rightarrow> False)"

text \<open>An operand of a structure's own operator; an argument list stands for its elements.\<close>

definition operand_exprs :: "expr \<Rightarrow> expr list" where
  "operand_exprs x = (case unpack_arglist x of Some (_, xs) \<Rightarrow> xs | None \<Rightarrow> [x])"

definition visit_own_operator ::
  "('t, 'v, 'p, 'm) llvm \<Rightarrow> ('t, 'v, 'p, 'm) visitor \<Rightarrow> expr \<Rightarrow> nat \<Rightarrow> expr list \<Rightarrow>
   ('t, 'v, 'p, 'm, nat option) tcomp" where
  "visit_own_operator L tr e target rest =
     andThen (map_comp (visit_arg L tr) (concat (map operand_exprs rest))) (\<lambda>vary.
     andThen (deref target) (\<lambda>obj.
     case sm_find (symbols obj) (op_str e) of
       None \<Rightarrow>
         throw (translate_error (''no operator '' @ op_str e @ '' is defined in the structure'')
           (where_at (attr e)))
     | Some f \<Rightarrow>
         andThen (evaluate L tr f (map fst vary @ [target])) (\<lambda>r.
         andThen (the_or_crash r) (\<lambda>v.
         andThen (deref v) (\<lambda>fobj.
         andThen (emit_call L e (llvm_value fobj, concat (map snd vary) @ [llvm_value obj], rtable fobj)) (\<lambda>destv.
         ret (Some destv)))))))"

definition visit_customizable ::
  "('t, 'v, 'p, 'm) env \<Rightarrow> ('t, 'v, 'p, 'm) visitor \<Rightarrow> expr \<Rightarrow> ('t, 'v, 'p, 'm, nat option) tcomp" where
  "visit_customizable C tr e =
     (let L = lib C in
      andThen (tr (hd (operands e))) (\<lambda>r.
      andThen (the_or_crash r) (\<lambda>target.
      andThen (getType L target) (\<lambda>ty.
      andThen (isStruct L ty) (\<lambda>own.
      if own then visit_own_operator L tr e target (tl (operands e))
      else
        andThen (map_comp (visit_arg L tr) (tl (operands e))) (\<lambda>args.
        apply_op C tr e (Some target # map (\<lambda>x. Some (fst x)) args)))))))"

definition visit_operators ::
  "('t, 'v, 'p, 'm) env \<Rightarrow> ('t, 'v, 'p, 'm) visitor \<Rightarrow> expr \<Rightarrow> ('t, 'v, 'p, 'm, nat option) tcomp" where
  "visit_operators C tr e =
     (if op_is_customizable e then visit_customizable C tr e
      else andThen (map_comp tr (operands e)) (\<lambda>args. apply_op C tr e args))"

end
