(* ===== verification/Translator_Exprs.thy ===== *)
theory Translator_Exprs
  imports Translator_Calls
begin

text \<open>
  The handlers of the other nodes in \<open>lib/assembly/translator.cpp\<close>: constants, pre-defined
  variables with the imports, arrays, structures, functions and scopes.
\<close>

section \<open>Constants\<close>

text \<open>A constant is not to be assigned and not to be called.\<close>

definition check_constant :: "string \<Rightarrow> attribute \<Rightarrow> ('s, unit) comp" where
  "check_constant kd a =
     then_do (throw_if (lval a) (translate_error (kd @ '' constant is not to be assigned'') (where_at a)))
       (throw_if (to_call a) (translate_error (kd @ '' constant is not to be called'') (where_at a)))"

definition visit_constant ::
  "('t, 'v, 'p, 'm) llvm \<Rightarrow> string \<Rightarrow> expr \<Rightarrow> 'v \<Rightarrow> ('t, 'v, 'p, 'm, nat option) tcomp" where
  "visit_constant L kd e v =
     then_do (check_constant kd (attr e))
       (andThen (new_value L v e) (\<lambda>r. ret (Some r)))"

definition visit_integer ::
  "('t, 'v, 'p, 'm) llvm \<Rightarrow> attribute \<Rightarrow> int32 \<Rightarrow> ('t, 'v, 'p, 'm, nat option) tcomp" where
  "visit_integer L a n =
     visit_constant L ''An integer'' (Integer a n) (signed_const L (int_ty L 32) (sint n))"

definition visit_decimal ::
  "('t, 'v, 'p, 'm) llvm \<Rightarrow> attribute \<Rightarrow> double \<Rightarrow> ('t, 'v, 'p, 'm, nat option) tcomp" where
  "visit_decimal L a d =
     visit_constant L ''An integer'' (Decimal a d) (fp_const L (double_ty L) d)"

definition visit_boolean ::
  "('t, 'v, 'p, 'm) llvm \<Rightarrow> attribute \<Rightarrow> bool \<Rightarrow> ('t, 'v, 'p, 'm, nat option) tcomp" where
  "visit_boolean L a b =
     visit_constant L ''A boolean'' (Boolean a b) (int_const L (int_ty L 1) (if b then 1 else 0))"

definition visit_string ::
  "('t, 'v, 'p, 'm) llvm \<Rightarrow> expr \<Rightarrow> string \<Rightarrow> ('t, 'v, 'p, 'm, nat option) tcomp" where
  "visit_string L e s =
     then_do (check_constant ''A string'' (attr e))
       (andThen (emit L (CreateGlobalStringPtr s)) (\<lambda>v.
        andThen (new_value L v e) (\<lambda>r. ret (Some r))))"

text \<open>Identifiers, keys and argument lists have no value of their own.\<close>

definition visit_void :: "('t, 'v, 'p, 'm, nat option) tcomp" where
  "visit_void = andThen (alloc void_value) (\<lambda>r. ret (Some r))"

section \<open>Imports\<close>

text \<open>
  The translator of an imported file takes the module and a copy of the builder. It starts with a
  scope of its own and without flags or loaded files; of its state only the module, and the
  objects, come back.
\<close>

definition in_new_translator ::
  "('t, 'v, 'p, 'm, 'a) tcomp \<Rightarrow> ('t, 'v, 'p, 'm, 'a) tcomp" where
  "in_new_translator body = (\<lambda>s.
     let inner = (new_translator (ir s) (ip s) (heap s) []) \<lparr>link_libraries := link_libraries s\<rparr>
     in case body inner of
          (r, s') \<Rightarrow> (r, s\<lparr>ir := ir s', heap := heap s', link_libraries := link_libraries s'\<rparr>))"

definition import_module ::
  "('t, 'v, 'p, 'm) env \<Rightarrow> ('t, 'v, 'p, 'm) visitor \<Rightarrow> string \<Rightarrow> attribute \<Rightarrow>
   ('t, 'v, 'p, 'm, nat option) tcomp" where
  "import_module C tr path a =
     (let abspath = absolute C path (getPath (where_at a)) in
      case read_file C abspath of
        None \<Rightarrow> ret None
      | Some code \<Rightarrow>
          andThen (the_or_diverge (parse (x3_engine C) (x3_lib C) new_holder code no_error (Some abspath)))
            (\<lambda>(parsed, err, holder).
          case parsed of
            NoTree \<Rightarrow> throw err
          | Escaped x \<Rightarrow> crash
          | Tree e \<Rightarrow> in_new_translator (tr e)))"

text \<open>The functions of a file of LLVM code become the members of a structure.\<close>

definition import_function ::
  "('t, 'v, 'p, 'm) llvm \<Rightarrow> expr \<Rightarrow> nat \<Rightarrow> uint32 \<times> 't list \<Rightarrow> 't ir_function \<Rightarrow>
   ('t, 'v, 'p, 'm, uint32 \<times> 't list) tcomp" where
  "import_function L e destv acc f =
     (case (acc, f) of ((cnt, tys), (name, functy, ty)) \<Rightarrow>
        if take 5 name = ''llvm.'' then ret (cnt, tys)
        else
          andThen (reads (\<lambda>m. get_function L m name)) (\<lambda>known.
          andThen (case known of
              Some g \<Rightarrow> ret g
            | None \<Rightarrow> creates (create_function L functy name True)) (\<lambda>func.
          andThen (new_value L func e) (\<lambda>vp.
          then_do (set_symbol destv name vp)
            (then_do (set_field destv name cnt)
              (then_do (setParent vp destv)
                (ret (cnt + 1, tys @ [ty]))))))))"

text \<open>A structure type that the module already has is used again.\<close>

definition struct_type ::
  "('t, 'v, 'p, 'm) llvm \<Rightarrow> 't list \<Rightarrow> string \<Rightarrow> ('t, 'v, 'p, 'm, 't) tcomp" where
  "struct_type L tys name =
     andThen (creates (new_struct L)) (\<lambda>t.
     then_do (changes (set_body L t tys))
       (then_do (changes (set_struct_name L t name))
         (reads (\<lambda>m.
            case find (layout_identical L m t) (identified_structs L m) of
              Some u \<Rightarrow> u
            | None \<Rightarrow> t))))"

definition import_member ::
  "('t, 'v, 'p, 'm) llvm \<Rightarrow> 't \<Rightarrow> 'v \<Rightarrow> nat \<Rightarrow> string \<times> uint32 \<Rightarrow> ('t, 'v, 'p, 'm, unit) tcomp" where
  "import_member L structTy ptr destv x =
     andThen (emit L (CreateStructGEP structTy ptr (snd x))) (\<lambda>p.
     andThen (deref destv) (\<lambda>obj.
     andThen (the_or_crash (sm_find (symbols obj) (fst x))) (\<lambda>vp.
     andThen (need_llvm vp) (\<lambda>v.
     then_do (emit_unit L (CreateStore v p))
       (setLLVM L vp (Some p))))))"

definition load_ir ::
  "('t, 'v, 'p, 'm) llvm \<Rightarrow> string \<Rightarrow> ('t, 'v, 'p, 'm, 't ir_function list option) tcomp" where
  "load_ir L path =
     andThen (gets (\<lambda>s. sm_find (loaded_map s) path)) (\<lambda>loaded.
     case loaded of
       Some fs \<Rightarrow> ret (Some fs)
     | None \<Rightarrow> reads (parse_ir_file L path))"

definition importIR ::
  "('t, 'v, 'p, 'm) llvm \<Rightarrow> string \<Rightarrow> expr \<Rightarrow> ('t, 'v, 'p, 'm, nat option) tcomp" where
  "importIR L path e =
     andThen (load_ir L path) (\<lambda>loaded.
     case loaded of
       None \<Rightarrow> ret None
     | Some fs \<Rightarrow>
         andThen (new_null L e) (\<lambda>destv.
         andThen (fold_comp (import_function L e destv) (0, []) fs) (\<lambda>(cnt, tys).
         andThen (struct_type L tys ''cheader_type'') (\<lambda>structTy.
         andThen (emit L (CreateAlloca structTy [])) (\<lambda>ptr.
         then_do (setLLVM L destv (Some ptr))
           (andThen (deref destv) (\<lambda>obj.
            then_do (each (import_member L structTy ptr destv) (field_ids obj))
              (then_do (modifies (\<lambda>s. s\<lparr>loaded_map := sm_put path fs (loaded_map s)\<rparr>))
                (ret (Some destv))))))))))"

definition importCHeader ::
  "('t, 'v, 'p, 'm) env \<Rightarrow> string \<Rightarrow> expr \<Rightarrow> ('t, 'v, 'p, 'm, nat option) tcomp" where
  "importCHeader C path e =
     then_do (changes (run_h2ir C path)) (importIR (lib C) (h2ir_path C path) e)"

section \<open>Pre-defined variables\<close>

definition opened :: "string \<Rightarrow> locationInfo \<Rightarrow> nat option \<Rightarrow> ('t, 'v, 'p, 'm, nat option) tcomp" where
  "opened msg wh r = (case r of Some v \<Rightarrow> ret (Some v) | None \<Rightarrow> throw (translate_error msg wh))"

definition link_attribute :: "string smap \<Rightarrow> ('t, 'v, 'p, 'm, unit) tcomp" where
  "link_attribute as =
     (case sm_find as ''link'' of Some l \<Rightarrow> link_library l | None \<Rightarrow> ret ())"

definition visit_import ::
  "('t, 'v, 'p, 'm) env \<Rightarrow> ('t, 'v, 'p, 'm) visitor \<Rightarrow> expr \<Rightarrow> attribute \<Rightarrow>
   ('t, 'v, 'p, 'm, nat option) tcomp" where
  "visit_import C tr e a =
     (let as = attributes a; wh = where_at a in
      case sm_find as ''m'' of
        Some path \<Rightarrow> andThen (import_module C tr path a) (opened (''Failed to open '' @ path) wh)
      | None \<Rightarrow>
      case sm_find as ''ir'' of
        Some path \<Rightarrow>
          then_do (link_attribute as)
            (andThen (importIR (lib C) path e) (opened ''Error happened during import of llvm ir'' wh))
      | None \<Rightarrow>
      case sm_find as ''c'' of
        Some path \<Rightarrow>
          then_do (link_attribute as)
            (andThen (importCHeader C path e) (opened ''Error happened during import of a c header'' wh))
      | None \<Rightarrow> throw (translate_error ''Import path isn't specified'' wh))"

text \<open>A function of the module hides the names that are built in.\<close>

definition visit_pre_variable ::
  "('t, 'v, 'p, 'm) env \<Rightarrow> ('t, 'v, 'p, 'm) visitor \<Rightarrow> attribute \<Rightarrow> string \<Rightarrow>
   ('t, 'v, 'p, 'm, nat option) tcomp" where
  "visit_pre_variable C tr a s =
     (let L = lib C; e = PreVariable a s; wh = where_at a;
          name = dropWhile (\<lambda>c. c = CHR ''@'') s in
      then_do (throw_if (lval a) (translate_error ''Pre-defined variables cannnot be assigned'' wh))
        (andThen (reads (\<lambda>m. get_function L m name)) (\<lambda>known.
         case known of
           Some f \<Rightarrow> andThen (new_value L f e) (\<lambda>r. ret (Some r))
         | None \<Rightarrow>
             if name = ''import'' then visit_import C tr e a
             else if name = ''self'' then visit_variable L a ''__self''
             else throw (translate_error (''Pre-defined variable \"'' @ name @ ''\" is not defined'') wh))))"

section \<open>Arrays\<close>

definition array_element ::
  "('t, 'v, 'p, 'm) llvm \<Rightarrow> ('t, 'v, 'p, 'm) visitor \<Rightarrow> locationInfo \<Rightarrow> 't \<Rightarrow> nat \<Rightarrow> nat \<Rightarrow> nat \<times> expr \<Rightarrow>
   ('t, 'v, 'p, 'm, nat list) tcomp" where
  "array_element L tr wh t destv firstelem ix =
     (case ix of (i, x) \<Rightarrow>
        andThen (if i = 0 then ret (Some firstelem) else tr x) (\<lambda>r.
        andThen (the_or_crash r) (\<lambda>v.
        andThen (getType L v) (\<lambda>ty.
        then_do (throw_if (llvm_type ty \<noteq> Some t)
          (translate_error ''all elements of array must have the same type'' wh))
          (then_do (setParent v destv)
            (then_do (set_symbol destv (nat_string i) v)
              (ret (if is_lazy ty then [] else [v]))))))))"

text \<open>A value is moved into its place in an array or a structure.\<close>

definition move_in ::
  "('t, 'v, 'p, 'm) llvm \<Rightarrow> nat \<Rightarrow> string \<Rightarrow> nat \<Rightarrow> 'v \<Rightarrow> ('t, 'v, 'p, 'm, unit) tcomp" where
  "move_in L destv name v p =
     andThen (deref v) (\<lambda>obj.
     andThen (new_value L p (ast_value obj)) (\<lambda>slot.
     andThen (copyFull L v slot name (Some p) (Some destv)) (\<lambda>copied. assert copied)))"

definition visit_array ::
  "('t, 'v, 'p, 'm) llvm \<Rightarrow> ('t, 'v, 'p, 'm) visitor \<Rightarrow> attribute \<Rightarrow> expr list \<Rightarrow>
   ('t, 'v, 'p, 'm, nat option) tcomp" where
  "visit_array L tr a xs =
     then_do (check_constant ''An array'' a)
       (if xs = [] then crash
        else
          andThen (tr (hd xs)) (\<lambda>r.
          andThen (the_or_crash r) (\<lambda>firstelem.
          andThen (getType L firstelem) (\<lambda>ty.
          andThen (isFundamental L ty) (\<lambda>fundamental.
          andThen (the_or_crash (llvm_type ty)) (\<lambda>et.
          let t = (if fundamental then et else pointee L et); aryType = array_ty L t (length xs) in
          andThen (emit L (CreateAlloca aryType [])) (\<lambda>aryPtr.
          andThen (new_value L aryPtr (Array a xs)) (\<lambda>destv.
          andThen (map_comp (array_element L tr (where_at a) t destv firstelem) (indexed xs)) (\<lambda>vs.
          then_do (each (\<lambda>(i, v).
              andThen (emit L (CreateInBoundsGEP aryType aryPtr [i32 L 0, i32 L i])) (\<lambda>p.
              move_in L destv (nat_string i) v p)) (indexed (concat vs)))
            (ret (Some destv)))))))))))"

section \<open>Structures\<close>

definition structure_member ::
  "('t, 'v, 'p, 'm) llvm \<Rightarrow> ('t, 'v, 'p, 'm) visitor \<Rightarrow> nat \<Rightarrow> wrapped \<times> expr \<Rightarrow>
   ('t, 'v, 'p, 'm, 't list) tcomp" where
  "structure_member L tr destv kx =
     andThen (tr (snd kx)) (\<lambda>r.
     andThen (the_or_crash r) (\<lambda>vp.
     then_do (set_symbol destv (snd (fst kx)) vp)
       (then_do (setParent vp destv)
         (andThen (getType L vp) (\<lambda>ty.
          if is_lazy ty then ret []
          else
            andThen (isFundamental L ty) (\<lambda>fundamental.
            andThen (the_or_crash (llvm_type ty)) (\<lambda>t.
            ret [if fundamental then t else pointee L t])))))))"

definition place_member ::
  "('t, 'v, 'p, 'm) llvm \<Rightarrow> 't \<Rightarrow> 'v \<Rightarrow> nat \<Rightarrow> uint32 \<Rightarrow> string \<times> nat \<Rightarrow> ('t, 'v, 'p, 'm, uint32) tcomp" where
  "place_member L structTy ptr destv i kv =
     andThen (getType L (snd kv)) (\<lambda>ty.
     if is_lazy ty then ret i
     else
       then_do (set_field destv (fst kv) i)
         (andThen (emit L (CreateStructGEP structTy ptr i)) (\<lambda>p.
          then_do (move_in L destv (fst kv) (snd kv) p)
            (ret (i + 1)))))"

definition visit_structure ::
  "('t, 'v, 'p, 'm) llvm \<Rightarrow> ('t, 'v, 'p, 'm) visitor \<Rightarrow> attribute \<Rightarrow> (wrapped \<times> expr) list \<Rightarrow>
   ('t, 'v, 'p, 'm, nat option) tcomp" where
  "visit_structure L tr a m =
     andThen (new_null L (Structure a m)) (\<lambda>destv.
     andThen (map_comp (structure_member L tr destv) m) (\<lambda>tys.
     andThen (struct_type L (concat tys) ''user_type'') (\<lambda>structTy.
     andThen (emit L (CreateAlloca structTy [])) (\<lambda>ptr.
     then_do (setLLVM L destv (Some ptr))
       (andThen (deref destv) (\<lambda>obj.
        andThen (fold_comp (place_member L structTy ptr destv) 0 (symbols obj)) (\<lambda>_.
        ret (Some destv))))))))"

section \<open>Functions and scopes\<close>

text \<open>A parameter of the declared type.\<close>

definition typed_argument ::
  "('t, 'v, 'p, 'm) llvm \<Rightarrow> wrapped \<Rightarrow> ('t, 'v, 'p, 'm, nat) tcomp" where
  "typed_argument L x =
     andThen (the_or_crash (sm_find (attributes (fst x)) ''type'')) (\<lambda>n.
     andThen (parseType L n (where_at (fst x))) (\<lambda>t.
     andThen (emit L (CreateAlloca t [])) (\<lambda>p.
     andThen (emit L (CreateLoad p)) (\<lambda>v.
     new_value L v (Identifier (fst x) (snd x))))))"

text \<open>A function whose parameters all have a type is compiled at once, unless it says \<open>lazy\<close>.\<close>

definition visit_function ::
  "('t, 'v, 'p, 'm) llvm \<Rightarrow> ('t, 'v, 'p, 'm) visitor \<Rightarrow> attribute \<Rightarrow> wrapped list \<Rightarrow> expr list \<Rightarrow>
   ('t, 'v, 'p, 'm, nat option) tcomp" where
  "visit_function L tr a params lines =
     then_do (throw_if (lval a) (translate_error ''A function constant is not to be assigned'' (where_at a)))
       (andThen (creates (create_function L
          (fun_ty L (void_ty L) (replicate (length params) (int_ty L 32)) False)
          (case sm_find (attributes a) ''export'' of Some n \<Rightarrow> n | None \<Rightarrow> []) False)) (\<lambda>func.
        andThen (new_lazy L func (Function a params lines)) (\<lambda>destv.
        if list_all (\<lambda>x. sm_find (attributes (fst x)) ''type'' \<noteq> None) params \<and>
           sm_find (attributes a) ''lazy'' = None then
          andThen (map_comp (typed_argument L) params) (\<lambda>args. evaluate L tr destv args)
        else ret (Some destv))))"

text \<open>A scope sees the symbols of the scope it is written in.\<close>

definition visit_scope ::
  "('t, 'v, 'p, 'm) llvm \<Rightarrow> attribute \<Rightarrow> expr list \<Rightarrow> ('t, 'v, 'p, 'm, nat option) tcomp" where
  "visit_scope L a lines =
     then_do (throw_if (lval a) (translate_error ''A scope constant is not to be assigned'' (where_at a)))
       (andThen (creates (create_block L [] None)) (\<lambda>bb.
        andThen (new_lazy L bb (Scope a lines)) (\<lambda>destv.
        andThen (gets this_scope) (\<lambda>scope.
        andThen (deref scope) (\<lambda>sc.
        then_do (update_obj destv (\<lambda>obj. obj\<lparr>symbols := symbols sc\<rparr>))
          (ret (Some destv)))))))"

section \<open>Every node\<close>

definition visit ::
  "('t, 'v, 'p, 'm) env \<Rightarrow> ('t, 'v, 'p, 'm) visitor \<Rightarrow> expr \<Rightarrow> ('t, 'v, 'p, 'm, nat option) tcomp" where
  "visit C tr e =
     (let L = lib C in
      case e of
        Integer a n \<Rightarrow> visit_integer L a n
      | Decimal a d \<Rightarrow> visit_decimal L a d
      | Boolean a b \<Rightarrow> visit_boolean L a b
      | String a s \<Rightarrow> visit_string L e s
      | AttributeVal a s \<Rightarrow> visit_string L e s
      | Variable a n \<Rightarrow> visit_variable L a n
      | PreVariable a s \<Rightarrow> visit_pre_variable C tr a s
      | Identifier a n \<Rightarrow> visit_void
      | StructKey a n \<Rightarrow> visit_void
      | ArgList a xs \<Rightarrow> visit_void
      | Array a xs \<Rightarrow> visit_array L tr a xs
      | Structure a m \<Rightarrow> visit_structure L tr a m
      | Function a params lines \<Rightarrow> visit_function L tr a params lines
      | Scope a lines \<Rightarrow> visit_scope L a lines
      | _ \<Rightarrow> visit_operators C tr e)"

end
