(* ===== verification/Translator_Run.thy ===== *)
theory Translator_Run
  imports Translator_Exprs
begin

text \<open>
  The translator as a whole: its handlers call each other through \<open>boost::apply_visitor\<close>, which is
  the recursion of \<open>translate\<close>; then the two entry points that catch errors. The main result is
  that the bound on the recursion only decides whether there is a result, not which.
\<close>

section \<open>The recursion\<close>

primrec translate ::
  "('t, 'v, 'p, 'm) env \<Rightarrow> nat \<Rightarrow> ('t, 'v, 'p, 'm) visitor" where
  "translate C 0 = (\<lambda>e. diverge)"
| "translate C (Suc n) = visit C (translate C n)"

section \<open>Entry points\<close>

text \<open>
  \<open>err\<close> is the object of the caller, which an error is assigned to; a null pointer is \<open>None\<close>.
\<close>

definition translateAST ::
  "('t, 'v, 'p, 'm) env \<Rightarrow> nat \<Rightarrow> expr \<Rightarrow> error \<Rightarrow> ('t, 'v, 'p, 'm, error \<times> nat option) tcomp" where
  "translateAST C n e err =
     catch_error (andThen (translate C n e) (\<lambda>r. ret (err, r))) (\<lambda>err'. ret (err', None))"

definition main_arguments ::
  "('t, 'v, 'p, 'm) llvm \<Rightarrow> 'v \<Rightarrow> 'v \<Rightarrow> ('t, 'v, 'p, 'm, (nat \<times> 'v) list) tcomp" where
  "main_arguments L f mainf =
     andThen (reads (\<lambda>m. if fun_args L m f = [] then [] else fun_args L m mainf)) (\<lambda>args.
     map_comp (\<lambda>v. andThen (new_value L v default_expr) (\<lambda>a. ret (a, v))) args)"

definition call_top ::
  "('t, 'v, 'p, 'm) env \<Rightarrow> nat \<Rightarrow> nat \<Rightarrow> 'v \<Rightarrow> 'v \<Rightarrow> ('t, 'v, 'p, 'm, 'v option \<times> 'v list) tcomp" where
  "call_top C n v f mainf =
     (let L = lib C in
      andThen (main_arguments L f mainf) (\<lambda>args.
      andThen (evaluate L (translate C n) v (map fst args)) (\<lambda>r.
      andThen (the_or_crash r) (\<lambda>w.
      andThen (getLLVM w) (\<lambda>llval.
      ret (llval, map snd args))))))"

definition createMainRet ::
  "('t, 'v, 'p, 'm) env \<Rightarrow> nat \<Rightarrow> nat \<Rightarrow> error \<Rightarrow> ('t, 'v, 'p, 'm, error \<times> 'v option) tcomp" where
  "createMainRet C n v err =
     (let L = lib C in
      andThen (reads (\<lambda>m. get_function L m (entry_function_name C))) (\<lambda>found.
      andThen (the_or_crash found) (\<lambda>mainf.
      andThen (deref v) (\<lambda>obj.
      let wh = where_at (attr (ast_value obj)) in
      andThen (need_llvm v) (\<lambda>f.
      if \<not> is_function L f then
        ret (mk_error ''Top-level value must be function'' wh Translate, None)
      else
        andThen (hasFlag ''not-entry'') (\<lambda>not_entry.
        if not_entry then
          andThen (getType L v) (\<lambda>ty.
          if is_lazy ty then
            ret (mk_error ''Can't suggest the signature of top function'' wh Translate, None)
          else then_do (changes (erase L mainf)) (ret (err, Some f)))
        else
          andThen (catch_error (andThen (call_top C n v f mainf) (\<lambda>r. ret (Inr r))) (\<lambda>e. ret (Inl e))) (\<lambda>r.
          case r of
            Inl e \<Rightarrow> ret (e, None)
          | Inr (llval, args) \<Rightarrow>
              andThen (the_or_crash llval) (\<lambda>g.
              andThen (emit L (CreateCall g args)) (\<lambda>w.
              then_do (emit_unit L (CreateRet (Some
                (if kind L (ty_of L w) = VoidTy then i32 L 0 else w))))
                (ret (err, Some g)))))))))))"

section \<open>The bound does not change a result\<close>

text \<open>Handlers that call back agree when the callbacks do.\<close>

locale callback =
  fixes tr tr' :: "('t, 'v, 'p, 'm) visitor"
  assumes agree: "agrees (tr e) (tr' e)"
begin

lemma agrees_apply_bb [agrees_rules]:
  "agrees (apply_bb L tr xs) (apply_bb L tr' xs)"
  unfolding apply_bb_def Let_def by (intro agrees_rules agree)

lemma agrees_evaluate_scope [agrees_rules]:
  "agrees (evaluate_scope L tr v xs) (evaluate_scope L tr' v xs)"
  unfolding evaluate_scope_def Let_def by (intro agrees_rules agree)

lemma agrees_survey_line [agrees_rules]:
  "agrees (survey_line tr t e) (survey_line tr' t e)"
  unfolding survey_line_def Let_def by (intro agrees_rules agree)

lemma agrees_survey_body [agrees_rules]:
  "agrees (survey_body L tr f v retst pars sig lines) (survey_body L tr' f v retst pars sig lines)"
  unfolding survey_body_def Let_def by (intro agrees_rules agree)

lemma agrees_emit_body [agrees_rules]:
  "agrees (emit_body L tr f v rt pars sig lines) (emit_body L tr' f v rt pars sig lines)"
  unfolding emit_body_def Let_def by (intro agrees_rules agree)

lemma agrees_evaluate_function [agrees_rules]:
  "agrees (evaluate_function L tr v args a ps lines) (evaluate_function L tr' v args a ps lines)"
  unfolding evaluate_function_def Let_def by (intro agrees_rules agree)

lemma agrees_evaluate [agrees_rules]:
  "agrees (evaluate L tr v args) (evaluate L tr' v args)"
  unfolding evaluate_def
  by (intro agrees_andThen agrees_if agrees_refl) (simp split: expr.split add: agrees_rules)

lemma agrees_cond_block [agrees_rules]:
  "agrees (cond_block L tr bb mb v xs) (cond_block L tr' bb mb v xs)"
  unfolding cond_block_def Let_def by (intro agrees_rules agree)

lemma agrees_cond_scopes [agrees_rules]:
  "agrees (cond_scopes L tr c x y) (cond_scopes L tr' c x y)"
  unfolding cond_scopes_def Let_def by (intro agrees_rules agree)

lemma agrees_cond_values [agrees_rules]:
  "agrees (cond_values L tr e a te ee c x y t) (cond_values L tr' e a te ee c x y t)"
  unfolding cond_values_def Let_def by (intro agrees_rules agree)

lemma agrees_apply_cond [agrees_rules]:
  "agrees (apply_cond L tr e a te ee args) (apply_cond L tr' e a te ee args)"
  unfolding apply_cond_def Let_def by (intro agrees_rules agree)

lemma agrees_check_call_arg [agrees_rules]:
  "agrees (check_call_arg L tr wh t ie) (check_call_arg L tr' wh t ie)"
  unfolding check_call_arg_def Let_def by (intro agrees_rules agree)

lemma agrees_call_compiled [agrees_rules]:
  "agrees (call_compiled L tr wh od v xs) (call_compiled L tr' wh od v xs)"
  unfolding call_compiled_def Let_def by (intro agrees_rules agree)

lemma agrees_visit_arg [agrees_rules]:
  "agrees (visit_arg L tr e) (visit_arg L tr' e)"
  unfolding visit_arg_def Let_def by (intro agrees_rules agree)

lemma agrees_call_lazy [agrees_rules]:
  "agrees (call_lazy L tr ob v xs) (call_lazy L tr' ob v xs)"
  unfolding call_lazy_def Let_def by (intro agrees_rules agree)

lemma agrees_call_scope [agrees_rules]:
  "agrees (call_scope L tr wh od v al) (call_scope L tr' wh od v al)"
  unfolding call_scope_def Let_def by (intro agrees_rules agree)

lemma agrees_reassign [agrees_rules]:
  "agrees (reassign C tr e wh x d) (reassign C tr' e wh x d)"
  unfolding reassign_def Let_def by (intro agrees_rules agree)

lemma agrees_apply_call [agrees_rules]:
  "agrees (apply_call C tr e a ce al args) (apply_call C tr' e a ce al args)"
  unfolding apply_call_def Let_def by (intro agrees_rules agree)

lemma agrees_apply_op [agrees_rules]:
  "agrees (apply_op C tr e args) (apply_op C tr' e args)"
  by (cases e) (simp_all add: apply_op_def Let_def agrees_rules split: binop.split sinop.split)

lemma agrees_visit_own_operator [agrees_rules]:
  "agrees (visit_own_operator L tr e v rest) (visit_own_operator L tr' e v rest)"
  unfolding visit_own_operator_def Let_def by (intro agrees_rules agree)

lemma agrees_visit_customizable [agrees_rules]:
  "agrees (visit_customizable C tr e) (visit_customizable C tr' e)"
  unfolding visit_customizable_def Let_def by (intro agrees_rules agree)

lemma agrees_visit_operators [agrees_rules]:
  "agrees (visit_operators C tr e) (visit_operators C tr' e)"
  unfolding visit_operators_def Let_def by (intro agrees_rules agree)

lemma agrees_in_new_translator [agrees_rules]:
  "agrees (in_new_translator (tr e)) (in_new_translator (tr' e))"
  using agree [of e] unfolding agrees_def
  by (force simp: in_new_translator_def Let_def split: prod.splits)

lemma agrees_import_module [agrees_rules]:
  "agrees (import_module C tr path a) (import_module C tr' path a)"
  unfolding import_module_def Let_def
  by (intro agrees_option agrees_andThen agrees_prod agrees_refl)
    (simp split: parse_result.split add: agrees_refl agrees_in_new_translator)

lemma agrees_visit_import [agrees_rules]:
  "agrees (visit_import C tr e a) (visit_import C tr' e a)"
  unfolding visit_import_def Let_def by (intro agrees_rules agree)

lemma agrees_visit_pre_variable [agrees_rules]:
  "agrees (visit_pre_variable C tr a s) (visit_pre_variable C tr' a s)"
  unfolding visit_pre_variable_def Let_def by (intro agrees_rules agree)

lemma agrees_array_element [agrees_rules]:
  "agrees (array_element L tr wh t d f ix) (array_element L tr' wh t d f ix)"
  unfolding array_element_def Let_def by (intro agrees_rules agree)

lemma agrees_visit_array [agrees_rules]:
  "agrees (visit_array L tr a xs) (visit_array L tr' a xs)"
  unfolding visit_array_def Let_def by (intro agrees_rules agree)

lemma agrees_structure_member [agrees_rules]:
  "agrees (structure_member L tr d kx) (structure_member L tr' d kx)"
  unfolding structure_member_def Let_def by (intro agrees_rules agree)

lemma agrees_visit_structure [agrees_rules]:
  "agrees (visit_structure L tr a m) (visit_structure L tr' a m)"
  unfolding visit_structure_def Let_def by (intro agrees_rules agree)

lemma agrees_visit_function [agrees_rules]:
  "agrees (visit_function L tr a ps lines) (visit_function L tr' a ps lines)"
  unfolding visit_function_def Let_def by (intro agrees_rules agree)

lemma agrees_visit [agrees_rules]:
  "agrees (visit C tr e) (visit C tr' e)"
  by (cases e) (simp_all add: visit_def Let_def agrees_rules)

end

lemma agrees_translate_Suc: "agrees (translate C n e) (translate C (Suc n) e)"
proof (induction n arbitrary: e)
  case 0
  show ?case by (simp add: agrees_diverge)
next
  case (Suc n)
  then have "callback (translate C n) (translate C (Suc n))" by unfold_locales
  then show ?case using callback.agrees_visit [of "translate C n" "translate C (Suc n)" C e] by simp
qed

lemma agrees_translate: "n \<le> k \<Longrightarrow> agrees (translate C n e) (translate C k e)"
  using agrees_translate_Suc by (rule agrees_chain)

interpretation fuel: callback "translate C n" "translate C (Suc n)" for C n
  by unfold_locales (rule agrees_translate_Suc)


end
