(* ===== verification/Translator_State.thy ===== *)
theory Translator_State
  imports Translator_Run
begin

text \<open>
  What the translator keeps of its state. A relation between the state before and the state after
  is shown for the primitive operations once; the locales below carry it through the handlers.
\<close>

section \<open>Relations kept by the primitive operations\<close>

definition well_typed :: "('t, 'v, 'p, 'm) llvm \<Rightarrow> ('t, 'v) vobj \<Rightarrow> bool" where
  "well_typed L obj \<longleftrightarrow> (\<forall>v. llvm_value obj = Some v \<longrightarrow> llvm_type (vtype obj) = Some (ty_of L v))"

text \<open>An update that leaves the node and the laziness of an object alone.\<close>

definition mild :: "('t, 'v, 'p, 'm) llvm \<Rightarrow> (('t, 'v) vobj \<Rightarrow> ('t, 'v) vobj) \<Rightarrow> bool" where
  "mild L f \<longleftrightarrow> (\<forall>obj. ast_value (f obj) = ast_value obj \<and>
     is_lazy (vtype (f obj)) = is_lazy (vtype obj) \<and> (well_typed L obj \<longrightarrow> well_typed L (f obj)))"

named_theorems rel_rules

locale state_rel =
  fixes C :: "('t, 'v, 'p, 'm) env"
    and R :: "('t, 'v, 'p, 'm) tstate \<Rightarrow> ('t, 'v, 'p, 'm) tstate \<Rightarrow> bool"
  assumes pre: "preorder R"
    and rel_alloc: "well_typed (lib C) obj \<Longrightarrow> keeps R (alloc obj)"
    and rel_update: "mild (lib C) f \<Longrightarrow> keeps R (update_obj a f)"
    and rel_copy: "keeps R (copy_value n (lib C) a v)"
    and rel_ir: "R s (s\<lparr>ir := m\<rparr>)"
    and rel_ip: "R s (s\<lparr>ip := p\<rparr>)"
    and rel_link: "R s (s\<lparr>link_libraries := link_libraries s @ ls\<rparr>)"
    and rel_loaded: "R s (s\<lparr>loaded_map := lm\<rparr>)"
begin

lemmas basic_rules =
  keeps_ret [OF pre] keeps_stop keeps_gets [OF pre] keeps_checks [OF pre]
  keeps_then_do [OF pre] keeps_andThen [OF pre] keeps_do_if [OF pre] keeps_map_comp [OF pre]
  keeps_fold_comp [OF pre] keeps_each [OF pre]

declare basic_rules [rel_rules]

lemma rel_case_option [rel_rules]:
  "keeps R m \<Longrightarrow> (\<And>a. keeps R (f a)) \<Longrightarrow> keeps R (case x of None \<Rightarrow> m | Some a \<Rightarrow> f a)"
  by (simp split: option.splits)

lemma rel_case_prod [rel_rules]: "(\<And>a b. keeps R (f a b)) \<Longrightarrow> keeps R (case x of (a, b) \<Rightarrow> f a b)"
  by (simp split: prod.splits)

lemma rel_case_list [rel_rules]:
  "keeps R m \<Longrightarrow> (\<And>a as. keeps R (f a as)) \<Longrightarrow> keeps R (case xs of [] \<Rightarrow> m | a # as \<Rightarrow> f a as)"
  by (simp split: list.splits)

lemma rel_case_bool [rel_rules]:
  "keeps R m \<Longrightarrow> keeps R k \<Longrightarrow> keeps R (case b of True \<Rightarrow> m | False \<Rightarrow> k)"
  by (simp split: bool.splits)

lemma rel_if [rel_rules]: "keeps R m \<Longrightarrow> keeps R k \<Longrightarrow> keeps R (if b then m else k)"
  by simp

lemma rel_reads [rel_rules]: "keeps R (reads f)"
  by (simp add: reads_def basic_rules)

lemma rel_changes [rel_rules]: "keeps R (changes f)"
  by (simp add: changes_def keeps_modifies rel_ir)

lemma rel_creates [rel_rules]: "keeps R (creates f)"
  by (simp add: keeps_def creates_def rel_ir)

lemma rel_emit [rel_rules]: "keeps R (emit L i)"
  by (simp add: keeps_def emit_def rel_ir)

lemma rel_emit_unit [rel_rules]: "keeps R (emit_unit L i)"
  by (simp add: emit_unit_def rel_rules)

lemma rel_insert_point [rel_rules]: "keeps R (set_insert_point p)"
  by (simp add: set_insert_point_def keeps_modifies rel_ip)

lemma rel_link_library [rel_rules]: "keeps R (link_library l)"
  by (simp add: link_library_def keeps_modifies rel_link)

lemma rel_loaded_map [rel_rules]: "keeps R (modifies (\<lambda>s. s\<lparr>loaded_map := f s\<rparr>))"
  by (simp add: keeps_modifies rel_loaded)

lemma rel_deref [rel_rules]: "keeps R (deref a)"
  using pre by (auto simp: keeps_def deref_def preorder_def reflp_def split: if_splits)

lemma rel_setters [rel_rules]:
  "keeps R (setParent a p)" "keeps R (setName a x)" "keeps R (set_symbol a x b)"
  "keeps R (set_field a x i)" "keeps R (setRetTable a t)" "keeps R (applyRetTable a tab)"
  unfolding setParent_def setName_def set_symbol_def set_field_def setRetTable_def applyRetTable_def
  by (rule rel_update; simp add: mild_def well_typed_def)+

lemma rel_setLLVM [rel_rules]: "keeps R (setLLVM (lib C) a v)"
  unfolding setLLVM_def by (rule rel_update) (simp add: mild_def well_typed_def split: option.splits)

lemma rel_getType [rel_rules]: "keeps R (getType L a)"
  by (simp add: getType_def rel_rules)

lemma rel_set_const [rel_rules]: "keeps R (set_const (lib C) a b)"
  unfolding set_const_def
  by (intro rel_rules rel_update) (simp add: mild_def well_typed_def)

lemma rel_new [rel_rules]:
  "keeps R (new_value (lib C) v e)" "keeps R (new_lazy (lib C) v e)" "keeps R (new_null (lib C) e)"
  "keeps R (alloc void_value)"
  unfolding new_value_def new_lazy_def new_null_def
  by (rule rel_alloc; simp add: well_typed_def mk_value_def void_value_def)+

lemma rel_readers [rel_rules]:
  "keeps R (getLLVM a)" "keeps R (need_llvm a)" "keeps R (type_of L a)" "keeps R (getNameString L t)"
  "keeps R (isFundamental L ty)" "keeps R (isStruct L ty)" "keeps R (hasFlag k)"
  unfolding getLLVM_def need_llvm_def type_of_def getNameString_def isFundamental_def isStruct_def
    isType_if_def hasFlag_def
  by (intro rel_rules)+

lemma rel_copies [rel_rules]:
  "keeps R (copy_with (lib C) a v)" "keeps R (copy (lib C) a)" "keeps R (fetch (lib C) k a)"
  "keeps R (generateRetTable (lib C) a)"
  unfolding fetch_def generateRetTable_def copy_def copy_with_def
  by (intro rel_rules rel_copy)+

text \<open>The handlers that visit nothing.\<close>

lemma rel_errors [rel_rules]:
  "keeps R (throw_types L a x b y c wh)" "keeps R (parseType L n wh)" "keeps R (opened msg wh r)"
  unfolding throw_types_def parseType_def opened_def Let_def
  by (intro rel_rules)+

lemma rel_visit_variable [rel_rules]:
  "keeps R (visit_variable (lib C) a n)"
  unfolding visit_variable_def Let_def
  by (intro rel_rules)

lemma rel_signature [rel_rules]:
  "keeps R (type_of_variable (lib C) n wh)"
  unfolding type_of_variable_def Let_def
  by (intro rel_rules)

lemma rel_expected [rel_rules]:
  "keeps R (expected_type (lib C) wh x)" "keeps R (expected_ret_type (lib C) a)"
  unfolding expected_type_def expected_ret_type_def Let_def
  by (intro rel_rules)+

lemma rel_check_argument [rel_rules]:
  "keeps R (check_argument L wh arg)"
  unfolding check_argument_def Let_def
  by (intro rel_rules)

lemma rel_declare_parameter [rel_rules]:
  "keeps R (declare_parameter (lib C) scope par args)"
  unfolding declare_parameter_def Let_def
  by (intro rel_rules)

lemma rel_ret_type_of [rel_rules]:
  "keeps R (ret_type_of wh t is)"
  by (induction wh t "is" rule: ret_type_of.induct) (simp_all add: rel_rules)

lemma rel_blocks [rel_rules]:
  "keeps R (new_block_here L)" "keeps R (insertGCInitInMain C)" "keeps R (size_of L x y)"
  unfolding new_block_here_def insertGCInitInMain_def size_of_def Let_def
  by (intro rel_rules)+

lemma rel_sizeofType [rel_rules]:
  "keeps R (sizeofType L x)"
  unfolding sizeofType_def Let_def
  by (intro rel_rules)

lemma rel_allocation [rel_rules]:
  "keeps R (createGCMalloc C x n)" "keeps R (emit_memcpy L d w)"
  unfolding createGCMalloc_def emit_memcpy_def Let_def
  by (intro rel_rules)+

lemma rel_store_full [rel_rules]:
  "keeps R (store_full L x v)"
  unfolding store_full_def Let_def
  by (intro rel_rules)

lemma rel_copyFull [rel_rules]:
  "keeps R (copyFull (lib C) x d n v q)"
  unfolding copyFull_def Let_def
  by (intro rel_rules)

lemma rel_operand [rel_rules]:
  "keeps R (operand args i)"
  unfolding operand_def Let_def
  by (intro rel_rules)

lemma rel_operand_llvm [rel_rules]:
  "keeps R (operand_llvm args i)"
  unfolding operand_llvm_def Let_def
  by (intro rel_rules)

lemma rel_none_double [rel_rules]:
  "keeps R (none_double L args)"
  by (induction args) (simp_all add: rel_rules)

lemma rel_apply_binary [rel_rules]:
  "keeps R (apply_binary (lib C) i e args)"
  unfolding apply_binary_def Let_def
  by (intro rel_rules)

lemma rel_apply_values [rel_rules]:
  "keeps R (apply_arith (lib C) i j e args)" "keeps R (apply_logical (lib C) i e args)" "keeps R (apply_pow (lib C) e args)" "keeps R (apply_lnot (lib C) e args)" "keeps R (apply_inot (lib C) e args)" "keeps R (apply_ret (lib C) args)"
  unfolding apply_arith_def apply_logical_def apply_pow_def apply_lnot_def apply_inot_def
    apply_ret_def Let_def
  by (intro rel_rules)+

lemma rel_declare_variable [rel_rules]:
  "keeps R (declare_variable C x n v w)"
  unfolding declare_variable_def Let_def
  by (intro rel_rules)

lemma rel_new_place [rel_rules]:
  "keeps R (new_place C x wh q n v w)"
  unfolding new_place_def Let_def
  by (intro rel_rules)

lemma rel_apply_assign [rel_rules]:
  "keeps R (apply_assign C x wh args)"
  unfolding apply_assign_def Let_def
  by (intro rel_rules)

lemma rel_elements [rel_rules]:
  "keeps R (element_at (lib C) a v w n)" "keeps R (element_address (lib C) wh v w u)"
  unfolding element_at_def element_address_def Let_def
  by (intro rel_rules)+

lemma rel_apply_at [rel_rules]:
  "keeps R (apply_at (lib C) e a args)"
  unfolding apply_at_def
  by (intro rel_rules) (auto split: option.split type_kind.split intro!: rel_rules)

lemma rel_field_index [rel_rules]:
  "keeps R (field_index v x)"
  unfolding field_index_def Let_def
  by (intro rel_rules)

lemma rel_member_place [rel_rules]:
  "keeps R (member_place (lib C) v w x u)"
  unfolding member_place_def Let_def
  by (intro rel_rules)

lemma rel_apply_dot [rel_rules]:
  "keeps R (apply_dot (lib C) x a args)"
  unfolding apply_dot_def Let_def
  by (intro rel_rules)

lemma rel_apply_odot [rel_rules]:
  "keeps R (apply_odot (lib C) x a args)"
  unfolding apply_odot_def Let_def
  by (intro rel_rules)

lemma rel_cond_store [rel_rules]:
  "keeps R (cond_store L b m q v)"
  unfolding cond_store_def Let_def
  by (intro rel_rules)

lemma rel_emit_call [rel_rules]:
  "keeps R (emit_call (lib C) e c)"
  unfolding emit_call_def Let_def
  by (intro rel_rules)

lemma rel_check_constant [rel_rules]:
  "keeps R (check_constant kd a)"
  unfolding check_constant_def Let_def
  by (intro rel_rules)

lemma rel_visit_constant [rel_rules]:
  "keeps R (visit_constant (lib C) kd e v)"
  unfolding visit_constant_def Let_def
  by (intro rel_rules)

lemma rel_constants [rel_rules]:
  "keeps R (visit_integer (lib C) a n)" "keeps R (visit_decimal (lib C) a d)" "keeps R (visit_boolean (lib C) a b)" "keeps R (visit_string (lib C) e x)" "keeps R (visit_void)"
  unfolding visit_integer_def visit_decimal_def visit_boolean_def visit_string_def
    visit_void_def Let_def
  by (intro rel_rules)+

lemma rel_import_parts [rel_rules]:
  "keeps R (import_function (lib C) e v acc f)" "keeps R (struct_type L tys n)" "keeps R (import_member (lib C) x q v u)" "keeps R (load_ir L path)" "keeps R (link_attribute as)"
  unfolding import_function_def struct_type_def import_member_def load_ir_def link_attribute_def
    Let_def
  by (intro rel_rules)+

lemma rel_importIR [rel_rules]:
  "keeps R (importIR (lib C) path e)"
  unfolding importIR_def Let_def
  by (intro rel_rules)

lemma rel_importCHeader [rel_rules]:
  "keeps R (importCHeader C path e)"
  unfolding importCHeader_def Let_def
  by (intro rel_rules)

lemma rel_move_in [rel_rules]:
  "keeps R (move_in (lib C) d n v q)"
  unfolding move_in_def Let_def
  by (intro rel_rules)

lemma rel_place_member [rel_rules]:
  "keeps R (place_member (lib C) x q d i u)"
  unfolding place_member_def Let_def
  by (intro rel_rules)

lemma rel_typed_argument [rel_rules]:
  "keeps R (typed_argument (lib C) x)"
  unfolding typed_argument_def Let_def
  by (intro rel_rules)

lemma rel_set_symbols [rel_rules]: "keeps R (update_obj a (\<lambda>obj. obj\<lparr>symbols := f obj\<rparr>))"
  by (rule rel_update) (simp add: mild_def well_typed_def)

lemma rel_visit_scope [rel_rules]: "keeps R (visit_scope (lib C) a lines)"
  unfolding visit_scope_def by (intro rel_rules)

end

section \<open>Handlers that visit operands\<close>

locale visitor_rel = state_rel C R
  for C :: "('t, 'v, 'p, 'm) env" and R +
  fixes tr :: "('t, 'v, 'p, 'm) visitor"
  assumes rel_visitor: "keeps R (tr e)"
begin

declare rel_visitor [rel_rules]

lemma rel_lines [rel_rules]:
  "keeps R (apply_bb L tr lines)" "keeps R (survey_line tr tab e)"
  unfolding apply_bb_def survey_line_def Let_def
  by (intro rel_rules)+

lemma rel_cond_values [rel_rules]:
  "keeps R (cond_values (lib C) tr e a x y u v w q)"
  unfolding cond_values_def Let_def
  by (intro rel_rules)

lemma rel_call_args [rel_rules]:
  "keeps R (check_call_arg L tr wh ft ie)" "keeps R (visit_arg L tr e)"
  unfolding check_call_arg_def visit_arg_def Let_def
  by (intro rel_rules)+

lemma rel_call_compiled [rel_rules]:
  "keeps R (call_compiled L tr wh od v xs)"
  unfolding call_compiled_def Let_def
  by (intro rel_rules)

lemma rel_reassign [rel_rules]:
  "keeps R (reassign C tr e wh x d)"
  unfolding reassign_def Let_def
  by (intro rel_rules)

lemma rel_array_parts [rel_rules]:
  "keeps R (array_element L tr wh x d f u)" "keeps R (structure_member L tr d kx)"
  unfolding array_element_def structure_member_def Let_def
  by (intro rel_rules)+

lemma rel_visit_array [rel_rules]:
  "keeps R (visit_array (lib C) tr a xs)"
  unfolding visit_array_def Let_def
  by (intro rel_rules)

lemma rel_visit_structure [rel_rules]:
  "keeps R (visit_structure (lib C) tr a m)"
  unfolding visit_structure_def Let_def
  by (intro rel_rules)

end

text \<open>
  Handlers that evaluate lazy values, or enter a scope or another translator.
\<close>

locale translator_rel = visitor_rel C R tr
  for C :: "('t, 'v, 'p, 'm) env" and R and tr +
  assumes rel_evaluate: "keeps R (evaluate (lib C) tr v args)"
    and rel_cond_scopes: "keeps R (cond_scopes (lib C) tr x y z)"
    and rel_new_translator: "keeps R (in_new_translator (tr e))"
begin

declare rel_evaluate [rel_rules] and rel_cond_scopes [rel_rules] and rel_new_translator [rel_rules]

lemma rel_apply_cond [rel_rules]:
  "keeps R (apply_cond (lib C) tr e a x y args)"
  unfolding apply_cond_def Let_def
  by (intro rel_rules)

lemma rel_call_lazy [rel_rules]:
  "keeps R (call_lazy (lib C) tr ob v xs)"
  unfolding call_lazy_def Let_def
  by (intro rel_rules)

lemma rel_call_scope [rel_rules]:
  "keeps R (call_scope (lib C) tr wh od v al)"
  unfolding call_scope_def Let_def
  by (intro rel_rules)

lemma rel_apply_call [rel_rules]:
  "keeps R (apply_call C tr e a x al args)"
  unfolding apply_call_def Let_def
  by (intro rel_rules)

lemma rel_apply_op [rel_rules]:
  "keeps R (apply_op C tr e args)"
  by (cases e) (simp_all add: apply_op_def Let_def rel_rules split: binop.split sinop.split)

lemma rel_visit_own_operator [rel_rules]:
  "keeps R (visit_own_operator (lib C) tr e v rest)"
  unfolding visit_own_operator_def Let_def
  by (intro rel_rules)

lemma rel_visit_customizable [rel_rules]:
  "keeps R (visit_customizable C tr e)"
  unfolding visit_customizable_def Let_def
  by (intro rel_rules)

lemma rel_visit_operators [rel_rules]:
  "keeps R (visit_operators C tr e)"
  unfolding visit_operators_def Let_def
  by (intro rel_rules)

lemma rel_import_module [rel_rules]:
  "keeps R (import_module C tr path a)"
  unfolding import_module_def Let_def
  by (intro rel_rules) (simp split: parse_result.split add: rel_rules)

lemma rel_visit_import [rel_rules]:
  "keeps R (visit_import C tr e a)"
  unfolding visit_import_def Let_def
  by (intro rel_rules)

lemma rel_visit_pre_variable [rel_rules]:
  "keeps R (visit_pre_variable C tr a n)"
  unfolding visit_pre_variable_def Let_def
  by (intro rel_rules)

lemma rel_visit_function [rel_rules]:
  "keeps R (visit_function (lib C) tr a ps lines)"
  unfolding visit_function_def Let_def
  by (intro rel_rules)

lemma rel_visit [rel_rules]:
  "keeps R (visit C tr e)"
  by (cases e) (simp_all add: visit_def Let_def rel_rules)

end

section \<open>What the translator keeps\<close>

text \<open>
  \<open>grown\<close>: objects are only added, and keep their node and whether they are lazy; the flags stay,
  libraries to link are only added, and the types kept with the objects stay right. \<open>kept\<close>: the
  current scope is the one of before, too.
\<close>

definition typed_heap :: "('t, 'v, 'p, 'm) llvm \<Rightarrow> ('t, 'v, 'p, 'm) tstate \<Rightarrow> bool" where
  "typed_heap L s \<longleftrightarrow> (\<forall>obj \<in> set (heap s). well_typed L obj)"

definition same_nodes :: "('t, 'v) vobj list \<Rightarrow> ('t, 'v) vobj list \<Rightarrow> bool" where
  "same_nodes h h' \<longleftrightarrow> length h \<le> length h' \<and>
     (\<forall>a < length h. ast_value (h' ! a) = ast_value (h ! a) \<and>
        is_lazy (vtype (h' ! a)) = is_lazy (vtype (h ! a)))"

definition grown ::
  "('t, 'v, 'p, 'm) env \<Rightarrow> ('t, 'v, 'p, 'm) tstate \<Rightarrow> ('t, 'v, 'p, 'm) tstate \<Rightarrow> bool" where
  "grown C s s' \<longleftrightarrow>
     same_nodes (heap s) (heap s') \<and> flags s' = flags s \<and>
     (\<exists>ls. link_libraries s' = link_libraries s @ ls) \<and>
     (typed_heap (lib C) s \<longrightarrow> typed_heap (lib C) s')"

definition kept ::
  "('t, 'v, 'p, 'm) env \<Rightarrow> ('t, 'v, 'p, 'm) tstate \<Rightarrow> ('t, 'v, 'p, 'm) tstate \<Rightarrow> bool" where
  "kept C s s' \<longleftrightarrow> grown C s s' \<and> this_scope s' = this_scope s"

lemma same_nodes_refl [simp]: "same_nodes h h"
  by (simp add: same_nodes_def)

lemma same_nodes_append [simp]: "same_nodes h (h @ h')"
  by (simp add: same_nodes_def nth_append)

lemma same_nodes_trans: "same_nodes h h' \<Longrightarrow> same_nodes h' h'' \<Longrightarrow> same_nodes h h''"
  by (simp add: same_nodes_def)

lemma same_nodes_update:
  "ast_value obj = ast_value (h ! a) \<Longrightarrow> is_lazy (vtype obj) = is_lazy (vtype (h ! a)) \<Longrightarrow>
   same_nodes h (h[a := obj])"
  by (cases "a < length h") (simp_all add: same_nodes_def nth_list_update list_update_beyond)

lemma grown_trans: "grown C s t \<Longrightarrow> grown C t u \<Longrightarrow> grown C s u"
  by (auto simp: grown_def intro: same_nodes_trans)

lemma grown_preorder: "preorder (grown C)"
  unfolding preorder_def
proof
  show "reflp (grown C)" by (simp add: reflp_def grown_def)
  show "transp (grown C)" by (rule transpI) (rule grown_trans)
qed

lemma kept_preorder: "preorder (kept C)"
  using grown_preorder [of C] unfolding preorder_def
  by (auto simp: kept_def reflp_def intro!: transpI elim: grown_trans)

text \<open>A copy only adds objects, and these have the right types.\<close>

definition adds ::
  "('t, 'v, 'p, 'm) llvm \<Rightarrow> ('t, 'v, 'p, 'm) tstate \<Rightarrow> ('t, 'v, 'p, 'm) tstate \<Rightarrow> bool" where
  "adds L s s' \<longleftrightarrow> (\<exists>objs. s' = s\<lparr>heap := heap s @ objs\<rparr> \<and> (\<forall>obj \<in> set objs. well_typed L obj))"

lemma adds_preorder: "preorder (adds L)"
  unfolding preorder_def
proof
  show "reflp (adds L)" by (auto simp: reflp_def adds_def intro: exI [of _ "[]"])
  show "transp (adds L)"
    by (rule transpI) (force simp: adds_def)
qed

lemma adds_kept: "adds (lib C) s s' \<Longrightarrow> kept C s s'"
  by (auto simp: adds_def kept_def grown_def typed_heap_def)

lemma copy_value_adds: "keeps (adds L) (copy_value n L a v)"
proof (induction n arbitrary: a v)
  case 0
  show ?case by (simp add: keeps_stop)
next
  case (Suc n)
  let ?syms = "\<lambda>obj. map_comp (\<lambda>kc. andThen (getLLVM (snd kc)) (\<lambda>w.
    andThen (copy_value n L (snd kc) w) (\<lambda>d. ret (fst kc, d)))) (symbols obj)"
  have syms: "keeps (adds L) (?syms obj)" for obj
    by (intro keeps_map_comp keeps_andThen keeps_ret adds_preorder Suc)
      (auto simp: keeps_def getLLVM_def deref_def andThen_def ret_def adds_def split: if_splits
        intro: exI [of _ "[]"])
  show ?case
  proof (rule keepsI)
    fix s b s'
    assume "copy_value (Suc n) L a v s = (Value b, s')"
    then obtain obj syms t w where
      "?syms obj (s\<lparr>heap := heap s @ [void_value]\<rparr>) = (Value syms, t)" and
      s': "s' = t\<lparr>heap := (heap t)[length (heap s) := obj\<lparr>llvm_value := Some w, symbols := syms,
        vtype := copyWithNewLLVMType (vtype obj) (Some (ty_of L w))\<rparr>]\<rparr>"
      by (auto simp: andThen_Value then_do_def deref_def alloc_def the_or_crash_def ret_def crash_def
          update_obj_def split: if_splits option.splits)
    with keepsD [OF syms] have "adds L (s\<lparr>heap := heap s @ [void_value]\<rparr>) t" by blast
    then obtain objs where t: "t = s\<lparr>heap := (heap s @ [void_value]) @ objs\<rparr>"
      and objs: "\<forall>obj \<in> set objs. well_typed L obj"
      by (auto simp: adds_def)
    let ?new = "obj\<lparr>llvm_value := Some w, symbols := syms,
        vtype := copyWithNewLLVMType (vtype obj) (Some (ty_of L w))\<rparr>"
    have "s' = s\<lparr>heap := heap s @ ?new # objs\<rparr>" by (simp add: s' t)
    moreover have "well_typed L ?new" by (simp add: well_typed_def copyWithNewLLVMType_def)
    ultimately show "adds L s s'" using objs unfolding adds_def by (metis set_ConsD)
  qed
qed

lemma keeps_weaken: "keeps R m \<Longrightarrow> (\<And>s s'. R s s' \<Longrightarrow> Q s s') \<Longrightarrow> keeps Q m"
  by (auto simp: keeps_def)

lemma kept_grown: "keeps (kept C) m \<Longrightarrow> keeps (grown C) m"
  unfolding keeps_def kept_def by blast

lemma kept_update:
  assumes "mild (lib C) f"
  shows "keeps (kept C) (update_obj a f)"
proof -
  have "\<forall>obj \<in> set ((heap s)[a := f (heap s ! a)]). well_typed (lib C) obj"
    if "\<forall>obj \<in> set (heap s). well_typed (lib C) obj" "a < length (heap s)" for s :: "('a, 'b, 'c, 'd) tstate"
    using that assms set_update_subset_insert [of "heap s" a] by (fastforce simp: mild_def)
  then show ?thesis
    using assms
    by (auto simp: keeps_def update_obj_def kept_def grown_def typed_heap_def mild_def same_nodes_update
        split: if_splits)
qed

lemma kept_primitives:
  "well_typed (lib C) obj \<Longrightarrow> kept C s (s\<lparr>heap := heap s @ [obj]\<rparr>)"
  "kept C s (s\<lparr>ir := m\<rparr>)" "kept C s (s\<lparr>ip := p\<rparr>)" "kept C s (s\<lparr>loaded_map := lm\<rparr>)"
  "kept C s (s\<lparr>link_libraries := link_libraries s @ ls\<rparr>)"
  by (auto simp: kept_def grown_def typed_heap_def)

interpretation keeping: state_rel C "kept C" for C
proof unfold_locales
  show "keeps (kept C) (copy_value n (lib C) a v)" for n a v
    by (rule keeps_weaken [OF copy_value_adds adds_kept])
  show "keeps (kept C) (update_obj a f)" if "mild (lib C) f" for a f
    using that by (rule kept_update)
qed (simp_all add: kept_preorder kept_primitives keeps_def alloc_def)

interpretation growing: state_rel C "grown C" for C
proof unfold_locales
  show "keeps (grown C) (copy_value n (lib C) a v)" for n a v
    by (rule kept_grown [OF keeping.rel_copy])
  show "keeps (grown C) (alloc obj)" if "well_typed (lib C) obj" for obj
    by (rule kept_grown [OF keeping.rel_alloc [OF that]])
  show "keeps (grown C) (update_obj a f)" if "mild (lib C) f" for a f
    by (rule kept_grown [OF keeping.rel_update [OF that]])
qed (simp_all add: grown_preorder kept_primitives [unfolded kept_def])

section \<open>Entering a scope and coming back\<close>

text \<open>\<open>leaves p m\<close>: whatever \<open>m\<close> does, the current scope is \<open>p\<close> when it returns.\<close>

definition leaves :: "nat \<Rightarrow> ('t, 'v, 'p, 'm, 'a) tcomp \<Rightarrow> bool" where
  "leaves p m \<longleftrightarrow> (\<forall>s a s'. m s = (Value a, s') \<longrightarrow> this_scope s' = p)"

named_theorems leaves_rules

lemma leaves_setScope:
  assumes "keeps (kept C) k"
  shows "leaves p (then_do (setScope p) k)"
  using keepsD [OF assms] by (force simp: leaves_def then_do_def andThen_def setScope_def modifies_def kept_def)

lemma leaves_andThen [leaves_rules]: "(\<And>a. leaves p (f a)) \<Longrightarrow> leaves p (andThen m f)"
  by (auto simp: leaves_def andThen_Value)

lemma leaves_then_do [leaves_rules]: "leaves p k \<Longrightarrow> leaves p (then_do m k)"
  by (simp add: then_do_def leaves_andThen)

lemma leaves_cases [leaves_rules]:
  "leaves p crash"
  "leaves p m1 \<Longrightarrow> (\<And>a. leaves p (f a)) \<Longrightarrow> leaves p (case x of None \<Rightarrow> m1 | Some a \<Rightarrow> f a)"
  "(\<And>a b. leaves p (g a b)) \<Longrightarrow> leaves p (case y of (a, b) \<Rightarrow> g a b)"
  by (auto simp: leaves_def crash_def split: option.splits prod.splits)

lemma kept_bracket:
  assumes "\<And>p. keeps (grown C) (m p)" and "\<And>p. leaves p (m p)"
  shows "keeps (kept C) (andThen (gets this_scope) m)"
proof (rule keepsI)
  fix s a s'
  assume "andThen (gets this_scope) m s = (Value a, s')"
  then have run: "m (this_scope s) s = (Value a, s')" by (simp add: andThen_def gets_def)
  then have "grown C s s'" by (rule keepsD [OF assms(1)])
  moreover have "this_scope s' = this_scope s" using assms(2) run by (auto simp: leaves_def)
  ultimately show "kept C s s'" by (simp add: kept_def)
qed

lemma grown_setScope [rel_rules]: "keeps (grown C) (setScope a)"
  by (simp add: setScope_def keeps_modifies grown_def typed_heap_def)

lemma grown_enter_body [rel_rules]: "keeps (grown C) (enter_body (lib C) f g h b)"
  unfolding enter_body_def by (intro rel_rules)

locale keeping_visitor =
  fixes C :: "('t, 'v, 'p, 'm) env" and tr :: "('t, 'v, 'p, 'm) visitor"
  assumes kept_visitor: "keeps (kept C) (tr e)"

sublocale keeping_visitor \<subseteq> inner: visitor_rel C "grown C" tr
  by unfold_locales (rule kept_grown [OF kept_visitor])

sublocale keeping_visitor \<subseteq> whole: visitor_rel C "kept C" tr
  by unfold_locales (rule kept_visitor)

context keeping_visitor begin

lemma grown_bodies [rel_rules]:
  "keeps (grown C) (cond_block (lib C) tr b m v lines)"
  "keeps (grown C) (survey_body (lib C) tr f v retst pars sig lines)"
  "keeps (grown C) (emit_body (lib C) tr f v rt pars sig lines)"
  unfolding cond_block_def survey_body_def emit_body_def Let_def by (intro rel_rules)+

lemma kept_evaluate_scope: "keeps (kept C) (evaluate_scope (lib C) tr v lines)"
  unfolding evaluate_scope_def
  by (intro kept_bracket leaves_setScope [where C = C] leaves_rules rel_rules)

lemma kept_evaluate_function: "keeps (kept C) (evaluate_function (lib C) tr v args a ps lines)"
  unfolding evaluate_function_def Let_def
  by (intro kept_bracket leaves_setScope [where C = C] leaves_rules rel_rules)

lemma kept_cond_scopes: "keeps (kept C) (cond_scopes (lib C) tr x y z)"
  unfolding cond_scopes_def
  by (intro kept_bracket leaves_setScope [where C = C] leaves_rules rel_rules)

lemma kept_evaluate: "keeps (kept C) (evaluate (lib C) tr v args)"
  unfolding evaluate_def
  by (intro rel_rules) (simp split: expr.split add: rel_rules kept_evaluate_function kept_evaluate_scope)

lemma kept_in_new_translator: "keeps (kept C) (in_new_translator (tr e))"
proof (rule keepsI)
  fix s s' :: "('t, 'v, 'p, 'm) tstate" and a
  let ?inner = "(new_translator (ir s) (ip s) (heap s) [])\<lparr>link_libraries := link_libraries s\<rparr>"
  assume "in_new_translator (tr e) s = (Value a, s')"
  then obtain t where "tr e ?inner = (Value a, t)"
    and s': "s' = s\<lparr>ir := ir t, heap := heap t, link_libraries := link_libraries t\<rparr>"
    by (auto simp: in_new_translator_def Let_def split: prod.splits)
  then have "kept C ?inner t" by (auto intro: keepsD [OF kept_visitor])
  moreover have "well_typed (lib C) void_value" by (simp add: well_typed_def void_value_def)
  ultimately show "kept C s s'"
    by (auto simp: kept_def grown_def typed_heap_def new_translator_def s'
        intro: same_nodes_trans [OF same_nodes_append])
qed

end

sublocale keeping_visitor \<subseteq> handlers: translator_rel C "kept C" tr
  by unfold_locales (rule kept_evaluate kept_cond_scopes kept_in_new_translator)+

context keeping_visitor begin

lemma kept_visit: "keeps (kept C) (visit C tr e)"
  by (rule handlers.rel_visit)

end

lemma kept_translate: "keeps (kept C) (translate C n e)"
proof (induction n arbitrary: e)
  case 0
  show ?case by (simp add: keeps_stop)
next
  case (Suc n)
  then have "keeping_visitor C (translate C n)" by unfold_locales
  then show ?case using keeping_visitor.kept_visit by simp
qed

interpretation translating: keeping_visitor C "translate C n" for C n
  by unfold_locales (rule kept_translate)

text \<open>
  C9. Translating an expression leaves the translator where it was: when it returns, the current
  scope and the flags are those of before, no object has been removed, every object that was there
  still has its node and is lazy or not as before, and libraries to link have only been added.
\<close>

theorem translate_keeps_state:
  assumes "translate C n e s = (Value r, s')"
  shows "this_scope s' = this_scope s \<and> flags s' = flags s \<and> same_nodes (heap s) (heap s') \<and>
    (\<exists>ls. link_libraries s' = link_libraries s @ ls)"
  using keepsD [OF kept_translate assms] by (simp add: kept_def grown_def)

text \<open>
  C12. The type that the translator keeps with an object is the type LLVM gives its value: if that
  holds before an expression is translated, it holds after it for every object, so that the
  assertion in \<open>getType\<close> does not fail and \<open>getType\<close> returns the type that is kept.
\<close>

theorem translate_types:
  assumes "typed_heap (lib C) s" and "translate C n e s = (Value r, s')" and "a < length (heap s')"
  shows "getType (lib C) a s' = (Value (vtype (heap s' ! a)), s')"
proof -
  have "well_typed (lib C) (heap s' ! a)"
    using keepsD [OF kept_translate assms(2)] assms(1,3) by (simp add: kept_def grown_def typed_heap_def)
  with assms(3) show ?thesis
    by (simp add: getType_def andThen_def deref_def then_do_def assert_def ret_def well_typed_def)
qed

end
