(* ===== verification/Value_Copy.thy ===== *)
theory Value_Copy
  imports Translator_State
begin

text \<open>
  What copying a value means: \<open>copyWithNewLLVMValue\<close> and \<open>copy\<close> of \<open>value.hpp\<close> against the tree
  that an object and its symbols stand for. The tree is the abstract value; a copy has the same
  one, and is made of new objects only.
\<close>

section \<open>The tree of an object\<close>

datatype 'd vtree = VTree 'd "(string \<times> 'd vtree) list"

text \<open>The object without its symbols, and its tree if the depth does not exceed the bound.\<close>

definition node_of :: "('t, 'v) vobj \<Rightarrow> ('t, 'v) vobj" where
  "node_of obj = obj\<lparr>symbols := []\<rparr>"

definition sound_obj :: "('t, 'v, 'p, 'm) llvm \<Rightarrow> ('t, 'v) vobj \<Rightarrow> bool" where
  "sound_obj L obj \<longleftrightarrow> llvm_value obj \<noteq> None \<and> well_typed L obj"

fun labelled :: "('a \<Rightarrow> 'b option) \<Rightarrow> (string \<times> 'a) list \<Rightarrow> (string \<times> 'b) list option" where
  "labelled f [] = Some []"
| "labelled f ((k, x) # kxs) =
     (case (f x, labelled f kxs) of (Some y, Some kys) \<Rightarrow> Some ((k, y) # kys) | _ \<Rightarrow> None)"

primrec tree_of ::
  "('t, 'v, 'p, 'm) llvm \<Rightarrow> nat \<Rightarrow> ('t, 'v) vobj list \<Rightarrow> nat \<Rightarrow> ('t, 'v) vobj vtree option" where
  "tree_of L 0 h a = None"
| "tree_of L (Suc n) h a =
     (if a < length h \<and> sound_obj L (h ! a)
      then map_option (VTree (node_of (h ! a))) (labelled (tree_of L n h) (symbols (h ! a)))
      else None)"

fun height :: "'d vtree \<Rightarrow> nat" where
  "height (VTree d kts) = Suc (foldr (\<lambda>kt. max (height (snd kt))) kts 0)"

lemma labelled_mono:
  "labelled f kxs = Some kys \<Longrightarrow> (\<And>x y. x \<in> snd ` set kxs \<Longrightarrow> f x = Some y \<Longrightarrow> g x = Some y) \<Longrightarrow>
   labelled g kxs = Some kys"
  by (induction kxs arbitrary: kys) (auto split: option.splits prod.splits)

lemma labelled_member:
  "labelled f kxs = Some kys \<Longrightarrow> (k, y) \<in> set kys \<Longrightarrow> \<exists>x. f x = Some y"
  by (induction kxs arbitrary: kys) (force split: option.splits prod.splits)+

lemma tree_of_Suc:
  "tree_of L (Suc n) h a = Some T \<longleftrightarrow> a < length h \<and> sound_obj L (h ! a) \<and>
     (\<exists>kts. labelled (tree_of L n h) (symbols (h ! a)) = Some kts \<and> T = VTree (node_of (h ! a)) kts)"
  by auto

lemma labelled_below:
  "labelled f kxs = Some kys \<Longrightarrow> (\<And>x y. f x = Some y \<Longrightarrow> y \<in> snd ` set kys \<Longrightarrow> g x = Some y) \<Longrightarrow>
   labelled g kxs = Some kys"
  by (induction kxs arbitrary: kys) (auto split: option.splits prod.splits)

lemma tree_of_append: "tree_of L n h a = Some T \<Longrightarrow> tree_of L n (h @ h') a = Some T"
  by (induction n arbitrary: a T) (auto simp: nth_append elim!: labelled_mono split: if_splits)

lemma tree_of_mono: "tree_of L n h a = Some T \<Longrightarrow> n \<le> m \<Longrightarrow> tree_of L m h a = Some T"
proof (induction n arbitrary: m a T)
  case (Suc n)
  then obtain m' where m: "m = Suc m'" "n \<le> m'" by (cases m) auto
  from Suc.prems(1) obtain kts where kts: "labelled (tree_of L n h) (symbols (h ! a)) = Some kts"
    and rest: "a < length h" "sound_obj L (h ! a)" "T = VTree (node_of (h ! a)) kts"
    unfolding tree_of_Suc by blast
  have "labelled (tree_of L m' h) (symbols (h ! a)) = Some kts"
    by (rule labelled_mono [OF kts Suc.IH [OF _ m(2)]])
  with rest show ?case unfolding m(1) tree_of_Suc by blast
qed simp

section \<open>The depth of a tree\<close>

lemma height_member: "(k, t) \<in> set kts \<Longrightarrow> height t < height (VTree d kts)"
  by (induction kts) auto

lemma height_attained: "kts \<noteq> [] \<Longrightarrow> \<exists>k t. (k, t) \<in> set kts \<and> height (VTree d kts) = Suc (height t)"
proof (induction kts)
  case (Cons kt kts)
  obtain k t where kt: "kt = (k, t)" by (cases kt)
  show ?case
  proof (cases "height t \<ge> foldr (\<lambda>kt. max (height (snd kt))) kts 0")
    case True
    then show ?thesis by (auto simp: kt max_def)
  next
    case False
    then have "kts \<noteq> []" by auto
    with Cons.IH False show ?thesis by (auto simp: kt max_def)
  qed
qed simp

lemma height_pos: "0 < height T"
  by (cases T) simp

text \<open>Below a node of height \<open>k\<close> there is a node of every smaller height.\<close>

lemma heights_below:
  "tree_of L n h a = Some T \<Longrightarrow> 0 < k \<Longrightarrow> k \<le> height T \<Longrightarrow>
   \<exists>c T'. c < length h \<and> tree_of L n h c = Some T' \<and> height T' = k"
proof (induction n arbitrary: a T)
  case (Suc n)
  then obtain kts where a: "a < length h" and T: "T = VTree (node_of (h ! a)) kts"
    and kts: "labelled (tree_of L n h) (symbols (h ! a)) = Some kts"
    unfolding tree_of_Suc by blast
  show ?case
  proof (cases "k = height T")
    case True
    with Suc.prems a show ?thesis by blast
  next
    case False
    with Suc.prems T have "kts \<noteq> []" by auto
    then obtain x t where t: "(x, t) \<in> set kts" "height T = Suc (height t)"
      unfolding T by (blast dest: height_attained)
    with False Suc.prems have "k \<le> height t" by simp
    from labelled_member [OF kts t(1)] obtain c where "tree_of L n h c = Some t" ..
    from Suc.IH [OF this \<open>0 < k\<close> \<open>k \<le> height t\<close>] show ?thesis
      using tree_of_mono [OF _ le_SucI [OF order_refl]] by blast
  qed
qed simp

lemma height_bound: "tree_of L n h a = Some T \<Longrightarrow> height T \<le> length h"
proof -
  assume T: "tree_of L n h a = Some T"
  let ?f = "\<lambda>c. height (the (tree_of L n h c))"
  have "k \<in> ?f ` {..<length h}" if k: "k \<in> {1..height T}" for k
  proof -
    from k heights_below [OF T, of k] obtain c T'
      where "c < length h" "tree_of L n h c = Some T'" "height T' = k" by auto
    then show ?thesis by (intro image_eqI [of _ _ c]) simp_all
  qed
  then have "{1..height T} \<subseteq> ?f ` {..<length h}" by blast
  then have "card {1..height T} \<le> card {..<length h}" by (rule surj_card_le [rotated]) simp
  then show ?thesis by simp
qed

lemma tree_of_height: "tree_of L n h a = Some T \<Longrightarrow> tree_of L (height T) h a = Some T"
proof (induction n arbitrary: a T)
  case (Suc n)
  then obtain kts where T: "T = VTree (node_of (h ! a)) kts" and a: "a < length h" "sound_obj L (h ! a)"
    and kts: "labelled (tree_of L n h) (symbols (h ! a)) = Some kts"
    unfolding tree_of_Suc by blast
  obtain m where m: "height T = Suc m" using height_pos [of T] by (cases "height T") auto
  have "labelled (tree_of L m h) (symbols (h ! a)) = Some kts"
  proof (rule labelled_below [OF kts])
    fix x t assume "tree_of L n h x = Some t" "t \<in> snd ` set kts"
    moreover from this(2) obtain k where "(k, t) \<in> set kts" by force
    then have "height t \<le> m" using m height_member [of k t kts "node_of (h ! a)"] by (simp add: T)
    ultimately show "tree_of L m h x = Some t" using Suc.IH tree_of_mono by metis
  qed
  with a T show ?case unfolding m tree_of_Suc by blast
qed simp

section \<open>Copies\<close>

text \<open>
  \<open>copied L n s r T\<close>: the computation has ended with a new object that has the tree \<open>T\<close>, made of new
  objects only: the tree is the same whatever the old objects are.
\<close>

definition copied ::
  "('t, 'v, 'p, 'm) llvm \<Rightarrow> nat \<Rightarrow> ('t, 'v, 'p, 'm) tstate \<Rightarrow>
   nat outcome \<times> ('t, 'v, 'p, 'm) tstate \<Rightarrow> ('t, 'v) vobj vtree \<Rightarrow> bool" where
  "copied L n s r T \<longleftrightarrow> (\<exists>objs.
     r = (Value (length (heap s)), s\<lparr>heap := heap s @ objs\<rparr>) \<and>
     (\<forall>h. length h = length (heap s) \<longrightarrow> tree_of L n (h @ objs) (length h) = Some T))"

abbreviation copy_child ::
  "nat \<Rightarrow> ('t, 'v, 'p, 'm) llvm \<Rightarrow> string \<times> nat \<Rightarrow> ('t, 'v, 'p, 'm, string \<times> nat) tcomp" where
  "copy_child m L kc \<equiv> andThen (getLLVM (snd kc)) (\<lambda>w.
     andThen (copy_value m L (snd kc) w) (\<lambda>d. ret (fst kc, d)))"

lemma copy_children:
  assumes "\<And>s c T. tree_of L n (heap s) c = Some T \<Longrightarrow>
      copied L n s (copy_value m L c (llvm_value (heap s ! c)) s) T"
  shows "labelled (tree_of L n (heap s)) kcs = Some kts \<Longrightarrow>
    \<exists>kds objs. map_comp (copy_child m L) kcs s = (Value kds, s\<lparr>heap := heap s @ objs\<rparr>) \<and>
      (\<forall>h. length h = length (heap s) \<longrightarrow> labelled (tree_of L n (h @ objs)) kds = Some kts)"
proof (induction kcs arbitrary: s kts)
  case Nil
  then show ?case by (auto simp: ret_def intro: exI [of _ "[]"])
next
  case (Cons kc kcs)
  obtain k c where kc: "kc = (k, c)" by (cases kc)
  from Cons.prems obtain t kts' where t: "tree_of L n (heap s) c = Some t"
    and rest: "labelled (tree_of L n (heap s)) kcs = Some kts'" and kts: "kts = (k, t) # kts'"
    by (auto simp: kc split: option.splits)
  have c: "c < length (heap s)" using t by (cases n) (auto split: if_splits)
  from assms [OF t] obtain objs
    where first: "copy_value m L c (llvm_value (heap s ! c)) s =
        (Value (length (heap s)), s\<lparr>heap := heap s @ objs\<rparr>)"
      and tree: "\<forall>h. length h = length (heap s) \<longrightarrow> tree_of L n (h @ objs) (length h) = Some t"
    unfolding copied_def by blast
  let ?s = "s\<lparr>heap := heap s @ objs\<rparr>"
  have "labelled (tree_of L n (heap ?s)) kcs = Some kts'"
    by (rule labelled_mono [OF rest]) (simp add: tree_of_append)
  from Cons.IH [OF this] obtain kds objs'
    where others: "map_comp (copy_child m L) kcs ?s = (Value kds, ?s\<lparr>heap := heap ?s @ objs'\<rparr>)"
      and trees: "\<forall>h. length h = length (heap ?s) \<longrightarrow> labelled (tree_of L n (h @ objs')) kds = Some kts'"
    by blast
  have "map_comp (copy_child m L) (kc # kcs) s =
      (Value ((k, length (heap s)) # kds), s\<lparr>heap := heap s @ objs @ objs'\<rparr>)"
    using first others c by (simp add: kc andThen_def getLLVM_def deref_def ret_def)
  moreover have "labelled (tree_of L n (h @ objs @ objs')) ((k, length (heap s)) # kds) = Some kts"
    if "length h = length (heap s)" for h
    using tree [rule_format, OF that] trees [rule_format, of "h @ objs"] that
      tree_of_append [of L n "h @ objs" "length h" t objs'] by (simp add: kts)
  ultimately show ?case by blast
qed

lemma copy_value_tree:
  "tree_of L n (heap s) a = Some T \<Longrightarrow> n \<le> m \<Longrightarrow>
   copied L n s (copy_value m L a (llvm_value (heap s ! a)) s) T"
proof (induction n arbitrary: m s a T)
  case (Suc n)
  then obtain m' where m: "m = Suc m'" "n \<le> m'" by (cases m) auto
  let ?obj = "heap s ! a" let ?s = "s\<lparr>heap := heap s @ [void_value]\<rparr>"
  from Suc.prems(1) obtain kts where kts: "labelled (tree_of L n (heap s)) (symbols ?obj) = Some kts"
    and a: "a < length (heap s)" "sound_obj L ?obj" and T: "T = VTree (node_of ?obj) kts"
    unfolding tree_of_Suc by blast
  from a(2) obtain w where w: "llvm_value ?obj = Some w" "llvm_type (vtype ?obj) = Some (ty_of L w)"
    by (auto simp: sound_obj_def well_typed_def)
  have "labelled (tree_of L n (heap ?s)) (symbols ?obj) = Some kts"
    by (rule labelled_mono [OF kts]) (simp add: tree_of_append)
  from copy_children [OF Suc.IH [OF _ m(2)] this] obtain kds objs
    where kds: "map_comp (copy_child m' L) (symbols ?obj) ?s = (Value kds, ?s\<lparr>heap := heap ?s @ objs\<rparr>)"
      and trees: "\<forall>h. length h = length (heap ?s) \<longrightarrow> labelled (tree_of L n (h @ objs)) kds = Some kts"
    by blast
  let ?new = "?obj\<lparr>symbols := kds\<rparr>"
  have same: "?obj\<lparr>llvm_value := Some w, symbols := kds,
      vtype := copyWithNewLLVMType (vtype ?obj) (Some (ty_of L w))\<rparr> = ?new"
    using w by (cases ?obj) (simp add: copyWithNewLLVMType_def)
  have "copy_value m L a (llvm_value ?obj) s = (Value (length (heap s)), s\<lparr>heap := heap s @ ?new # objs\<rparr>)"
    using a kds by (simp add: m w same andThen_def deref_def alloc_def the_or_crash_def ret_def
        then_do_def update_obj_def)
  moreover have "tree_of L (Suc n) (h @ ?new # objs) (length h) = Some T"
    if "length h = length (heap s)" for h
  proof -
    have "sound_obj L ?new" using a(2) by (simp add: sound_obj_def well_typed_def)
    moreover have "labelled (tree_of L n ((h @ [?new]) @ objs)) kds = Some kts"
      using trees [rule_format, of "h @ [?new]"] that by simp
    ultimately show ?thesis by (simp add: T node_of_def)
  qed
  ultimately show ?case unfolding copied_def by blast
qed simp

lemma copy_as_copy_value:
  "a < length (heap s) \<Longrightarrow>
   copy L a s = copy_value (Suc (length (heap s))) L a (llvm_value (heap s ! a)) s"
  by (simp add: copy_def copy_with_def andThen_def getLLVM_def deref_def ret_def gets_def)


lemma agrees_copy_value_Suc: "agrees (copy_value n L a v) (copy_value (Suc n) L a v)"
proof (induction n arbitrary: a v)
  case 0
  show ?case by (simp add: agrees_diverge)
next
  case (Suc n)
  show ?case by (subst (1 2) copy_value.simps) (intro agrees_rules Suc)
qed


end
