(* ===== verification/Int_Programs.thy ===== *)
theory Int_Programs
  imports Translator_State
begin

text \<open>
  What the translated code of a program on integers computes. LLVM is known by what its reference
  says of the instructions on \<open>i32\<close>; \<open>D\<close> gives the number that a value of LLVM stands for. The
  reference semantics of scopion is \<open>eval_int\<close>, on 32-bit words.
\<close>

section \<open>Reference semantics\<close>

fun int_op :: "binop \<Rightarrow> (int32 \<Rightarrow> int32 \<Rightarrow> int32) option" where
  "int_op Add = Some (+)"
| "int_op Sub = Some (-)"
| "int_op Mul = Some (*)"
| "int_op IAnd = Some and"
| "int_op IOr = Some or"
| "int_op IXor = Some xor"
| "int_op _ = None"

fun eval_int :: "expr \<Rightarrow> int32 option" where
  "eval_int (Integer a n) = (if lval a \<or> to_call a then None else Some n)"
| "eval_int (BinaryOp op a x y) =
     (case (int_op op, eval_int x, eval_int y) of
        (Some f, Some i, Some j) \<Rightarrow> Some (f i j)
      | _ \<Rightarrow> None)"
| "eval_int _ = None"

fun depth :: "expr \<Rightarrow> nat" where
  "depth (BinaryOp op a x y) = Suc (max (depth x) (depth y))"
| "depth (SingleOp op a x) = Suc (depth x)"
| "depth _ = 1"

section \<open>LLVM on integers\<close>

fun int_instr :: "bin_instr \<Rightarrow> (int32 \<Rightarrow> int32 \<Rightarrow> int32) option" where
  "int_instr CreateAdd = Some (+)"
| "int_instr CreateSub = Some (-)"
| "int_instr CreateMul = Some (*)"
| "int_instr CreateAnd = Some and"
| "int_instr CreateOr = Some or"
| "int_instr CreateXor = Some xor"
| "int_instr _ = None"

text \<open>
  The hypotheses on LLVM: \<open>i32\<close> is an integer type; a constant of it stands for its number; an
  instruction on two values of it makes a value of it, with the result of the operation.
\<close>

definition int_llvm :: "('t, 'v, 'p, 'm) llvm \<Rightarrow> ('v \<Rightarrow> int32) \<Rightarrow> bool" where
  "int_llvm L D \<longleftrightarrow>
     kind L (int_ty L 32) = IntegerTy \<and>
     (\<forall>i. ty_of L (signed_const L (int_ty L 32) i) = int_ty L 32 \<and>
        D (signed_const L (int_ty L 32) i) = word_of_int i) \<and>
     (\<forall>b f x y p m. int_instr b = Some f \<longrightarrow> ty_of L x = int_ty L 32 \<longrightarrow> ty_of L y = int_ty L 32 \<longrightarrow>
        ty_of L (fst (build L (CreateBin b x y) p m)) = int_ty L 32 \<and>
        D (fst (build L (CreateBin b x y) p m)) = f (D x) (D y))"

section \<open>Translating an integer expression\<close>

text \<open>
  The modules that instructions make out of a module, without those that leave a basic block.
\<close>

fun plain_instr :: "('t, 'v) instr \<Rightarrow> bool" where
  "plain_instr (CreateRet v) = False"
| "plain_instr CreateRetVoid = False"
| "plain_instr (CreateBr b) = False"
| "plain_instr (CreateCondBr c b b') = False"
| "plain_instr _ = True"

definition builds :: "('t, 'v, 'p, 'm) llvm \<Rightarrow> ('m \<times> 'm) set" where
  "builds L = {(m, snd (build L i p m)) | m i p. plain_instr i}\<^sup>*"

lemma builds_refl: "(m, m) \<in> builds L"
  by (simp add: builds_def)

lemma builds_step: "(m, m') \<in> builds L \<Longrightarrow> plain_instr i \<Longrightarrow> (m, snd (build L i p m')) \<in> builds L"
  unfolding builds_def by (erule rtrancl.rtrancl_into_rtrancl) blast

lemma builds_instr: "plain_instr i \<Longrightarrow> (m, snd (build L i p m)) \<in> builds L"
  by (rule builds_step [OF builds_refl])

lemma builds_trans: "(m, m') \<in> builds L \<Longrightarrow> (m', m'') \<in> builds L \<Longrightarrow> (m, m'') \<in> builds L"
  unfolding builds_def by (rule rtrancl_trans)

lemma builds_keep:
  "(m, m') \<in> builds L \<Longrightarrow> (\<And>i p m. plain_instr i \<Longrightarrow> Q m \<Longrightarrow> Q (snd (build L i p m))) \<Longrightarrow> Q m \<Longrightarrow> Q m'"
  unfolding builds_def by (induction rule: rtrancl_induct) auto

text \<open>
  A run that only adds objects and instructions, and ends with an object for the number \<open>k\<close> that has
  the node \<open>e\<close>, the last one.
\<close>

definition yields ::
  "('t, 'v, 'p, 'm) llvm \<Rightarrow> ('v \<Rightarrow> int32) \<Rightarrow> ('t, 'v, 'p, 'm) tstate \<Rightarrow> expr \<Rightarrow>
   nat option outcome \<times> ('t, 'v, 'p, 'm) tstate \<Rightarrow> int32 \<Rightarrow> bool" where
  "yields L D s e r k \<longleftrightarrow> (\<exists>m objs w.
     r = (Value (Some (length (heap s) + length objs)),
       s\<lparr>ir := m, heap := heap s @ objs @ [mk_value L (Some w) e False]\<rparr>) \<and>
     (ir s, m) \<in> builds L \<and> ty_of L w = int_ty L 32 \<and> D w = k)"

lemma strip_not_pointer: "kind L t \<noteq> PointerTy \<Longrightarrow> strip_pointers L t = Some t"
  by (simp add: strip_pointers_def while_option_unfold)

lemma strip_pointer: "kind L t = PointerTy \<Longrightarrow> strip_pointers L t = strip_pointers L (pointee L t)"
  unfolding strip_pointers_def by (subst while_option_unfold) simp

lemma strip_int: "kind L t = IntegerTy \<Longrightarrow> strip_pointers L t = Some t"
  by (simp add: strip_not_pointer)

lemma mk_value_simps [simp]:
  "llvm_value (mk_value L v e b) = v" "vtype (mk_value L v e b) =
     \<lparr>llvm_type = map_option (ty_of L) v, is_lazy = b, is_const = False\<rparr>"
  "symbols (mk_value L v e b) = []" "parent (mk_value L v e b) = None"
  by (simp_all add: mk_value_def void_value_def)

lemma getLLVM_at: "a < length (heap s) \<Longrightarrow> getLLVM a s = (Value (llvm_value (heap s ! a)), s)"
  by (simp add: getLLVM_def andThen_def deref_def ret_def)

lemma need_llvm_at:
  "a < length (heap s) \<Longrightarrow> llvm_value (heap s ! a) = Some v \<Longrightarrow> need_llvm a s = (Value v, s)"
  by (simp add: need_llvm_def andThen_def getLLVM_at the_or_crash_def ret_def)

lemma yields_integer:
  assumes "int_llvm L D" and "\<not> lval a" and "\<not> to_call a"
  shows "yields L D s (Integer a n) (visit_integer L a n s) n"
proof -
  let ?w = "signed_const L (int_ty L 32) (sint n)"
  have "visit_integer L a n s = (Value (Some (length (heap s))),
      s\<lparr>ir := ir s, heap := heap s @ [] @ [mk_value L (Some ?w) (Integer a n) False]\<rparr>)"
    using assms(2,3)
    by (simp add: visit_integer_def visit_constant_def check_constant_def then_do_def throw_if_def
        new_value_def alloc_def andThen_def ret_def)
  moreover have "ty_of L ?w = int_ty L 32 \<and> D ?w = n"
    using assms(1) by (simp add: int_llvm_def)
  ultimately show ?thesis unfolding yields_def by (metis add.right_neutral builds_refl list.size(3))
qed

text \<open>
  An object for an integer, which may be marked as constant, and the two operands of an operator.
\<close>

definition int_obj ::
  "('t, 'v, 'p, 'm) llvm \<Rightarrow> ('t, 'v, 'p, 'm) tstate \<Rightarrow> nat \<Rightarrow> 'v \<Rightarrow> bool \<Rightarrow> bool" where
  "int_obj L s a w c \<longleftrightarrow> a < length (heap s) \<and> ty_of L w = int_ty L 32 \<and>
     llvm_value (heap s ! a) = Some w \<and> symbols (heap s ! a) = [] \<and> parent (heap s ! a) = None \<and>
     vtype (heap s ! a) = \<lparr>llvm_type = Some (int_ty L 32), is_lazy = False, is_const = c\<rparr>"

lemma int_obj_type:
  "int_obj L s a w c \<Longrightarrow>
   getType L a s = (Value \<lparr>llvm_type = Some (int_ty L 32), is_lazy = False, is_const = c\<rparr>, s)"
  by (auto simp: int_obj_def getType_def andThen_def deref_def then_do_def assert_def ret_def)

lemma int_obj_llvm:
  "int_obj L s a w c \<Longrightarrow> need_llvm a s = (Value w, s) \<and> getLLVM a s = (Value (Some w), s)"
  by (auto simp: int_obj_def need_llvm_at getLLVM_at)

lemma int_obj_new:
  "heap s ! a = mk_value L (Some w) e False \<Longrightarrow> a < length (heap s) \<Longrightarrow> ty_of L w = int_ty L 32 \<Longrightarrow>
   int_obj L s a w False"
  by (simp add: int_obj_def)

lemma yields_obj:
  assumes "yields L D s e r k"
  obtains a s' w where "r = (Value (Some a), s')" "int_obj L s' a w False" "D w = k"
    "\<exists>m objs. s' = s\<lparr>ir := m, heap := heap s @ objs\<rparr> \<and> (ir s, m) \<in> builds L"
  using assms unfolding yields_def by (force intro: int_obj_new simp: nth_append)

lemma isStruct_int:
  "int_llvm L D \<Longrightarrow> isStruct L \<lparr>llvm_type = Some (int_ty L 32), is_lazy = b, is_const = c\<rparr> s = (Value False, s)"
  by (simp add: isStruct_def isType_if_def andThen_def the_or_crash_def the_or_diverge_def ret_def
      strip_int int_llvm_def)

lemma operands_of_ints:
  assumes "int_llvm (lib C) D" and "binop_is_customizable op"
    and "tr x s = (Value (Some i), s1)" and "int_obj (lib C) s1 i v c"
    and "tr y s1 = (Value (Some j), s2)" and "int_obj (lib C) s2 j w d"
  shows "visit_operators C tr (BinaryOp op a x y) s = apply_op C tr (BinaryOp op a x y) [Some i, Some j] s2"
  using assms(2,3,5) int_obj_type [OF assms(4)] int_obj_type [OF assms(6)] int_obj_llvm [OF assms(6)]
  by (simp add: visit_operators_def op_is_customizable_def visit_customizable_def Let_def andThen_def
      the_or_crash_def ret_def isStruct_int [OF assms(1)] visit_arg_def)

lemma apply_binary_ints:
  assumes "int_obj L s i v c" and "int_obj L s j w d"
  shows "apply_binary L b e [Some i, Some j] s =
    (let (u, m) = build L (CreateBin b v w) (ip s) (ir s)
     in (Value (Some (length (heap s))), s\<lparr>ir := m, heap := heap s @ [mk_value L (Some u) e False]\<rparr>))"
  using int_obj_llvm [OF assms(1)] int_obj_llvm [OF assms(2)]
  by (simp add: apply_binary_def operand_llvm_def operand_def andThen_def the_or_crash_def ret_def
      emit_def new_value_def alloc_def split: prod.splits)

lemma none_double_ints:
  assumes "int_llvm L D" and "int_obj L s i v c" and "int_obj L s j w d"
  shows "none_double L [Some i, Some j] s = (Value True, s)"
  using assms(1) int_obj_type [OF assms(2)] int_obj_type [OF assms(3)]
  by (simp add: andThen_def the_or_crash_def ret_def type_of_def int_llvm_def)

lemma apply_arith_ints:
  assumes "int_llvm L D" and "int_obj L s i v c" and "int_obj L s j w d"
  shows "apply_arith L b b' e [Some i, Some j] s = apply_binary L b e [Some i, Some j] s"
  unfolding apply_arith_def andThen_def none_double_ints [OF assms] by simp

text \<open>The operators on integers, each with the instruction it becomes.\<close>

lemma apply_op_ints:
  assumes "int_llvm (lib C) D" and "int_op op = Some f"
    and "int_obj (lib C) s i v c" and "int_obj (lib C) s j w d"
  shows "\<exists>b. int_instr b = Some f \<and>
    apply_op C tr (BinaryOp op a x y) [Some i, Some j] s =
      apply_binary (lib C) b (BinaryOp op a x y) [Some i, Some j] s"
  using assms(2)
  by (cases op)
    (auto simp: apply_op_def apply_arith_ints [OF assms(1,3,4)] Let_def
      intro: exI [of _ CreateAdd] exI [of _ CreateSub] exI [of _ CreateMul] exI [of _ CreateAnd]
        exI [of _ CreateOr] exI [of _ CreateXor])

lemma yields_binary:
  assumes L: "int_llvm (lib C) D" and f: "int_op op = Some f"
    and x: "yields (lib C) D s x (tr x s) k"
    and y: "\<And>s. yields (lib C) D s y (tr y s) l"
  shows "yields (lib C) D s (BinaryOp op a x y) (visit_operators C tr (BinaryOp op a x y) s) (f k l)"
proof -
  from yields_obj [OF x] obtain i s1 v where s1: "tr x s = (Value (Some i), s1)" "int_obj (lib C) s1 i v False" "D v = k"
    and h1: "\<exists>m objs. s1 = s\<lparr>ir := m, heap := heap s @ objs\<rparr> \<and> (ir s, m) \<in> builds (lib C)" .
  from yields_obj [OF y [of s1]] obtain j s2 w where s2: "tr y s1 = (Value (Some j), s2)" "int_obj (lib C) s2 j w False" "D w = l"
    and h2: "\<exists>m objs. s2 = s1\<lparr>ir := m, heap := heap s1 @ objs\<rparr> \<and> (ir s1, m) \<in> builds (lib C)" .
  from h2 have i2: "int_obj (lib C) s2 i v False"
    using s1(2) by (auto simp: int_obj_def nth_append)
  from f have "binop_is_customizable op" by (cases op) auto
  note visit = operands_of_ints [OF L this s1(1,2) s2(1,2), of a]
  from apply_op_ints [OF L f i2 s2(2)] obtain b where b: "int_instr b = Some f"
    and op: "apply_op C tr (BinaryOp op a x y) [Some i, Some j] s2 =
      apply_binary (lib C) b (BinaryOp op a x y) [Some i, Some j] s2" by blast
  obtain u m where u: "build (lib C) (CreateBin b v w) (ip s2) (ir s2) = (u, m)" by fastforce
  have "ty_of (lib C) u = int_ty (lib C) 32" "D u = f k l"
    using L b s1(2,3) s2(2,3) u unfolding int_llvm_def int_obj_def by (metis fst_conv)+
  moreover from h1 h2 obtain m' objs where "s2 = s\<lparr>ir := m', heap := heap s @ objs\<rparr>"
    and "(ir s, m') \<in> builds (lib C)" by (force intro: builds_trans)
  moreover from this u have "(ir s, m) \<in> builds (lib C)"
    using builds_step [of "ir s" m' "lib C" "CreateBin b v w" "ip s2"] by simp
  ultimately show ?thesis
    unfolding yields_def visit op apply_binary_ints [OF i2 s2(2)] u by auto
qed

lemma translate_int:
  "int_llvm (lib C) D \<Longrightarrow> eval_int e = Some k \<Longrightarrow> depth e \<le> n \<Longrightarrow>
   yields (lib C) D s e (translate C n e s) k"
proof (induction n arbitrary: e k s)
  case 0
  then show ?case by (cases e) auto
next
  case (Suc n)
  show ?case
  proof (cases e)
    case (Integer a i)
    with Suc.prems show ?thesis by (simp add: visit_def yields_integer split: if_splits)
  next
    case (BinaryOp op a x y)
    with Suc.prems obtain f i j where "int_op op = Some f" "eval_int x = Some i" "eval_int y = Some j"
      "k = f i j" "depth x \<le> n" "depth y \<le> n"
      by (auto split: option.splits)
    with Suc show ?thesis by (simp add: BinaryOp visit_def yields_binary)
  qed (use Suc.prems in auto)
qed

text \<open>
  C4. Integer expressions are compiled correctly. An expression made of integer constants with
  addition, subtraction, multiplication and the bitwise operators is translated without an error,
  with a bound of its depth; the value of the result has the type \<open>i32\<close> and stands for the number
  the expression has in 32-bit arithmetic with wrap-around. The module only gets instructions, and
  nothing else of the translator changes.
\<close>

theorem translate_int_correct:
  assumes "int_llvm (lib C) D" and "eval_int e = Some k" and "depth e \<le> n"
  shows "\<exists>m objs w.
    translate C n e s = (Value (Some (length (heap s) + length objs)),
      s\<lparr>ir := m, heap := heap s @ objs @ [mk_value (lib C) (Some w) e False]\<rparr>) \<and>
    (ir s, m) \<in> builds (lib C) \<and> ty_of (lib C) w = int_ty (lib C) 32 \<and> D w = k"
  using translate_int [OF assms] unfolding yields_def .

section \<open>The operator \<open>~\<close>\<close>

text \<open>What LLVM says of the constant 1 of \<open>i32\<close>.\<close>

definition one_llvm :: "('t, 'v, 'p, 'm) llvm \<Rightarrow> ('v \<Rightarrow> int32) \<Rightarrow> bool" where
  "one_llvm L D \<longleftrightarrow> ty_of L (i32 L 1) = int_ty L 32 \<and> D (i32 L 1) = 1"

lemma yields_inot:
  assumes L: "int_llvm (lib C) D" "one_llvm (lib C) D" and x: "yields (lib C) D s x (tr x s) k"
  shows "yields (lib C) D s (SingleOp INot a x) (visit_operators C tr (SingleOp INot a x) s) (xor k 1)"
proof -
  let ?L = "lib C" let ?e = "SingleOp INot a x"
  from yields_obj [OF x] obtain i s1 v where s1: "tr x s = (Value (Some i), s1)" "int_obj ?L s1 i v False" "D v = k"
    and h1: "\<exists>m objs. s1 = s\<lparr>ir := m, heap := heap s @ objs\<rparr> \<and> (ir s, m) \<in> builds (lib C)" .
  obtain u m where u: "build ?L (CreateBin CreateXor v (i32 ?L 1)) (ip s1) (ir s1) = (u, m)" by fastforce
  have "int_instr CreateXor = Some xor" by simp
  with L u s1(2,3) have w: "ty_of ?L u = int_ty ?L 32" "D u = xor k 1"
    unfolding int_llvm_def one_llvm_def int_obj_def by (metis fst_conv)+
  have "visit_operators C tr ?e s = (Value (Some (length (heap s1))),
      s1\<lparr>ir := m, heap := heap s1 @ [mk_value ?L (Some u) ?e False]\<rparr>)"
    using s1(1) int_obj_type [OF s1(2)] int_obj_llvm [OF s1(2)] u
    by (simp add: visit_operators_def op_is_customizable_def visit_customizable_def Let_def andThen_def
        the_or_crash_def ret_def isStruct_int [OF L(1)] apply_op_def apply_inot_def operand_llvm_def
        operand_def emit_def new_value_def alloc_def)
  moreover have "(ir s, m) \<in> builds ?L"
    using h1 u builds_step [of "ir s" "ir s1" ?L "CreateBin CreateXor v (i32 ?L 1)" "ip s1"] by auto
  ultimately show ?thesis using h1 w unfolding yields_def by fastforce
qed

text \<open>
  C37. The operator \<open>~\<close> is not the bitwise complement: the code for \<open>~e\<close> flips the lowest bit of the
  value of \<open>e\<close> and leaves the other 31 bits.
\<close>

theorem inot_flips_lowest_bit:
  assumes "int_llvm (lib C) D" and "one_llvm (lib C) D" and "eval_int e = Some k" and "depth e \<le> n"
  shows "\<exists>m objs w node.
    translate C (Suc n) (SingleOp INot a e) s = (Value (Some (length (heap s) + length objs)),
      s\<lparr>ir := m, heap := heap s @ objs @ [mk_value (lib C) (Some w) node False]\<rparr>) \<and>
    D w = xor k 1 \<and> D w \<noteq> not k"
proof -
  have "bit (xor k 1) 1 \<noteq> bit (not k) 1" by (simp add: bit_simps)
  then have "xor k 1 \<noteq> not k" by metis
  moreover have "translate C (Suc n) (SingleOp INot a e) s = visit_operators C (translate C n) (SingleOp INot a e) s"
    by (simp add: visit_def)
  ultimately show ?thesis
    using yields_inot [where x = e and tr = "translate C n", OF assms(1,2) translate_int [OF assms(1,3,4), of s], of a]
    unfolding yields_def by metis
qed

end
