(* ===== verification/Assignments.thy ===== *)
theory Assignments
  imports Int_Programs
begin

text \<open>
  Variables: what an assignment does on its first and on a later occurrence of the name, for
  integer values, and the rule that a variable without the attribute \<open>mut\<close> is assigned once.
\<close>

section \<open>Operations on objects that are there\<close>

lemma deref_at: "a < length (heap s) \<Longrightarrow> deref a s = (Value (heap s ! a), s)"
  by (simp add: deref_def)

lemma update_at:
  "a < length (heap s) \<Longrightarrow> update_obj a f s = (Value (), s\<lparr>heap := (heap s)[a := f (heap s ! a)]\<rparr>)"
  by (simp add: update_obj_def)

lemma getType_at:
  "a < length (heap s) \<Longrightarrow> well_typed L (heap s ! a) \<Longrightarrow> getType L a s = (Value (vtype (heap s ! a)), s)"
  by (simp add: getType_def andThen_def deref_def then_do_def assert_def ret_def well_typed_def)

lemma set_const_at:
  "a < length (heap s) \<Longrightarrow> well_typed L (heap s ! a) \<Longrightarrow>
   set_const L a b s = (Value (), s\<lparr>heap := (heap s)[a := (heap s ! a)
     \<lparr>vtype := (vtype (heap s ! a))\<lparr>is_const := b\<rparr>\<rparr>]\<rparr>)"
  by (simp add: set_const_def then_do_def andThen_def getType_at update_at)

lemma copy_with_leaf:
  "a < length (heap s) \<Longrightarrow> symbols (heap s ! a) = [] \<Longrightarrow>
   copy_with L a (Some w) s = (Value (length (heap s)), s\<lparr>heap := heap s @ [(heap s ! a)
     \<lparr>llvm_value := Some w, symbols := [],
      vtype := copyWithNewLLVMType (vtype (heap s ! a)) (Some (ty_of L w))\<rparr>]\<rparr>)"
  by (simp add: copy_with_def andThen_def gets_def deref_def alloc_def ret_def the_or_crash_def
      then_do_def update_obj_def)

lemma isFundamental_int:
  "int_llvm L D \<Longrightarrow>
   isFundamental L \<lparr>llvm_type = Some (int_ty L 32), is_lazy = b, is_const = c\<rparr> s = (Value True, s)"
  by (simp add: isFundamental_def isType_if_def andThen_def the_or_crash_def the_or_diverge_def ret_def
      strip_int int_llvm_def)

text \<open>What LLVM says of \<open>alloca\<close> and of pointer types.\<close>

definition place_llvm :: "('t, 'v, 'p, 'm) llvm \<Rightarrow> bool" where
  "place_llvm L \<longleftrightarrow>
     (\<forall>t. kind L (ptr_to L t) = PointerTy \<and> pointee L (ptr_to L t) = t) \<and>
     (\<forall>t n p m. ty_of L (fst (build L (CreateAlloca t n) p m)) = ptr_to L t)"

lemma fundamental_place:
  "int_llvm L D \<Longrightarrow> place_llvm L \<Longrightarrow>
   isFundamental L \<lparr>llvm_type = Some (ptr_to L (int_ty L 32)), is_lazy = b, is_const = c\<rparr> s = (Value True, s)"
  by (simp add: isFundamental_def isType_if_def andThen_def the_or_crash_def the_or_diverge_def ret_def
      strip_pointer strip_int int_llvm_def place_llvm_def)

section \<open>Variables of the current scope\<close>

abbreviation scope_symbols :: "('t, 'v, 'p, 'm) tstate \<Rightarrow> nat smap" where
  "scope_symbols s \<equiv> symbols (heap s ! this_scope s)"

definition int_var_obj :: "('t, 'v, 'p, 'm) llvm \<Rightarrow> bool \<Rightarrow> ('t, 'v) vobj \<Rightarrow> bool" where
  "int_var_obj L const obj \<longleftrightarrow>
     (\<exists>place. llvm_value obj = Some place \<and> ty_of L place = ptr_to L (int_ty L 32)) \<and>
     vtype obj = \<lparr>llvm_type = Some (ptr_to L (int_ty L 32)), is_lazy = False, is_const = const\<rparr> \<and>
     symbols obj = [] \<and> parent obj = None"

definition int_var ::
  "('t, 'v, 'p, 'm) llvm \<Rightarrow> ('t, 'v, 'p, 'm) tstate \<Rightarrow> string \<Rightarrow> bool \<Rightarrow> bool" where
  "int_var L s x const \<longleftrightarrow> this_scope s < length (heap s) \<and>
     (\<exists>c < length (heap s). sm_find (scope_symbols s) x = Some c \<and> int_var_obj L const (heap s ! c))"

lemma visit_new_variable:
  assumes "lval b" and "this_scope s < length (heap s)" and "sm_find (scope_symbols s) x = None"
  shows "visit_variable L b x s = (Value (Some (length (heap s))),
    s\<lparr>heap := heap s @ [(mk_value L None (Variable b x) False)\<lparr>vname := x\<rparr>]\<rparr>)"
  using assms
  by (simp add: visit_variable_def andThen_def gets_def deref_at new_null_def alloc_def then_do_def
      setName_def update_at ret_def)

lemma visit_known_variable:
  assumes "lval b" and "this_scope s < length (heap s)" and "sm_find (scope_symbols s) x = Some c"
    and "c < length (heap s)" and "int_var_obj L const (heap s ! c)"
  shows "visit_variable L b x s = (Value (Some (length (heap s))),
    s\<lparr>heap := (heap s)[c := (heap s ! c)\<lparr>vname := x\<rparr>] @ [(heap s ! c)\<lparr>vname := x\<rparr>]\<rparr>)"
proof -
  from assms(5) obtain place where "llvm_value (heap s ! c) = Some place" "symbols (heap s ! c) = []"
    and "copyWithNewLLVMType (vtype (heap s ! c)) (Some (ty_of L place)) = vtype (heap s ! c)"
    by (auto simp: int_var_obj_def copyWithNewLLVMType_def)
  with assms(1-4) show ?thesis
    by (simp add: visit_variable_def andThen_def gets_def deref_at then_do_def setName_def update_at
        ret_def fetch_def copy_def getLLVM_at copy_with_leaf)
qed

lemma sm_find_put_same: "sm_find (sm_put x v m) x = Some v"
  by (induction m) auto

lemma sm_find_put_other: "y \<noteq> x \<Longrightarrow> sm_find (sm_put x v m) y = sm_find m y"
  by (induction m) auto

lemma int_var_stored:
  assumes "this_scope s < length h" and "int_var_obj L const obj"
  shows "int_var L (s\<lparr>ir := m, heap := h[this_scope s := (h ! this_scope s)
    \<lparr>symbols := sm_put x (length h) (symbols (h ! this_scope s))\<rparr>] @ [obj]\<rparr>) x const"
  using assms by (simp add: int_var_def nth_append sm_find_put_same)

text \<open>
  The state after the value \<open>w\<close> of the object \<open>src\<close> has been stored to a place under the name \<open>x\<close>: the
  copy of the object becomes the one of the name.
\<close>

abbreviation after_store ::
  "('t, 'v, 'p, 'm) llvm \<Rightarrow> string \<Rightarrow> nat \<Rightarrow> 'v \<Rightarrow> 'v \<Rightarrow> bool \<Rightarrow> ('t, 'v, 'p, 'm) tstate \<Rightarrow>
   ('t, 'v, 'p, 'm) tstate" where
  "after_store L x src w place const s \<equiv>
     s\<lparr>ir := snd (build L (CreateStore w place) (ip s) (ir s)),
       heap := (heap s)[this_scope s := (heap s ! this_scope s)
           \<lparr>symbols := sm_put x (length (heap s)) (scope_symbols s)\<rparr>] @
         [(heap s ! src)\<lparr>llvm_value := Some place, vtype :=
           \<lparr>llvm_type = Some (ptr_to L (int_ty L 32)), is_lazy = False, is_const = const\<rparr>\<rparr>]\<rparr>"

lemma copyFull_int:
  assumes L: "int_llvm L D" "place_llvm L"
    and src: "int_obj L s src w const"
    and dest: "dest < length (heap s)" "parent (heap s ! dest) = None"
    and place: "ty_of L place = ptr_to L (int_ty L 32)"
    and x: "x \<noteq> []" and scope: "this_scope s < length (heap s)"
  shows "copyFull L src dest x (Some place) None s = (Value True, after_store L x src w place const s)"
proof -
  let ?m = "snd (build L (CreateStore w place) (ip s) (ir s))"
  have obj: "src < length (heap s)" "llvm_value (heap s ! src) = Some w" "ty_of L w = int_ty L 32"
    "vtype (heap s ! src) = \<lparr>llvm_type = Some (int_ty L 32), is_lazy = False, is_const = const\<rparr>"
    "symbols (heap s ! src) = []"
    using src by (simp_all add: int_obj_def)
  have "store_full L src (Some place) s = (Value True, s\<lparr>ir := ?m\<rparr>)"
    using obj place L(2) int_obj_type [OF src]
    by (simp add: isFundamental_int [OF L(1)] store_full_def andThen_def getLLVM_at the_or_crash_def ret_def place_llvm_def
        then_do_def emit_unit_def emit_def)
  moreover have "copy_with L src (Some place) (s\<lparr>ir := ?m\<rparr>) = (Value (length (heap s)),
      s\<lparr>ir := ?m, heap := heap s @ [(heap s ! src)\<lparr>llvm_value := Some place, vtype :=
        \<lparr>llvm_type = Some (ptr_to L (int_ty L 32)), is_lazy = False, is_const = const\<rparr>\<rparr>]\<rparr>)"
    using obj by (simp add: copy_with_leaf place copyWithNewLLVMType_def)
  ultimately show ?thesis
    using obj dest x scope int_obj_type [OF src]
    by (simp add: copyFull_def andThen_def deref_at Let_def gets_def then_do_def
        set_symbol_def update_at nth_append list_update_append ret_def)
qed

section \<open>An assignment\<close>

text \<open>A target with a place: the assignment of a constant is refused, of another one stored.\<close>

lemma apply_assign_known:
  assumes L: "int_llvm (lib C) D" "place_llvm (lib C)" and x: "x \<noteq> []"
    and scope: "this_scope s < length (heap s)"
    and d: "d < length (heap s)" "int_var_obj (lib C) const (heap s ! d)" "vname (heap s ! d) = x"
      "llvm_value (heap s ! d) = Some place"
    and src: "int_obj (lib C) s src w c"
  shows "apply_assign C target wh [Some d, Some src] s =
    (if const then (Throw (translate_error ''Assignment of read-only variable'' wh), s)
     else (Value (Some src), after_store (lib C) x src w place c s))"
proof -
  let ?L = "lib C"
  have obj: "ty_of ?L place = ptr_to ?L (int_ty ?L 32)" "parent (heap s ! d) = None"
    "vtype (heap s ! d) = \<lparr>llvm_type = Some (ptr_to ?L (int_ty ?L 32)), is_lazy = False, is_const = const\<rparr>"
    "well_typed ?L (heap s ! d)"
    using d by (auto simp: int_var_obj_def well_typed_def)
  have "kind ?L (ty_of ?L w) \<noteq> VoidTy" using L(1) src by (simp add: int_llvm_def int_obj_def)
  with copyFull_int [OF L src d(1) obj(2,1) x scope] show ?thesis
    using d obj int_obj_llvm [OF src]
    by (simp add: apply_assign_def Let_def andThen_def operand_def the_or_crash_def ret_def deref_at
        then_do_def throw_if_def getType_at throw_def)
qed

text \<open>A new name: the variable is made, and is constant unless it has the attribute \<open>mut\<close>.\<close>

abbreviation after_declare ::
  "('t, 'v, 'p, 'm) llvm \<Rightarrow> string \<Rightarrow> nat \<Rightarrow> bool \<Rightarrow> ('t, 'v, 'p, 'm) tstate \<Rightarrow> ('t, 'v, 'p, 'm) tstate" where
  "after_declare L x src const s \<equiv>
     s\<lparr>ir := snd (build L (CreateAlloca (int_ty L 32) x) (ip s) (ir s)),
       heap := (heap s)[src := (heap s ! src)
         \<lparr>vtype := \<lparr>llvm_type = Some (int_ty L 32), is_lazy = False, is_const = const\<rparr>\<rparr>]\<rparr>"

lemma apply_assign_new:
  assumes L: "int_llvm (lib C) D" "place_llvm (lib C)" and x: "x \<noteq> []"
    and heap: "sm_find (attributes b) ''heap'' = None"
    and scope: "this_scope s < length (heap s)"
    and d: "d < length (heap s)" "heap s ! d = (mk_value (lib C) None e False)\<lparr>vname := x\<rparr>"
    and src: "int_obj (lib C) s src w c" and place: "place = fst (build (lib C) (CreateAlloca (int_ty (lib C) 32) x) (ip s) (ir s))"
  shows "apply_assign C (Variable b x) wh [Some d, Some src] s =
    (let const = (sm_find (attributes b) ''mut'' = None)
     in (Value (Some src), after_store (lib C) x src w place const (after_declare (lib C) x src const s)))"
proof -
  let ?L = "lib C" let ?const = "sm_find (attributes b) ''mut'' = None"
  let ?s' = "after_declare ?L x src ?const s"
  have obj: "src < length (heap s)" "ty_of ?L w = int_ty ?L 32" "well_typed ?L (heap s ! src)"
    "vtype (heap s ! src) = \<lparr>llvm_type = Some (int_ty ?L 32), is_lazy = False, is_const = c\<rparr>"
    using src by (auto simp: int_obj_def well_typed_def)
  then have new: "new_place C (Variable b x) wh None x src w s = (Value place, ?s')"
    using heap int_obj_type [OF src] place
    by (simp add: new_place_def declare_variable_def Let_def andThen_def isFundamental_int [OF L(1)]
        emit_def then_do_def set_const_at ret_def)
  have src': "int_obj ?L ?s' src w ?const" using src by (simp add: int_obj_def)
  have "src \<noteq> d" using src d(2) by (auto simp: int_obj_def)
  with d have d': "d < length (heap ?s')" "parent (heap ?s' ! d) = None" by simp_all
  have "ty_of ?L place = ptr_to ?L (int_ty ?L 32)" using L(2) place by (simp add: place_llvm_def)
  from copyFull_int [OF L src' d' this x] scope new show ?thesis
    using d L(1) obj(2) int_obj_llvm [OF src]
    by (simp add: apply_assign_def Let_def andThen_def operand_def the_or_crash_def ret_def deref_at
        then_do_def throw_if_def int_llvm_def)
qed

lemma assign_steps:
  assumes "translate C n x s = (Value d, s1)" and "translate C n e s1 = (Value src, s2)"
  shows "translate C (Suc n) (BinaryOp Assign a x e) s = apply_assign C x (where_at a) [d, src] s2"
  using assms
  by (simp add: visit_def visit_operators_def op_is_customizable_def andThen_def ret_def apply_op_def Let_def)

text \<open>The operands of \<open>x = e\<close>: the object of the name, then the one of the value.\<close>

lemma assign_operands:
  assumes L: "int_llvm (lib C) D" and e: "eval_int e = Some k" "depth e \<le> n"
    and x: "visit_variable (lib C) b x s = (Value (Some d), s1)"
  shows "\<exists>s2 src w m objs.
    translate C (Suc n) (BinaryOp Assign a (Variable b x) e) s =
      apply_assign C (Variable b x) (where_at a) [Some d, Some src] s2 \<and>
    int_obj (lib C) s2 src w False \<and> D w = k \<and> s2 = s1\<lparr>ir := m, heap := heap s1 @ objs\<rparr>"
proof -
  obtain n' where n: "n = Suc n'" using e(2) by (cases n) (cases e; simp)+
  then have v: "translate C n (Variable b x) s = (Value (Some d), s1)"
    using x by (simp add: visit_def)
  from yields_obj [OF translate_int [OF L e, of s1]] obtain src s2 w
    where "translate C n e s1 = (Value (Some src), s2)" "int_obj (lib C) s2 src w False" "D w = k"
      and "\<exists>m objs. s2 = s1\<lparr>ir := m, heap := heap s1 @ objs\<rparr> \<and> (ir s1, m) \<in> builds (lib C)" .
  with assign_steps [OF v this(1)] show ?thesis by blast
qed

lemma assign_known:
  assumes L: "int_llvm (lib C) D" "place_llvm (lib C)" and b: "lval b" and x: "x \<noteq> []"
    and var: "int_var (lib C) s x const" and e: "eval_int e = Some k" "depth e \<le> n"
  shows "\<exists>r s'. translate C (Suc n) (BinaryOp Assign a (Variable b x) e) s = (r, s') \<and>
    (if const then r = Throw (translate_error ''Assignment of read-only variable'' (where_at a))
     else (\<exists>v. r = Value (Some v)) \<and> int_var (lib C) s' x False)"
proof -
  let ?L = "lib C" let ?d = "length (heap s)"
  from var obtain c where scope: "this_scope s < length (heap s)"
    and c: "sm_find (scope_symbols s) x = Some c" "c < length (heap s)"
      "int_var_obj ?L const (heap s ! c)"
    unfolding int_var_def by blast
  from visit_known_variable [OF b scope c] assign_operands [OF L(1) e, of b x s ?d _ a]
  obtain s1 src w where run: "translate C (Suc n) (BinaryOp Assign a (Variable b x) e) s =
        apply_assign C (Variable b x) (where_at a) [Some ?d, Some src] s1"
      and s1: "this_scope s1 = this_scope s" "?d < length (heap s1)"
        "heap s1 ! ?d = (heap s ! c)\<lparr>vname := x\<rparr>" "int_obj ?L s1 src w False"
    by (fastforce simp: nth_append)
  from c(3) obtain place where place: "llvm_value (heap s ! c) = Some place"
      "ty_of ?L place = ptr_to ?L (int_ty ?L 32)"
    by (auto simp: int_var_obj_def)
  have "int_var_obj ?L const (heap s1 ! ?d)" using c(3) s1(3) by (simp add: int_var_obj_def)
  from apply_assign_known [OF L x _ s1(2) this _ _ s1(4), of place] scope s1 place
  have "apply_assign C (Variable b x) (where_at a) [Some ?d, Some src] s1 =
      (if const then (Throw (translate_error ''Assignment of read-only variable'' (where_at a)), s1)
       else (Value (Some src), after_store ?L x src w place False s1))" by simp
  moreover have "int_var ?L (after_store ?L x src w place False s1) x False"
    using scope s1 place by (intro int_var_stored) (simp_all add: int_obj_def int_var_obj_def)
  ultimately show ?thesis using run by auto
qed

lemma assign_new:
  assumes L: "int_llvm (lib C) D" "place_llvm (lib C)" and b: "lval b" and x: "x \<noteq> []"
    and heap: "sm_find (attributes b) ''heap'' = None"
    and scope: "this_scope s < length (heap s)" and new: "sm_find (scope_symbols s) x = None"
    and e: "eval_int e = Some k" "depth e \<le> n"
  shows "\<exists>v s'. translate C (Suc n) (BinaryOp Assign a (Variable b x) e) s = (Value (Some v), s') \<and>
    int_var (lib C) s' x (sm_find (attributes b) ''mut'' = None)"
proof -
  let ?L = "lib C" let ?const = "sm_find (attributes b) ''mut'' = None" let ?d = "length (heap s)"
  from assign_operands [OF L(1) e visit_new_variable [OF b scope new], of a]
  obtain s1 src w where run: "translate C (Suc n) (BinaryOp Assign a (Variable b x) e) s =
        apply_assign C (Variable b x) (where_at a) [Some ?d, Some src] s1"
      and s1: "this_scope s1 = this_scope s" "?d < length (heap s1)"
        "heap s1 ! ?d = (mk_value ?L None (Variable b x) False)\<lparr>vname := x\<rparr>" "int_obj ?L s1 src w False"
    by (fastforce simp: nth_append)
  let ?s2 = "after_declare ?L x src ?const s1"
  let ?place = "fst (build ?L (CreateAlloca (int_ty ?L 32) x) (ip s1) (ir s1))"
  from apply_assign_new [OF L x heap _ s1(2,3,4) refl] scope s1
  have "apply_assign C (Variable b x) (where_at a) [Some ?d, Some src] s1 =
      (Value (Some src), after_store ?L x src w ?place ?const ?s2)" by (simp add: Let_def)
  moreover have "int_var ?L (after_store ?L x src w ?place ?const ?s2) x ?const"
    using scope s1 L(2) by (intro int_var_stored) (simp_all add: int_obj_def int_var_obj_def place_llvm_def)
  ultimately show ?thesis using run by auto
qed

text \<open>
  C7. A variable is assigned once, unless it is declared with the attribute \<open>mut\<close>. If the name
  \<open>x\<close> is new in the current scope, \<open>x = e1\<close> succeeds for integer expressions and makes the variable;
  \<open>x = e2\<close> after it then fails with the error for read-only variables, at the place of the
  second assignment, exactly when the first \<open>x\<close> had no \<open>mut\<close>. With \<open>mut\<close> it succeeds.
\<close>

theorem assigned_once:
  assumes "int_llvm (lib C) D" and "place_llvm (lib C)" and "x \<noteq> []"
    and "lval b" and "lval b'" and "sm_find (attributes b) ''heap'' = None"
    and "this_scope s < length (heap s)" and "sm_find (scope_symbols s) x = None"
    and "eval_int e1 = Some k1" and "depth e1 \<le> n" and "eval_int e2 = Some k2" and "depth e2 \<le> n"
  shows "\<exists>v r s' s''. translate C (Suc n) (BinaryOp Assign a (Variable b x) e1) s = (Value (Some v), s') \<and>
    translate C (Suc n) (BinaryOp Assign a' (Variable b' x) e2) s' = (r, s'') \<and>
    (if sm_find (attributes b) ''mut'' = None
     then r = Throw (translate_error ''Assignment of read-only variable'' (where_at a'))
     else \<exists>v'. r = Value (Some v'))"
proof -
  from assign_new [OF assms(1,2,4,3,6-10)] obtain v s'
    where first: "translate C (Suc n) (BinaryOp Assign a (Variable b x) e1) s = (Value (Some v), s')"
      and var: "int_var (lib C) s' x (sm_find (attributes b) ''mut'' = None)" by blast
  from assign_known [OF assms(1,2,5,3) var assms(11,12), of a'] first show ?thesis
    by (fastforce split: if_splits)
qed

end
