(* ===== verification/Operand_Rules.thy ===== *)
theory Operand_Rules
  imports Assignments
begin

text \<open>
  What the first operand of an operator must not be, and the call of an empty scope, which gives a
  null pointer.
\<close>

section \<open>Constants that are assigned or called\<close>

text \<open>
  The message for a constant that is marked as assigned or as called; \<open>None\<close> for a node that can be
  either.
\<close>

definition misuse :: "string \<Rightarrow> attribute \<Rightarrow> string option" where
  "misuse kd a =
     (if lval a then Some (kd @ '' constant is not to be assigned'')
      else if to_call a then Some (kd @ '' constant is not to be called'')
      else None)"

fun rejected :: "expr \<Rightarrow> string option" where
  "rejected (Integer a n) = misuse ''An integer'' a"
| "rejected (Decimal a d) = misuse ''An integer'' a"
| "rejected (Boolean a b) = misuse ''A boolean'' a"
| "rejected (String a s) = misuse ''A string'' a"
| "rejected (Array a xs) = misuse ''An array'' a"
| "rejected (PreVariable a s) =
     (if lval a then Some ''Pre-defined variables cannnot be assigned'' else None)"
| "rejected (Function a ps xs) =
     (if lval a then Some ''A function constant is not to be assigned'' else None)"
| "rejected (Scope a xs) =
     (if lval a then Some ''A scope constant is not to be assigned'' else None)"
| "rejected e = None"

lemma check_constant_misuse:
  "misuse kd a = Some msg \<Longrightarrow> check_constant kd a = throw (translate_error msg (where_at a))"
  by (auto simp: misuse_def check_constant_def then_do_def throw_if_def split: if_splits)

lemma visit_rejected:
  "rejected x = Some msg \<Longrightarrow> visit C tr x = throw (translate_error msg (where_at (attr x)))"
  by (cases x)
    (auto simp: visit_def Let_def visit_integer_def visit_decimal_def visit_boolean_def visit_string_def
      visit_constant_def visit_array_def visit_pre_variable_def visit_function_def visit_scope_def
      check_constant_misuse then_do_def throw_if_def split: if_splits)

text \<open>
  C25. Constants are neither assigned nor called. If the first operand of an operator is a constant,
  a pre-defined variable, an array, a function or a scope that is marked as the left side of an
  assignment, or a plain constant or an array that is marked as called, then the translation stops with
  the error for it, at the place of the operand and before anything is built.
\<close>

theorem constants_not_assignable:
  assumes "rejected x = Some msg" and "2 \<le> n"
  shows "translate C n (BinaryOp op a x y) s = (Throw (translate_error msg (where_at (attr x))), s)"
proof -
  obtain m where n: "n = Suc (Suc m)" using assms(2) by (metis Suc_le_D numeral_2_eq_2 Suc_le_mono)
  have "translate C (Suc m) x = throw (translate_error msg (where_at (attr x)))"
    using assms(1) by (simp add: visit_rejected)
  then show ?thesis
    by (simp add: n visit_def [of _ _ "BinaryOp op a x y"] visit_operators_def visit_customizable_def
        Let_def throw_def del: translate.simps(2))
      (simp add: visit_def visit_operators_def visit_customizable_def Let_def throw_def andThen_def)
qed

section \<open>An empty scope\<close>

text \<open>What LLVM says of a basic block: it is a value of the label type.\<close>

definition block_llvm :: "('t, 'v, 'p, 'm) llvm \<Rightarrow> bool" where
  "block_llvm L \<longleftrightarrow> (\<forall>n f m. kind L (ty_of L (fst (create_block L n f m))) = LabelTy)"

lemma evaluate_empty_scope:
  "\<exists>s'. evaluate_scope L tr v [] s = (Value None, s')"
  by (simp add: evaluate_scope_def new_block_here_def apply_bb_def andThen_def then_do_def gets_def creates_def
      set_insert_point_def setScope_def modifies_def ret_def emit_unit_def emit_def changes_def do_if_def)

lemma visit_scope_run:
  assumes "\<not> lval b" and "this_scope s < length (heap s)"
  shows "visit_scope L b xs s = (let (bb, m) = create_block L [] None (ir s) in
    (Value (Some (length (heap s))), s\<lparr>ir := m,
      heap := heap s @ [(mk_value L (Some bb) (Scope b xs) True)\<lparr>symbols := scope_symbols s\<rparr>]\<rparr>))"
  using assms
  by (simp add: visit_scope_def then_do_def throw_if_def andThen_def creates_def new_lazy_def alloc_def
      gets_def deref_at update_at ret_def nth_append split: prod.splits)

text \<open>
  C36. Calling an empty scope succeeds with a null pointer: the translation of \<open>{}()\<close> throws no
  error and gives no value, so that \<open>translateAST\<close> returns a null pointer and leaves the error of
  its caller as it was.
\<close>

theorem empty_scope_call_null:
  assumes "block_llvm (lib C)" and "\<not> lval b" and "this_scope s < length (heap s)" and "2 \<le> n"
  shows "\<exists>s'. translateAST C n (BinaryOp Call a (Scope b []) (ArgList c [])) err s = (Value (err, None), s')"
proof -
  let ?L = "lib C" let ?d = "length (heap s)" let ?call = "BinaryOp Call a (Scope b []) (ArgList c [])"
  obtain m where n: "n = Suc (Suc m)" using assms(4) by (metis Suc_le_D numeral_2_eq_2 Suc_le_mono)
  define tr where "tr = translate C (Suc m)"
  have tr: "tr e = visit C (translate C m) e" "translate C n e = visit C tr e" for e
    by (simp_all add: tr_def n)
  obtain bb m1 where bb: "create_block ?L [] None (ir s) = (bb, m1)" by fastforce
  then have label: "kind ?L (ty_of ?L bb) = LabelTy" using assms(1) unfolding block_llvm_def by (metis fst_conv)
  let ?obj = "(mk_value ?L (Some bb) (Scope b []) True)\<lparr>symbols := scope_symbols s\<rparr>"
  let ?s1 = "s\<lparr>ir := m1, heap := heap s @ [?obj]\<rparr>"
  let ?s2 = "s\<lparr>ir := m1, heap := heap s @ [?obj, void_value]\<rparr>"
  have scope: "tr (Scope b []) s = (Value (Some ?d), ?s1)"
    using visit_scope_run [OF assms(2,3), of ?L "[]"] bb by (simp add: tr(1) visit_def)
  have args: "map_comp (visit_arg ?L tr) [ArgList c []] ?s1 = (Value [(Suc ?d, [None])], ?s2)"
    by (simp add: visit_arg_def tr(1) visit_def visit_void_def andThen_def alloc_def ret_def the_or_crash_def
        getType_at well_typed_def void_value_def getLLVM_at nth_append)
  have ty1: "getType ?L ?d ?s1 = (Value \<lparr>llvm_type = Some (ty_of ?L bb), is_lazy = True, is_const = False\<rparr>, ?s1)"
    by (simp add: getType_at well_typed_def nth_append)
  have ty2: "getType ?L ?d ?s2 = (Value \<lparr>llvm_type = Some (ty_of ?L bb), is_lazy = True, is_const = False\<rparr>, ?s2)"
    by (simp add: getType_at well_typed_def nth_append)
  have "isStruct ?L \<lparr>llvm_type = Some (ty_of ?L bb), is_lazy = True, is_const = False\<rparr> ?s1 = (Value False, ?s1)"
    using label by (simp add: isStruct_def isType_if_def andThen_def the_or_crash_def the_or_diverge_def
        ret_def strip_not_pointer)
  with scope args ty1 have "translate C n ?call s = apply_call C tr ?call a (Scope b []) (ArgList c [])
      [Some ?d, Some (Suc ?d)] ?s2"
    by (simp add: tr(2) visit_def visit_operators_def op_is_customizable_def visit_customizable_def
        Let_def andThen_def the_or_crash_def ret_def apply_op_def del: map_comp.simps)
  moreover have "apply_call C tr ?call a (Scope b []) (ArgList c []) [Some ?d, Some (Suc ?d)] ?s2 =
      evaluate ?L tr ?d [] ?s2"
    using ty2 label
    by (simp add: apply_call_def Let_def andThen_def operand_def the_or_crash_def ret_def getType_at
        well_typed_def void_value_def nth_append then_do_def assert_def isVoid_def type_of_def
        call_scope_def throw_if_def)
  moreover have "evaluate ?L tr ?d [] ?s2 = evaluate_scope ?L tr ?d [] ?s2"
    using ty2 by (simp add: evaluate_def andThen_def deref_at nth_append mk_value_def)
  moreover obtain s' where "evaluate_scope ?L tr ?d [] ?s2 = (Value None, s')"
    using evaluate_empty_scope by blast
  ultimately have "translate C n ?call s = (Value None, s')" by simp
  then show ?thesis by (simp add: translateAST_def catch_error_def andThen_def ret_def)
qed

end
