(* ===== verification/Int_Variables.thy ===== *)
theory Int_Variables
  imports Assignments
begin

text \<open>
  Programs of assignments to integer variables. Their meaning is a store of numbers, each with the
  mark that tells whether the variable is constant; the translator keeps objects with places in
  memory. The two agree, line by line and error by error. The name \<open>__self\<close>, which the body of a
  function has in its scope, is none of a source text and does not belong to the store.
\<close>

section \<open>Reference semantics\<close>

type_synonym int_store = "string \<rightharpoonup> int32 \<times> bool"

text \<open>
  An expression has a number or throws the error for a name that is not declared, the first one from
  the left; it is \<open>None\<close> outside the fragment.
\<close>

definition undeclared :: "string \<Rightarrow> locationInfo \<Rightarrow> error" where
  "undeclared x wh = translate_error (''\"'' @ x @ ''\" has not declared in this scope'') wh"

definition both :: "('a \<Rightarrow> 'b \<Rightarrow> 'c) \<Rightarrow> error + 'a \<Rightarrow> error + 'b \<Rightarrow> error + 'c" where
  "both f q r = (case q of Inl err \<Rightarrow> Inl err | Inr i \<Rightarrow> map_sum id (f i) r)"

fun eval_in :: "int_store \<Rightarrow> expr \<Rightarrow> (error + int32) option" where
  "eval_in S (Integer a n) = (if lval a \<or> to_call a then None else Some (Inr n))"
| "eval_in S (Variable a x) =
     (if lval a \<or> x = ''__self'' then None
      else Some (case S x of Some (k, c) \<Rightarrow> Inr k | None \<Rightarrow> Inl (undeclared x (where_at a))))"
| "eval_in S (BinaryOp op a x y) =
     (case (int_op op, eval_in S x, eval_in S y) of
        (Some f, Some q, Some r) \<Rightarrow> Some (both f q r)
      | _ \<Rightarrow> None)"
| "eval_in S _ = None"

text \<open>The value of a variable takes the mark of the variable with it.\<close>

fun const_in :: "int_store \<Rightarrow> expr \<Rightarrow> bool" where
  "const_in S (Variable a x) = (case S x of Some (k, c) \<Rightarrow> c | None \<Rightarrow> False)"
| "const_in S _ = False"

text \<open>
  A line gives the store after it and its number. A new variable is constant unless it is declared
  with \<open>mut\<close>; one that is assigned again gets the mark of the value.
\<close>

definition read_only :: "locationInfo \<Rightarrow> error" where
  "read_only wh = translate_error ''Assignment of read-only variable'' wh"

fun exec_line :: "int_store \<Rightarrow> expr \<Rightarrow> (error + int_store \<times> int32) option" where
  "exec_line S (BinaryOp Assign a (Variable b x) e) =
     (if lval b \<and> x \<noteq> [] \<and> x \<noteq> ''__self'' \<and> sm_find (attributes b) ''heap'' = None then
        map_option (\<lambda>r. case r of
            Inl err \<Rightarrow> Inl err
          | Inr k \<Rightarrow> (case S x of
                None \<Rightarrow> Inr (S(x \<mapsto> (k, sm_find (attributes b) ''mut'' = None)), k)
              | Some (_, True) \<Rightarrow> Inl (read_only (where_at a))
              | Some (_, False) \<Rightarrow> Inr (S(x \<mapsto> (k, const_in S e)), k)))
          (eval_in S e)
      else None)"
| "exec_line S e = map_option (map_sum id (\<lambda>k. (S, k))) (eval_in S e)"

fun exec_lines :: "int_store \<Rightarrow> int32 option \<Rightarrow> expr list \<Rightarrow> (error + int_store \<times> int32 option) option" where
  "exec_lines S k [] = Some (Inr (S, k))"
| "exec_lines S k (e # es) =
     (case exec_line S e of
        None \<Rightarrow> None
      | Some (Inl err) \<Rightarrow> Some (Inl err)
      | Some (Inr (S', k')) \<Rightarrow> exec_lines S' (Some k') es)"

section \<open>Memory\<close>

text \<open>
  What LLVM says of integers in memory. \<open>M\<close> gives the numbers that the places hold when the
  instructions so far have been executed, in a block without branches. A place that is allocated is a
  new one; a store changes one place; a load gives what the place holds; arithmetic leaves memory as
  it is.
\<close>

definition mem_llvm :: "('t, 'v, 'p, 'm) llvm \<Rightarrow> ('v \<Rightarrow> int32) \<Rightarrow> ('m \<Rightarrow> 'v \<rightharpoonup> int32) \<Rightarrow> bool" where
  "mem_llvm L D M \<longleftrightarrow>
     (\<forall>b f x y p m. int_instr b = Some f \<longrightarrow> ty_of L x = int_ty L 32 \<longrightarrow> ty_of L y = int_ty L 32 \<longrightarrow>
        M (snd (build L (CreateBin b x y) p m)) = M m) \<and>
     (\<forall>n p m. M m (fst (build L (CreateAlloca (int_ty L 32) n) p m)) = None \<and>
        (\<exists>k. M (snd (build L (CreateAlloca (int_ty L 32) n) p m)) =
          (M m)(fst (build L (CreateAlloca (int_ty L 32) n) p m) \<mapsto> k))) \<and>
     (\<forall>w v p m. ty_of L w = int_ty L 32 \<longrightarrow> M m v \<noteq> None \<longrightarrow>
        M (snd (build L (CreateStore w v) p m)) = (M m)(v \<mapsto> D w)) \<and>
     (\<forall>v k p m. M m v = Some k \<longrightarrow> ty_of L v = ptr_to L (int_ty L 32) \<longrightarrow>
        ty_of L (fst (build L (CreateLoad v) p m)) = int_ty L 32 \<and>
        D (fst (build L (CreateLoad v) p m)) = k \<and> M (snd (build L (CreateLoad v) p m)) = M m)"

section \<open>The translator's state stands for a store\<close>

definition var_at ::
  "('t, 'v, 'p, 'm) llvm \<Rightarrow> ('m \<Rightarrow> 'v \<rightharpoonup> int32) \<Rightarrow> ('t, 'v, 'p, 'm) tstate \<Rightarrow> nat \<Rightarrow> 'v \<Rightarrow>
   int32 \<times> bool \<Rightarrow> bool" where
  "var_at L M s i place kc \<longleftrightarrow> i < length (heap s) \<and> int_var_obj L (snd kc) (heap s ! i) \<and>
     llvm_value (heap s ! i) = Some place \<and> M (ir s) place = Some (fst kc)"

text \<open>
  Every name of the current scope but \<open>__self\<close> is a variable of the store, with a place of its own
  (\<open>P\<close>) that holds its number.
\<close>

definition holds ::
  "('t, 'v, 'p, 'm) llvm \<Rightarrow> ('m \<Rightarrow> 'v \<rightharpoonup> int32) \<Rightarrow> ('t, 'v, 'p, 'm) tstate \<Rightarrow> int_store \<Rightarrow>
   (string \<Rightarrow> 'v) \<Rightarrow> bool" where
  "holds L M s S P \<longleftrightarrow> S ''__self'' = None \<and>
     (\<forall>i. sm_find (scope_symbols s) ''__self'' = Some i \<longrightarrow> i < length (heap s) \<and> i \<noteq> this_scope s) \<and>
     (\<forall>x. x \<noteq> ''__self'' \<longrightarrow> (case S x of
        None \<Rightarrow> sm_find (scope_symbols s) x = None
      | Some kc \<Rightarrow> \<exists>i. sm_find (scope_symbols s) x = Some i \<and> var_at L M s i (P x) kc))"

lemma holdsI:
  assumes "S ''__self'' = None"
    and "\<And>i. sm_find (scope_symbols s) ''__self'' = Some i \<Longrightarrow> i < length (heap s) \<and> i \<noteq> this_scope s"
    and "\<And>x. x \<noteq> ''__self'' \<Longrightarrow> S x = None \<Longrightarrow> sm_find (scope_symbols s) x = None"
    and "\<And>x kc. x \<noteq> ''__self'' \<Longrightarrow> S x = Some kc \<Longrightarrow>
      \<exists>i. sm_find (scope_symbols s) x = Some i \<and> var_at L M s i (P x) kc"
  shows "holds L M s S P"
  using assms unfolding holds_def by (simp split: option.split)

lemma holds_self:
  assumes "holds L M s S P"
  shows "S ''__self'' = None" and "sm_find (scope_symbols s) ''__self'' = Some i \<Longrightarrow> i < length (heap s) \<and> i \<noteq> this_scope s"
  using assms unfolding holds_def by blast+

lemma holds_None: "holds L M s S P \<Longrightarrow> x \<noteq> ''__self'' \<Longrightarrow> S x = None \<Longrightarrow> sm_find (scope_symbols s) x = None"
  unfolding holds_def by (elim conjE) (drule spec [where x = x], simp)

lemma holds_Some:
  assumes "holds L M s S P" and "S x = Some kc"
  shows "\<exists>i. sm_find (scope_symbols s) x = Some i \<and> var_at L M s i (P x) kc" and "x \<noteq> ''__self''"
proof -
  show x: "x \<noteq> ''__self''" using assms holds_self(1) by fastforce
  with assms show "\<exists>i. sm_find (scope_symbols s) x = Some i \<and> var_at L M s i (P x) kc"
    unfolding holds_def by (elim conjE) (drule spec [where x = x], simp)
qed

definition represents ::
  "('t, 'v, 'p, 'm) llvm \<Rightarrow> ('m \<Rightarrow> 'v \<rightharpoonup> int32) \<Rightarrow> ('t, 'v, 'p, 'm) tstate \<Rightarrow> int_store \<Rightarrow> bool" where
  "represents L M s S \<longleftrightarrow> this_scope s < length (heap s) \<and> (\<exists>P. inj_on P (dom S) \<and> holds L M s S P)"

text \<open>
  A step forward adds objects and plain instructions at the insertion point, and changes the value of
  no object. The evaluation of an expression also changes only the names of variables of the objects
  that are there, and the memory stays as it is.
\<close>

definition advances ::
  "('t, 'v, 'p, 'm) llvm \<Rightarrow> ('t, 'v, 'p, 'm) tstate \<Rightarrow> ('t, 'v, 'p, 'm) tstate \<Rightarrow> bool" where
  "advances L s s' \<longleftrightarrow> this_scope s' = this_scope s \<and> ip s' = ip s \<and> (ir s, ir s') \<in> builds L \<and>
     length (heap s) \<le> length (heap s') \<and>
     (\<forall>i < length (heap s). llvm_value (heap s' ! i) = llvm_value (heap s ! i))"

lemma advances_trans: "advances L s s' \<Longrightarrow> advances L s' s'' \<Longrightarrow> advances L s s''"
  unfolding advances_def by (auto intro: builds_trans)

definition nameless :: "('t, 'v) vobj \<Rightarrow> ('t, 'v) vobj" where
  "nameless obj = obj\<lparr>vname := []\<rparr>"

definition extends ::
  "('t, 'v, 'p, 'm) llvm \<Rightarrow> ('m \<Rightarrow> 'v \<rightharpoonup> int32) \<Rightarrow> ('t, 'v, 'p, 'm) tstate \<Rightarrow>
   ('t, 'v, 'p, 'm) tstate \<Rightarrow> bool" where
  "extends L M s s' \<longleftrightarrow> advances L s s' \<and> scope_symbols s' = scope_symbols s \<and> M (ir s') = M (ir s) \<and>
     (\<forall>i < length (heap s). nameless (heap s' ! i) = nameless (heap s ! i) \<and>
        (heap s' ! i = heap s ! i \<or> (\<exists>x. sm_find (scope_symbols s) x = Some i)))"

lemma extends_advances: "extends L M s s' \<Longrightarrow> advances L s s'"
  by (simp add: extends_def)

lemma extends_grows: "extends L M s s' \<Longrightarrow> this_scope s' = this_scope s \<and> length (heap s) \<le> length (heap s')"
  by (simp add: extends_def advances_def)

lemma extends_trans:
  assumes "extends L M s s'" and "extends L M s' s''"
  shows "extends L M s s''"
proof -
  have "nameless (heap s'' ! i) = nameless (heap s ! i) \<and>
      (heap s'' ! i = heap s ! i \<or> (\<exists>x. sm_find (scope_symbols s) x = Some i))"
    if i: "i < length (heap s)" for i
  proof -
    have "i < length (heap s')" using extends_grows [OF assms(1)] i by simp
    with assms i show ?thesis unfolding extends_def by metis
  qed
  moreover have "scope_symbols s'' = scope_symbols s" using assms unfolding extends_def by metis
  moreover have "advances L s s''" using assms by (blast intro: extends_advances advances_trans)
  ultimately show ?thesis using assms unfolding extends_def by auto
qed

lemma extends_added:
  "heap s' = heap s @ objs \<Longrightarrow> this_scope s' = this_scope s \<Longrightarrow> ip s' = ip s \<Longrightarrow> (ir s, ir s') \<in> builds L \<Longrightarrow>
   M (ir s') = M (ir s) \<Longrightarrow> this_scope s < length (heap s) \<Longrightarrow> extends L M s s'"
  by (auto simp: extends_def advances_def nth_append)

lemma nameless_eq:
  "nameless obj = nameless obj' \<Longrightarrow> llvm_value obj = llvm_value obj' \<and> vtype obj = vtype obj' \<and>
     symbols obj = symbols obj' \<and> parent obj = parent obj'"
  by (cases obj; cases obj') (simp add: nameless_def)

lemma extends_at:
  assumes "extends L M s s'" and "i < length (heap s)"
  shows "i < length (heap s')" "llvm_value (heap s' ! i) = llvm_value (heap s ! i)"
    "vtype (heap s' ! i) = vtype (heap s ! i)" "symbols (heap s' ! i) = symbols (heap s ! i)"
    "parent (heap s' ! i) = parent (heap s ! i)"
proof -
  have "nameless (heap s' ! i) = nameless (heap s ! i)" "i < length (heap s')"
    using assms extends_grows [OF assms(1)] by (auto simp: extends_def)
  then show "i < length (heap s')" "llvm_value (heap s' ! i) = llvm_value (heap s ! i)"
    "vtype (heap s' ! i) = vtype (heap s ! i)" "symbols (heap s' ! i) = symbols (heap s ! i)"
    "parent (heap s' ! i) = parent (heap s ! i)"
    using nameless_eq by blast+
qed

lemma extends_int_obj: "extends L M s s' \<Longrightarrow> int_obj L s i w c \<Longrightarrow> int_obj L s' i w c"
  by (simp add: int_obj_def extends_at)

lemma extends_var_at: "extends L M s s' \<Longrightarrow> var_at L M s i p kc \<Longrightarrow> var_at L M s' i p kc"
  by (auto simp: var_at_def int_var_obj_def extends_at) (simp add: extends_def)

lemma extends_scope: "extends L M s s' \<Longrightarrow> scope_symbols s' = scope_symbols s"
  "extends L M s s' \<Longrightarrow> this_scope s < length (heap s) \<Longrightarrow> this_scope s' < length (heap s')"
  by (auto simp: extends_def advances_def)

lemma extends_holds:
  assumes "extends L M s s'" and "holds L M s S P"
  shows "holds L M s' S P"
proof (rule holdsI)
  show "S ''__self'' = None" by (rule holds_self(1) [OF assms(2)])
next
  fix x kc
  assume "S x = Some kc"
  from holds_Some(1) [OF assms(2) this] extends_var_at [OF assms(1), where kc = kc] extends_scope(1) [OF assms(1)]
  show "\<exists>i. sm_find (scope_symbols s') x = Some i \<and> var_at L M s' i (P x) kc" by auto
qed (use holds_self(2) [OF assms(2)] holds_None [OF assms(2)] extends_scope(1) [OF assms(1)]
  extends_grows [OF assms(1)] in auto)

lemma extends_represents: "extends L M s s' \<Longrightarrow> represents L M s S \<Longrightarrow> represents L M s' S"
  unfolding represents_def by (blast intro: extends_scope(2) extends_holds)

section \<open>Expressions\<close>

text \<open>
  The outcome of an expression: its error, or a new object for its number, in a state that extends the
  one before.
\<close>

definition evaluates ::
  "('t, 'v, 'p, 'm) llvm \<Rightarrow> ('v \<Rightarrow> int32) \<Rightarrow> ('m \<Rightarrow> 'v \<rightharpoonup> int32) \<Rightarrow> ('t, 'v, 'p, 'm) tstate \<Rightarrow> bool \<Rightarrow>
   error + int32 \<Rightarrow> nat option outcome \<times> ('t, 'v, 'p, 'm) tstate \<Rightarrow> bool" where
  "evaluates L D M s const q r \<longleftrightarrow>
     (case q of
        Inl err \<Rightarrow> fst r = Throw err
      | Inr k \<Rightarrow> \<exists>i s' w. r = (Value (Some i), s') \<and> int_obj L s' i w const \<and> D w = k \<and>
          extends L M s s' \<and> length (heap s) \<le> i)"

lemma evaluates_error: "evaluates L D M s const (Inl err) r \<longleftrightarrow> fst r = Throw err"
  by (simp add: evaluates_def)

lemma evaluates_number:
  "evaluates L D M s const (Inr k) r \<longleftrightarrow> (\<exists>i s' w. r = (Value (Some i), s') \<and> int_obj L s' i w const \<and>
     D w = k \<and> extends L M s s' \<and> length (heap s) \<le> i)"
  by (simp add: evaluates_def)

lemma evaluates_integer:
  assumes "int_llvm L D" and "\<not> lval a" and "\<not> to_call a" and "this_scope s < length (heap s)"
  shows "evaluates L D M s False (Inr n) (visit_integer L a n s)"
proof -
  have "visit_integer L a n s = (Value (Some (length (heap s))),
      s\<lparr>heap := heap s @ [mk_value L (Some (signed_const L (int_ty L 32) (sint n))) (Integer a n) False]\<rparr>)"
    using assms(2,3)
    by (simp add: visit_integer_def visit_constant_def check_constant_def then_do_def throw_if_def
        new_value_def alloc_def andThen_def ret_def)
  then show ?thesis
    using assms(1,4)
    by (auto simp: evaluates_number int_llvm_def builds_refl intro!: int_obj_new extends_added)
qed

lemma evaluates_variable:
  assumes L: "int_llvm L D" "place_llvm L" "mem_llvm L D M" and a: "\<not> lval a"
    and scope: "this_scope s < length (heap s)" and x: "sm_find (scope_symbols s) x = Some i"
    and var: "var_at L M s i place (k, c)"
  shows "evaluates L D M s c (Inr k) (visit_variable L a x s)"
proof -
  have obj: "i < length (heap s)" "llvm_value (heap s ! i) = Some place" "symbols (heap s ! i) = []"
    "vtype (heap s ! i) = \<lparr>llvm_type = Some (ptr_to L (int_ty L 32)), is_lazy = False, is_const = c\<rparr>"
    "ty_of L place = ptr_to L (int_ty L 32)" "parent (heap s ! i) = None" "M (ir s) place = Some k"
    using var by (auto simp: var_at_def int_var_obj_def)
  let ?w = "fst (build L (CreateLoad place) (ip s) (ir s))"
  let ?m = "snd (build L (CreateLoad place) (ip s) (ir s))"
  let ?s' = "s\<lparr>ir := ?m, heap := (heap s)[i := (heap s ! i)\<lparr>vname := x\<rparr>] @ [(heap s ! i)\<lparr>vname := x,
    llvm_value := Some ?w, vtype := \<lparr>llvm_type = Some (int_ty L 32), is_lazy = False, is_const = c\<rparr>\<rparr>]\<rparr>"
  have load: "ty_of L ?w = int_ty L 32" "D ?w = k" "M ?m = M (ir s)"
    using L(3) obj(5,7) unfolding mem_llvm_def by blast+
  have "(heap s ! i)\<lparr>symbols := []\<rparr> = heap s ! i" using obj(3) by (cases "heap s ! i") simp
  then have "visit_variable L a x s = (Value (Some (length (heap s))), ?s')"
    using a scope x obj load
    by (simp add: visit_variable_def andThen_def gets_def deref_at then_do_def setName_def update_at ret_def
        fetch_def getType_at well_typed_def fundamental_place [OF L(1,2)] need_llvm_at emit_def copy_with_leaf
        copyWithNewLLVMType_def)
  moreover have "extends L M s ?s'"
    using obj(1,3) load(3) scope x builds_instr [of "CreateLoad place" "ir s" L "ip s"]
    by (auto simp: extends_def advances_def nth_append nth_list_update nameless_def)
  ultimately show ?thesis
    using obj load by (auto simp: evaluates_number int_obj_def nth_append)
qed

lemma operand_errors:
  assumes "int_llvm (lib C) D" and "binop_is_customizable op"
  shows "tr x s = (Throw err, s') \<Longrightarrow> fst (visit_operators C tr (BinaryOp op a x y) s) = Throw err"
    and "tr x s = (Value (Some i), s1) \<Longrightarrow> int_obj (lib C) s1 i v c \<Longrightarrow> tr y s1 = (Throw err, s') \<Longrightarrow>
      fst (visit_operators C tr (BinaryOp op a x y) s) = Throw err"
  using assms
  by (auto simp: visit_operators_def op_is_customizable_def visit_customizable_def Let_def andThen_def
      the_or_crash_def ret_def isStruct_int [OF assms(1)] visit_arg_def dest!: int_obj_type)

lemma evaluates_binary:
  assumes L: "int_llvm (lib C) D" "mem_llvm (lib C) D M" and f: "int_op op = Some f"
    and scope: "this_scope s < length (heap s)"
    and x: "evaluates (lib C) D M s c q (tr x s)"
    and y: "\<And>s'. extends (lib C) M s s' \<Longrightarrow> evaluates (lib C) D M s' d r (tr y s')"
  shows "evaluates (lib C) D M s False (both f q r)
    (visit_operators C tr (BinaryOp op a x y) s)"
proof -
  from f have cust: "binop_is_customizable op" by (cases op) auto
  note errors = operand_errors [OF L(1) cust, of tr]
  show ?thesis
  proof (cases q)
    case (Inl err)
    with x errors(1) [of x s err] show ?thesis by (cases "tr x s") (simp add: evaluates_error both_def)
  next
    case (Inr k)
    with x obtain i s1 v where s1: "tr x s = (Value (Some i), s1)" "int_obj (lib C) s1 i v c" "D v = k"
        "extends (lib C) M s s1"
      by (auto simp: evaluates_number)
    show ?thesis
    proof (cases r)
      case (Inl err)
      with y [OF s1(4)] errors(2) [OF s1(1,2), of y err] Inr show ?thesis
        by (cases "tr y s1") (simp add: evaluates_error both_def)
    next
      case (Inr l)
      with y [OF s1(4)] obtain j s2 w where s2: "tr y s1 = (Value (Some j), s2)" "int_obj (lib C) s2 j w d"
          "D w = l" "extends (lib C) M s1 s2"
        by (auto simp: evaluates_number)
      have i2: "int_obj (lib C) s2 i v c" using s2(4) s1(2) by (rule extends_int_obj)
      from apply_op_ints [OF L(1) f i2 s2(2)] obtain b where b: "int_instr b = Some f"
        and op: "apply_op C tr (BinaryOp op a x y) [Some i, Some j] s2 =
          apply_binary (lib C) b (BinaryOp op a x y) [Some i, Some j] s2" by blast
      obtain u m where u: "build (lib C) (CreateBin b v w) (ip s2) (ir s2) = (u, m)" by fastforce
      have "ty_of (lib C) v = int_ty (lib C) 32" "ty_of (lib C) w = int_ty (lib C) 32"
        using s1(2) s2(2) by (simp_all add: int_obj_def)
      with L b u s1(3) s2(3) have u': "ty_of (lib C) u = int_ty (lib C) 32" "D u = f k l" "M m = M (ir s2)"
        unfolding int_llvm_def mem_llvm_def by (metis fst_conv snd_conv)+
      let ?s3 = "s2\<lparr>ir := m, heap := heap s2 @ [mk_value (lib C) (Some u) (BinaryOp op a x y) False]\<rparr>"
      have "visit_operators C tr (BinaryOp op a x y) s = (Value (Some (length (heap s2))), ?s3)"
        unfolding operands_of_ints [OF L(1) cust s1(1,2) s2(1,2)] op apply_binary_ints [OF i2 s2(2)] u by simp
      moreover have "int_obj (lib C) ?s3 (length (heap s2)) u False"
        using u'(1) by (intro int_obj_new [where e = "BinaryOp op a x y"]) simp_all
      moreover have "extends (lib C) M s2 ?s3"
        using u'(3) extends_scope(2) [OF s2(4) extends_scope(2) [OF s1(4) scope]]
          builds_instr [of "CreateBin b v w" "ir s2" "lib C" "ip s2"] u
        by (intro extends_added) simp_all
      with s1(4) s2(4) have "extends (lib C) M s ?s3" "length (heap s) \<le> length (heap s2)"
        using extends_trans extends_grows by (blast, fastforce)
      ultimately show ?thesis
        using \<open>q = Inr k\<close> Inr u'(2) by (auto simp: evaluates_number both_def)
    qed
  qed
qed

lemma translate_in:
  assumes L: "int_llvm (lib C) D" "place_llvm (lib C)" "mem_llvm (lib C) D M"
  shows "represents (lib C) M s S \<Longrightarrow> eval_in S e = Some q \<Longrightarrow> depth e \<le> n \<Longrightarrow>
    evaluates (lib C) D M s (const_in S e) q (translate C n e s)"
proof (induction n arbitrary: e q s)
  case 0
  then show ?case by (cases e) auto
next
  case (Suc n)
  from Suc.prems(1) have scope: "this_scope s < length (heap s)" by (simp add: represents_def)
  show ?case
  proof (cases e)
    case (Integer a i)
    with Suc.prems(2) evaluates_integer [OF L(1) _ _ scope] show ?thesis
      by (auto simp: visit_def split: if_splits)
  next
    case (Variable a x)
    with Suc.prems(2) have a: "\<not> lval a" "x \<noteq> ''__self''" by (simp_all split: if_splits)
    show ?thesis
    proof (cases "S x")
      case None
      with Suc.prems(1) have "sm_find (scope_symbols s) x = None"
        using a(2) unfolding represents_def by (blast dest: holds_None)
      with None Suc.prems(2) a scope show ?thesis
        by (auto simp: Variable visit_def Let_def evaluates_error undeclared_def visit_variable_def andThen_def
            gets_def deref_at throw_def)
    next
      case (Some kc)
      with Suc.prems(1) obtain i place where "sm_find (scope_symbols s) x = Some i"
        "var_at (lib C) M s i place (fst kc, snd kc)" unfolding represents_def prod.collapse by (blast dest: holds_Some(1))
      from evaluates_variable [OF L a(1) scope this] Some Suc.prems(2) a show ?thesis
        by (simp add: Variable visit_def split: prod.splits)
    qed
  next
    case (BinaryOp op a x y)
    with Suc.prems obtain f q' r where f: "int_op op = Some f" and xy: "eval_in S x = Some q'"
      "eval_in S y = Some r" "depth x \<le> n" "depth y \<le> n"
      and q: "q = both f q' r"
      by (auto split: option.splits)
    have 1: "evaluates (lib C) D M s (const_in S x) q' (translate C n x s)"
      using Suc xy by blast
    have 2: "evaluates (lib C) D M s' (const_in S y) r (translate C n y s')" if "extends (lib C) M s s'" for s'
      using Suc.IH [OF extends_represents [OF that Suc.prems(1)]] xy by blast
    from evaluates_binary [OF L(1,3) f scope 1 2] show ?thesis
      by (simp add: BinaryOp visit_def q)
  qed (use Suc.prems in auto)
qed

section \<open>Lines\<close>

lemma assign_error:
  assumes "translate C n x s = (Value d, s1)" and "fst (translate C n e s1) = Throw err"
  shows "fst (translate C (Suc n) (BinaryOp Assign a x e) s) = Throw err"
  using assms
  by (cases "translate C n e s1")
    (simp add: visit_def visit_operators_def op_is_customizable_def andThen_def ret_def)

text \<open>The object of the target: a new one, which is a copy of the variable when there is one.\<close>

definition target_obj ::
  "('t, 'v, 'p, 'm) llvm \<Rightarrow> attribute \<Rightarrow> string \<Rightarrow> bool option \<Rightarrow> 'v \<Rightarrow> ('t, 'v) vobj \<Rightarrow> bool" where
  "target_obj L b x c place obj \<longleftrightarrow> vname obj = x \<and>
     (case c of
        None \<Rightarrow> obj = (mk_value L None (Variable b x) False)\<lparr>vname := x\<rparr>
      | Some const \<Rightarrow> int_var_obj L const obj \<and> llvm_value obj = Some place)"

lemma visit_target:
  assumes "lval b" and "this_scope s < length (heap s)" and "holds L M s S P" and "x \<noteq> ''__self''"
  shows "\<exists>s1. visit_variable L b x s = (Value (Some (length (heap s))), s1) \<and> extends L M s s1 \<and>
    length (heap s1) = Suc (length (heap s)) \<and>
    target_obj L b x (map_option snd (S x)) (P x) (heap s1 ! length (heap s))"
proof (cases "S x")
  case None
  from visit_new_variable [OF assms(1,2) holds_None [OF assms(3,4) this], of L] None assms(2) show ?thesis
    by (auto simp: target_obj_def builds_refl intro!: extends_added)
next
  case (Some kc)
  from holds_Some(1) [OF assms(3) this] obtain i
    where i: "sm_find (scope_symbols s) x = Some i" "var_at L M s i (P x) kc" by blast
  then have "i < length (heap s)" "int_var_obj L (snd kc) (heap s ! i)" by (simp_all add: var_at_def)
  from visit_known_variable [OF assms(1,2) i(1) this] Some i this assms(2) show ?thesis
    by (auto simp: target_obj_def var_at_def int_var_obj_def extends_def advances_def builds_refl nth_append
        nth_list_update nameless_def)
qed

text \<open>A store to a place that no other variable has.\<close>

lemma holds_in_scope:
  assumes "holds L M s S P" and "sm_find (scope_symbols s) y = Some i"
  shows "i \<noteq> this_scope s" "i < length (heap s)"
proof -
  have "i \<noteq> this_scope s \<and> i < length (heap s)"
  proof (cases "y = ''__self''")
    case True
    with holds_self(2) [OF assms(1)] assms(2) show ?thesis by simp
  next
    case False
    with assms(2) holds_None [OF assms(1) False] obtain kc where "S y = Some kc" by (cases "S y") auto
    with holds_Some(1) [OF assms(1) this] assms(2) have "var_at L M s i (P y) kc" by auto
    then show ?thesis using assms(2) by (auto simp: var_at_def int_var_obj_def)
  qed
  then show "i \<noteq> this_scope s" "i < length (heap s)" by simp_all
qed

lemma store_holds:
  assumes M: "mem_llvm L D M" and "holds L M s S P" and scope: "this_scope s < length (heap s)"
    and src: "int_obj L s src w c" and x: "x \<noteq> ''__self''"
    and place: "ty_of L place = ptr_to L (int_ty L 32)" "M (ir s) place \<noteq> None"
      "\<And>y. y \<noteq> x \<Longrightarrow> y \<in> dom S \<Longrightarrow> P y \<noteq> place"
  shows "holds L M (after_store L x src w place const s) (S(x \<mapsto> (D w, const))) (P(x := place))"
proof -
  let ?s = "after_store L x src w place const s"
  have mem: "M (ir ?s) = (M (ir s))(place \<mapsto> D w)"
    using M src place unfolding mem_llvm_def by (simp add: int_obj_def)
  have names: "scope_symbols ?s = sm_put x (length (heap s)) (scope_symbols s)"
    using scope by (simp add: nth_append)
  have new: "var_at L M ?s (length (heap s)) place (D w, const)"
    using src place(1) mem by (simp add: var_at_def int_obj_def int_var_obj_def nth_append)
  have old: "var_at L M ?s i (P y) kc"
    if "y \<noteq> x" "S y = Some kc" "sm_find (scope_symbols s) y = Some i" "var_at L M s i (P y) kc" for y i kc
    using that mem place(3) holds_in_scope(1) [OF assms(2) that(3)]
    by (auto simp: var_at_def nth_append domI)
  show ?thesis
  proof (rule holdsI)
    show "(S(x \<mapsto> (D w, const))) ''__self'' = None" using x holds_self(1) [OF assms(2)] by simp
  next
    fix i
    assume "sm_find (scope_symbols ?s) ''__self'' = Some i"
    then have "sm_find (scope_symbols s) ''__self'' = Some i"
      unfolding names using x by (simp add: sm_find_put_other)
    from holds_self(2) [OF assms(2) this] show "i < length (heap ?s) \<and> i \<noteq> this_scope ?s" by simp
  next
    fix y
    assume "y \<noteq> ''__self''" and "(S(x \<mapsto> (D w, const))) y = None"
    with holds_None [OF assms(2) this(1)] show "sm_find (scope_symbols ?s) y = None"
      unfolding names by (simp add: sm_find_put_other split: if_splits)
  next
    fix y kc
    assume "(S(x \<mapsto> (D w, const))) y = Some kc"
    with new old [of y kc] holds_Some(1) [OF assms(2), of y kc]
    show "\<exists>i. sm_find (scope_symbols ?s) y = Some i \<and> var_at L M ?s i ((P(x := place)) y) kc"
      unfolding names by (cases "y = x") (auto simp: sm_find_put_same sm_find_put_other)
  qed
qed

text \<open>A new place, and the mark of the value that is stored there.\<close>

lemma declare_holds:
  fixes x :: string
  assumes M: "mem_llvm L D M" and "holds L M s S P"
    and src: "src < length (heap s)" "\<And>y. sm_find (scope_symbols s) y \<noteq> Some src"
  defines "place \<equiv> fst (build L (CreateAlloca (int_ty L 32) x) (ip s) (ir s))"
  shows "holds L M (after_declare L x src const s) S P"
    and "M (ir (after_declare L x src const s)) place \<noteq> None"
    and "y \<in> dom S \<Longrightarrow> P y \<noteq> place"
proof -
  let ?s = "after_declare L x src const s"
  from M obtain k where mem: "M (ir s) place = None" "M (ir ?s) = (M (ir s))(place \<mapsto> k)"
    unfolding mem_llvm_def place_def by fastforce
  then show "M (ir ?s) place \<noteq> None" by simp
  have old: "P y \<noteq> place" if "var_at L M s i (P y) kc" for y i kc
    using that mem(1) by (auto simp: var_at_def)
  then show "y \<in> dom S \<Longrightarrow> P y \<noteq> place" using holds_Some(1) [OF assms(2)] by blast
  have names: "scope_symbols ?s = scope_symbols s" using src(1) by (cases "src = this_scope s") simp_all
  have "var_at L M ?s i (P y) kc"
    if "sm_find (scope_symbols s) y = Some i" "var_at L M s i (P y) kc" for y i kc
    using that src(2) [of y] mem(2) old [OF that(2)] by (auto simp: var_at_def)
  then show "holds L M ?s S P"
    using names holds_self [OF assms(2)] holds_None [OF assms(2)] holds_Some(1) [OF assms(2)]
    by (intro holdsI) (fastforce)+
qed

text \<open>
  The outcome of a line: its error, or an object for its number, in a state that stands for the store
  after it, one step forward.
\<close>

definition executes ::
  "('t, 'v, 'p, 'm) llvm \<Rightarrow> ('v \<Rightarrow> int32) \<Rightarrow> ('m \<Rightarrow> 'v \<rightharpoonup> int32) \<Rightarrow> ('t, 'v, 'p, 'm) tstate \<Rightarrow>
   error + int_store \<times> int32 \<Rightarrow> nat option outcome \<times> ('t, 'v, 'p, 'm) tstate \<Rightarrow> bool" where
  "executes L D M s q r \<longleftrightarrow>
     (case q of
        Inl err \<Rightarrow> fst r = Throw err
      | Inr (S, k) \<Rightarrow> \<exists>i s' w c. r = (Value (Some i), s') \<and> int_obj L s' i w c \<and> D w = k \<and>
          represents L M s' S \<and> advances L s s')"

lemma executes_from: "advances L s s' \<Longrightarrow> executes L D M s' q r \<Longrightarrow> executes L D M s q r"
  unfolding executes_def by (auto split: sum.splits intro: advances_trans)

lemma advances_store: "advances L s (after_store L x src w place const s)"
  using builds_instr [of "CreateStore w place" "ir s" L "ip s"]
  by (cases "this_scope s < length (heap s)") (auto simp: advances_def nth_append nth_list_update)

lemma advances_declare: "advances L s (after_declare L x src const s)"
  using builds_instr [of "CreateAlloca (int_ty L 32) x" "ir s" L "ip s"]
  by (cases "src < length (heap s)") (auto simp: advances_def nth_list_update)

lemma executes_stored:
  assumes "mem_llvm L D M" and "holds L M s S P" and scope: "this_scope s < length (heap s)"
    and inj: "inj_on P (dom S)" and src: "int_obj L s src w c" "src \<noteq> this_scope s"
    and x: "x \<noteq> ''__self''"
    and place: "ty_of L place = ptr_to L (int_ty L 32)" "M (ir s) place \<noteq> None"
      "\<And>y. y \<noteq> x \<Longrightarrow> y \<in> dom S \<Longrightarrow> P y \<noteq> place"
  shows "executes L D M s (Inr (S(x \<mapsto> (D w, const)), D w)) (Value (Some src), after_store L x src w place const s)"
proof -
  let ?S = "S(x \<mapsto> (D w, const))"
  have "inj_on (P(x := place)) (dom ?S)"
    using inj place(3) by (auto simp: inj_on_def)
  moreover have "holds L M (after_store L x src w place const s) ?S (P(x := place))"
    by (rule store_holds [OF assms(1,2) scope src(1) x place])
  ultimately have "represents L M (after_store L x src w place const s) ?S"
    using scope unfolding represents_def by (intro conjI exI [of _ "P(x := place)"]) simp_all
  moreover have "int_obj L (after_store L x src w place const s) src w c"
    using src by (simp add: int_obj_def nth_append)
  ultimately show ?thesis
    by (simp add: executes_def advances_store) blast
qed

text \<open>Both kinds of target.\<close>

lemma executes_new:
  assumes L: "int_llvm (lib C) D" "place_llvm (lib C)" "mem_llvm (lib C) D M"
    and P: "inj_on P (dom S)" "holds (lib C) M s S P"
    and scope: "this_scope s < length (heap s)"
    and x: "x \<noteq> []" "sm_find (attributes b) ''heap'' = None" "x \<noteq> ''__self''"
    and d: "d < length (heap s)" "target_obj (lib C) b x None p (heap s ! d)"
    and src: "int_obj (lib C) s src w c" "src \<noteq> this_scope s" "\<And>y. sm_find (scope_symbols s) y \<noteq> Some src"
  shows "executes (lib C) D M s (Inr (S(x \<mapsto> (D w, sm_find (attributes b) ''mut'' = None)), D w))
    (apply_assign C (Variable b x) wh [Some d, Some src] s)"
proof -
  let ?L = "lib C" let ?const = "sm_find (attributes b) ''mut'' = None"
  let ?s' = "after_declare ?L x src ?const s"
  let ?place = "fst (build ?L (CreateAlloca (int_ty ?L 32) x) (ip s) (ir s))"
  have "heap s ! d = (mk_value ?L None (Variable b x) False)\<lparr>vname := x\<rparr>"
    using d(2) by (simp add: target_obj_def)
  from apply_assign_new [OF L(1,2) x(1,2) scope d(1) this src(1) refl, of wh]
  have run: "apply_assign C (Variable b x) wh [Some d, Some src] s =
      (Value (Some src), after_store ?L x src w ?place ?const ?s')"
    by (simp add: Let_def)
  have src_in: "src < length (heap s)" using src(1) by (simp add: int_obj_def)
  note declared = declare_holds(1,2) [OF L(3) P(2) src_in src(3), where x = x and const = ?const]
    declare_holds(3) [OF L(3) P(2) src_in src(3), where x = x]
  show ?thesis
    unfolding run
  proof (rule executes_from [OF advances_declare executes_stored [OF L(3) declared(1) _ P(1)]])
    show "ty_of ?L ?place = ptr_to ?L (int_ty ?L 32)" using L(2) by (simp add: place_llvm_def)
    show "int_obj ?L ?s' src w ?const" using src(1) by (simp add: int_obj_def)
  qed (use scope src(2) declared x(3) in simp_all)
qed

lemma executes_known:
  assumes L: "int_llvm (lib C) D" "place_llvm (lib C)" "mem_llvm (lib C) D M"
    and P: "inj_on P (dom S)" "holds (lib C) M s S P" and S: "S x = Some kc"
    and scope: "this_scope s < length (heap s)" and x: "x \<noteq> []"
    and d: "d < length (heap s)" "target_obj (lib C) b x (Some (snd kc)) (P x) (heap s ! d)"
    and src: "int_obj (lib C) s src w c" "src \<noteq> this_scope s"
  shows "executes (lib C) D M s (if snd kc then Inl (read_only wh) else Inr (S(x \<mapsto> (D w, c)), D w))
    (apply_assign C (Variable b x) wh [Some d, Some src] s)"
proof -
  let ?L = "lib C"
  have "int_var_obj ?L (snd kc) (heap s ! d)" "vname (heap s ! d) = x" "llvm_value (heap s ! d) = Some (P x)"
    using d by (simp_all add: target_obj_def)
  from apply_assign_known [OF L(1,2) x scope d(1) this src(1)]
  have run: "apply_assign C (Variable b x) wh [Some d, Some src] s =
      (if snd kc then (Throw (read_only wh), s) else (Value (Some src), after_store ?L x src w (P x) c s))"
    unfolding read_only_def .
  from holds_Some [OF P(2) S] obtain i where self: "x \<noteq> ''__self''" and "var_at ?L M s i (P x) kc" by blast
  then have "ty_of ?L (P x) = ptr_to ?L (int_ty ?L 32)" "M (ir s) (P x) \<noteq> None"
    by (auto simp: var_at_def int_var_obj_def)
  from executes_stored [OF L(3) P(2) scope P(1) src self this, of c] P(1) S
  have "executes ?L D M s (Inr (S(x \<mapsto> (D w, c)), D w)) (Value (Some src), after_store ?L x src w (P x) c s)"
    by (auto simp: inj_on_def)
  then show ?thesis unfolding run by (cases "snd kc") (simp_all add: executes_def)
qed

lemma translate_assign:
  assumes L: "int_llvm (lib C) D" "place_llvm (lib C)" "mem_llvm (lib C) D M"
    and S: "represents (lib C) M s S"
    and b: "lval b" "x \<noteq> []" "sm_find (attributes b) ''heap'' = None" "x \<noteq> ''__self''"
    and e: "eval_in S e = Some q" "depth e \<le> n"
    and line: "exec_line S (BinaryOp Assign a (Variable b x) e) = Some r"
  shows "executes (lib C) D M s r (translate C (Suc n) (BinaryOp Assign a (Variable b x) e) s)"
proof -
  let ?L = "lib C" let ?d = "length (heap s)" let ?wh = "where_at a"
  from S obtain P where scope: "this_scope s < length (heap s)" and P: "inj_on P (dom S)" "holds ?L M s S P"
    unfolding represents_def by blast
  from visit_target [OF b(1) scope P(2) b(4)] obtain s1
    where target: "visit_variable ?L b x s = (Value (Some ?d), s1)" and ex: "extends ?L M s s1"
      and obj: "?d < length (heap s1)" "target_obj ?L b x (map_option snd (S x)) (P x) (heap s1 ! ?d)"
    by auto
  obtain m where n: "n = Suc m" using e(2) by (cases n) (cases e; simp)+
  have var: "translate C n (Variable b x) s = (Value (Some ?d), s1)"
    using target by (simp add: n visit_def)
  from extends_represents [OF ex S] translate_in [OF L _ e]
  have eval: "evaluates ?L D M s1 (const_in S e) q (translate C n e s1)" by blast
  show ?thesis
  proof (cases q)
    case (Inl err)
    with line e(1) b have "r = Inl err" by simp
    moreover have "fst (translate C n e s1) = Throw err" using eval Inl by (simp add: evaluates_error)
    ultimately show ?thesis
      using assign_error [OF var, of e err a] by (simp add: executes_def del: translate.simps)
  next
    case (Inr k)
    with eval obtain src s2 w where s2: "translate C n e s1 = (Value (Some src), s2)"
        "int_obj ?L s2 src w (const_in S e)" "D w = k" "extends ?L M s1 s2" "length (heap s1) \<le> src"
      by (auto simp: evaluates_number)
    note steps = assign_steps [OF var s2(1), of a]
    have scope2: "this_scope s2 < length (heap s2)" and h1: "holds ?L M s1 S P" and h2: "holds ?L M s2 S P"
      and same: "this_scope s2 = this_scope s" "scope_symbols s2 = scope_symbols s1"
      using extends_scope [OF s2(4)] extends_scope(2) [OF ex scope] extends_holds [OF s2(4)]
        extends_holds [OF ex P(2)] extends_grows [OF ex] extends_grows [OF s2(4)] extends_scope(1) [OF s2(4)] by auto
    note from_s = executes_from [OF extends_advances [OF extends_trans [OF ex s2(4)]]]
    have src: "src \<noteq> this_scope s2" "\<And>y. sm_find (scope_symbols s2) y \<noteq> Some src"
      using s2(5) obj(1) scope same holds_in_scope(2) [OF h1] by fastforce+
    have d: "heap s2 ! ?d = heap s1 ! ?d" "?d < length (heap s2)"
      using s2(4) obj(1) holds_in_scope(2) [OF P(2)] extends_scope(1) [OF ex] extends_grows [OF s2(4)]
      by (fastforce simp: extends_def)+
    have "S x = None \<Longrightarrow> ?thesis"
      using from_s [OF executes_new [OF L P(1) h2 scope2 b(2,3,4) d(2) _ s2(2) src, of "P x" ?wh]] d(1) obj(2)
        line e(1) b Inr s2(3) steps by (simp del: translate.simps)
    moreover have "S x = Some kc \<Longrightarrow> ?thesis" for kc
      using from_s [OF executes_known [OF L P(1) h2 _ scope2 b(2) d(2) _ s2(2) src(1), of kc b ?wh]] d(1) obj(2)
        line e(1) b Inr s2(3) steps by (cases kc) (auto split: bool.splits simp del: translate.simps)
    ultimately show ?thesis by (cases "S x") auto
  qed
qed

lemma exec_line_other:
  "(\<And>a b x e'. e \<noteq> BinaryOp Assign a (Variable b x) e') \<Longrightarrow>
   exec_line S e = map_option (map_sum id (\<lambda>k. (S, k))) (eval_in S e)"
  by (cases "(S, e)" rule: exec_line.cases) auto

lemma translate_line:
  assumes L: "int_llvm (lib C) D" "place_llvm (lib C)" "mem_llvm (lib C) D M"
    and S: "represents (lib C) M s S" and line: "exec_line S e = Some r" and n: "depth e \<le> n"
  shows "executes (lib C) D M s r (translate C n e s)"
proof (cases "\<exists>a b x e'. e = BinaryOp Assign a (Variable b x) e'")
  case True
  then obtain a b x e' where e: "e = BinaryOp Assign a (Variable b x) e'" by blast
  from n obtain m where m: "n = Suc m" "depth e' \<le> m" by (cases n) (auto simp: e)
  from line obtain q where "lval b" "x \<noteq> []" "sm_find (attributes b) ''heap'' = None" "x \<noteq> ''__self''" "eval_in S e' = Some q"
    by (auto simp: e split: if_splits)
  from translate_assign [OF L S this m(2) line [unfolded e]] show ?thesis by (simp only: e m(1))
next
  case False
  with line obtain q where q: "eval_in S e = Some q" "r = map_sum id (\<lambda>k. (S, k)) q"
    using exec_line_other [of e S] by (cases "eval_in S e") auto
  with translate_in [OF L S q(1) n] show ?thesis
    using extends_represents [OF _ S] extends_advances [of "lib C" M s]
    by (cases q) (simp_all add: executes_def evaluates_error evaluates_number, metis)
qed

section \<open>Blocks\<close>

text \<open>The value of the last line, if there is one.\<close>

definition stands_for ::
  "('t, 'v, 'p, 'm) llvm \<Rightarrow> ('v \<Rightarrow> int32) \<Rightarrow> ('t, 'v, 'p, 'm) tstate \<Rightarrow> nat option \<Rightarrow> int32 option \<Rightarrow> bool" where
  "stands_for L D s v k \<longleftrightarrow>
     (case v of None \<Rightarrow> k = None | Some i \<Rightarrow> \<exists>w c. int_obj L s i w c \<and> k = Some (D w))"

lemma translate_lines:
  assumes L: "int_llvm (lib C) D" "place_llvm (lib C)" "mem_llvm (lib C) D M"
  shows "represents (lib C) M s S \<Longrightarrow> stands_for (lib C) D s v k \<Longrightarrow> exec_lines S k es = Some q \<Longrightarrow>
    \<forall>e \<in> set es. depth e \<le> n \<Longrightarrow>
    (case q of
       Inl err \<Rightarrow> fst (fold_comp (\<lambda>_ e. translate C n e) v es s) = Throw err
     | Inr (S', k') \<Rightarrow> \<exists>v' s'. fold_comp (\<lambda>_ e. translate C n e) v es s = (Value v', s') \<and>
         represents (lib C) M s' S' \<and> stands_for (lib C) D s' v' k')"
proof (induction es arbitrary: s S v k)
  case Nil
  then show ?case by (auto simp: ret_def)
next
  case (Cons e es)
  from Cons.prems(3) obtain r where r: "exec_line S e = Some r" by (auto split: option.splits)
  from Cons.prems(4) have "depth e \<le> n" by simp
  from translate_line [OF L Cons.prems(1) r this] have run: "executes (lib C) D M s r (translate C n e s)" .
  show ?case
  proof (cases r)
    case (Inl err)
    with run Cons.prems(3) r show ?thesis
      by (cases "translate C n e s") (auto simp: executes_def andThen_def)
  next
    case (Inr Sk)
    then obtain S1 k1 where Sk: "r = Inr (S1, k1)" by (cases Sk) simp
    with run obtain i s1 w c where s1: "translate C n e s = (Value (Some i), s1)" "int_obj (lib C) s1 i w c"
        "D w = k1" "represents (lib C) M s1 S1"
      by (auto simp: executes_def)
    then have "stands_for (lib C) D s1 (Some i) (Some k1)" by (auto simp: stands_for_def)
    moreover have "fold_comp (\<lambda>_ e. translate C n e) v (e # es) s = fold_comp (\<lambda>_ e. translate C n e) (Some i) es s1"
      using s1(1) by (simp add: andThen_def)
    moreover have "exec_lines S1 (Some k1) es = Some q" "\<forall>e \<in> set es. depth e \<le> n"
      using Cons.prems(3,4) r Sk by simp_all
    ultimately show ?thesis using Cons.IH [OF s1(4)] by (simp only:)
  qed
qed

text \<open>
  C5. A block of assignments to integer variables is compiled to code that has the store of the
  reference semantics. Let the names of the current scope, but \<open>__self\<close>, be integer variables whose
  places hold the numbers of a store \<open>S\<close>, and let the lines be integer expressions with variables and assignments
  \<open>x = e\<close>. If the semantics gives an error (a name that is not declared, a constant that is assigned
  again), the block ends with exactly this error; if it gives a store and the number of the last
  line, the block ends without an error, the scope then stands for that store, with the places
  holding its numbers, and the value of the block is that number.
\<close>

theorem integer_block_correct:
  assumes "int_llvm (lib C) D" and "place_llvm (lib C)" and "mem_llvm (lib C) D M"
    and "represents (lib C) M s S" and "exec_lines S None es = Some q" and "\<forall>e \<in> set es. depth e \<le> n"
  shows "case q of
      Inl err \<Rightarrow> \<exists>s'. apply_bb (lib C) (translate C n) es s = (Throw err, s')
    | Inr (S', k) \<Rightarrow> \<exists>open v s'. apply_bb (lib C) (translate C n) es s = (Value (open, v), s') \<and>
        represents (lib C) M s' S' \<and> stands_for (lib C) D s' v k"
proof -
  have "stands_for (lib C) D s None None" by (simp add: stands_for_def)
  from translate_lines [OF assms(1-4) this assms(5,6)] show ?thesis
    by (cases "fold_comp (\<lambda>_ e. translate C n e) None es s")
      (auto simp: apply_bb_def andThen_def gets_def ret_def split: sum.splits)
qed

text \<open>
  C32. A variable that is declared with \<open>mut\<close> becomes constant when the value of a constant variable
  is assigned to it: after \<open>x = y\<close>, for such an \<open>x\<close> and a constant \<open>y\<close>, every further assignment of
  an integer to \<open>x\<close> fails with the error for read-only variables.
\<close>

theorem mut_lost_by_assignment:
  assumes "int_llvm (lib C) D" and "place_llvm (lib C)" and "mem_llvm (lib C) D M"
    and "represents (lib C) M s S" and "S x = Some (i, False)" and "S y = Some (j, True)"
    and "lval b" and "\<not> lval c" and "lval b'" and "x \<noteq> []"
    and "sm_find (attributes b) ''heap'' = None" and "sm_find (attributes b') ''heap'' = None"
    and "eval_int e = Some k" and "depth e < n" and "2 \<le> n"
  shows "\<exists>s'. apply_bb (lib C) (translate C n)
    [BinaryOp Assign a (Variable b x) (Variable c y), BinaryOp Assign a' (Variable b' x) e] s =
      (Throw (translate_error ''Assignment of read-only variable'' (where_at a')), s')"
proof -
  from assms(4) obtain P where "holds (lib C) M s S P" unfolding represents_def by blast
  from holds_Some(2) [OF this] assms(5,6) have names: "x \<noteq> ''__self''" "y \<noteq> ''__self''" by blast+
  have "eval_in T e = Some (Inr k)" for T
    using assms(13) by (induction e arbitrary: k rule: eval_int.induct)
      (auto simp: both_def split: option.splits if_splits)
  then have "exec_lines S None
      [BinaryOp Assign a (Variable b x) (Variable c y), BinaryOp Assign a' (Variable b' x) e] =
      Some (Inl (read_only (where_at a')))"
    using assms names by simp
  from integer_block_correct [OF assms(1-4) this, of n] assms(14,15) show ?thesis
    by (simp add: read_only_def)
qed

end
