(* ===== verification/Link_Requests.thy ===== *)
theory Link_Requests
  imports Assignments Linker_Flags
begin

text \<open>
  Which libraries a program is linked with: the requests that the translator records, followed to
  the flags of the linker.
\<close>

text \<open>A request is never withdrawn, and ends up in the flags.\<close>

definition flag_of :: "string \<Rightarrow> string" where
  "flag_of l = ''-l'' @ l @ '' ''"

lemma request_in_flags:
  assumes "l \<in> set libs"
  shows "\<exists>before after. fst (generateLinkerFlags moved libs) = before @ flag_of l @ after"
proof -
  have "l \<in> set (sorted_list_of_set (set libs))" using assms by simp
  then obtain xs ys where "sorted_list_of_set (set libs) = xs @ l # ys" by (blast dest: split_list)
  then have "fst (generateLinkerFlags moved libs) =
      concat (map flag_of xs) @ flag_of l @ concat (map flag_of ys)"
    by (simp add: generateLinkerFlags_def remdups_adj_sort Let_def flag_of_def [abs_def]
        foldl_append_map [where f = "\<lambda>l. ''-l'' @ l @ '' ''", simplified])
  then show ?thesis by blast
qed

section \<open>Computations that request a library\<close>

definition requests :: "string \<Rightarrow> ('t, 'v, 'p, 'm, 'a) tcomp \<Rightarrow> bool" where
  "requests l m \<longleftrightarrow> (\<forall>s a s'. m s = (Value a, s') \<longrightarrow> l \<in> set (link_libraries s'))"

lemma requests_first:
  assumes "requests l m" and "\<And>a. keeps (grown C) (f a)"
  shows "requests l (andThen m f)"
  unfolding requests_def
proof (intro allI impI)
  fix s b s'
  assume "andThen m f s = (Value b, s')"
  then obtain a t where "m s = (Value a, t)" "f a t = (Value b, s')" by (auto simp: andThen_Value)
  with assms have "l \<in> set (link_libraries t)" "grown C t s'"
    unfolding requests_def by (blast dest: keepsD)+
  then show "l \<in> set (link_libraries s')" by (auto simp: grown_def)
qed

lemma requests_later: "(\<And>a. requests l (f a)) \<Longrightarrow> requests l (andThen m f)"
  by (auto simp: requests_def andThen_Value)

lemma requests_link: "requests l (link_library l)"
  by (simp add: requests_def link_library_def modifies_def)

lemmas requests_then_do =
  requests_first [where f = "\<lambda>_. k" for k, folded then_do_def]
  requests_later [where f = "\<lambda>_. k" for k, folded then_do_def]

lemma pow_requests: "requests ''m'' (apply_pow (lib C) e args)" for C :: "('t, 'v, 'p, 'm) env"
  unfolding apply_pow_def Let_def
  by (rule requests_then_do(1) [where C = C, OF requests_link]) (intro rel_rules)

lemma requests_if_missing:
  assumes "requests l m" and "keeps (grown C) k"
  shows "requests l (andThen (gets (\<lambda>s. l \<in> set (link_libraries s)))
    (\<lambda>linked. then_do (do_if (\<not> linked) m) k))"
  unfolding requests_def
proof (intro allI impI)
  fix s b s'
  assume run: "andThen (gets (\<lambda>s. l \<in> set (link_libraries s)))
    (\<lambda>linked. then_do (do_if (\<not> linked) m) k) s = (Value b, s')"
  show "l \<in> set (link_libraries s')"
  proof (cases "l \<in> set (link_libraries s)")
    case True
    with run have "k s = (Value b, s')" by (simp add: andThen_def gets_def then_do_def do_if_def ret_def)
    with keepsD [OF assms(2) this] True show ?thesis by (auto simp: grown_def)
  next
    case False
    with run have "then_do m k s = (Value b, s')" by (simp add: andThen_def gets_def do_if_def)
    with requests_then_do(1) [OF assms] show ?thesis by (auto simp: requests_def)
  qed
qed

lemma gc_requests: "requests ''gc'' (createGCMalloc C t n)"
  unfolding createGCMalloc_def Let_def
  by (rule requests_if_missing [where C = C])
    (intro requests_then_do(2) requests_link, intro rel_rules)

lemma requests_never: "requests l crash" "requests l (throw e)"
  by (simp_all add: requests_def crash_def throw_def)

lemma heap_place_requests:
  assumes "sm_find (attributes b) ''heap'' \<noteq> None"
  shows "requests ''gc'' (new_place C (Variable b x) wh par n src w)"
proof -
  have "requests ''gc'' (declare_variable C (Variable b x) n src w)"
    using assms unfolding declare_variable_def Let_def
    by simp (intro requests_later requests_first [where C = C, OF gc_requests] rel_rules)
  then show ?thesis
    unfolding new_place_def
    by (auto split: option.split intro!: requests_later requests_never)
qed

lemma getLLVM_same: "getLLVM a s = (r, s') \<Longrightarrow> s' = s"
  by (auto simp: getLLVM_def andThen_def deref_def ret_def split: if_splits)

lemma heap_assign_requests:
  assumes "d < length (heap s)" and "llvm_value (heap s ! d) = None"
    and "sm_find (attributes b) ''heap'' \<noteq> None"
    and "apply_assign C (Variable b x) wh [Some d, Some src] s = (Value r, s')"
  shows "''gc'' \<in> set (link_libraries s')"
proof -
  let ?place = "\<lambda>w. new_place C (Variable b x) wh (parent (heap s ! d)) (vname (heap s ! d)) src w"
  let ?rest = "\<lambda>w place. andThen (copyFull (lib C) src d (vname (heap s ! d)) (Some place) None) (\<lambda>copied.
    if copied then ret (Some src)
    else throw_types (lib C) ''Cannot assign to the value of incompatible type (lval: '' (ty_of (lib C) place)
      '', rval: '' (ty_of (lib C) w) '')'' wh)"
  have "requests ''gc'' (andThen (?place w) (?rest w))" for w
    by (rule requests_first [OF heap_place_requests [OF assms(3)], where C = C]) (intro rel_rules)
  moreover have "\<exists>w. andThen (?place w) (?rest w) s = (Value r, s')"
    using assms(1,2,4)
    by (auto simp: apply_assign_def Let_def andThen_Value operand_def the_or_crash_def ret_def deref_at
        need_llvm_def getLLVM_at then_do_def throw_if_def throw_def crash_def
        dest!: getLLVM_same split: option.splits if_splits) blast+
  ultimately show ?thesis by (auto simp: requests_def)
qed

section \<open>Programs\<close>



end
