(* ===== verification/Function_Scope.thy ===== *)
theory Function_Scope
  imports Assignments
begin

text \<open>
  The names a function body sees: its parameters and \<open>__self\<close>, and none of the names around the
  function, wherever it is written and called.
\<close>

section \<open>The symbols of a scope\<close>

definition names_within ::
  "string set \<Rightarrow> nat \<Rightarrow> ('t, 'v, 'p, 'm) tstate \<Rightarrow> bool" where
  "names_within N scope s \<longleftrightarrow> this_scope s = scope \<and> scope < length (heap s) \<and>
     (\<forall>k. sm_find (symbols (heap s ! scope)) k \<noteq> None \<longrightarrow> k \<in> N)"

text \<open>The relation of being no worse with respect to it.\<close>

definition still_within ::
  "string set \<Rightarrow> nat \<Rightarrow> ('t, 'v, 'p, 'm) tstate \<Rightarrow> ('t, 'v, 'p, 'm) tstate \<Rightarrow> bool" where
  "still_within N scope s s' \<longleftrightarrow> (names_within N scope s \<longrightarrow> names_within N scope s')"

lemma still_preorder: "preorder (still_within N scope)"
  by (auto simp: preorder_def reflp_def still_within_def intro: transpI)

lemma still_added: "heap s' = heap s @ objs \<Longrightarrow> this_scope s' = this_scope s \<Longrightarrow> still_within N scope s s'"
  by (auto simp: still_within_def names_within_def nth_append)

named_theorems within_rules

declare keeps_ret [OF still_preorder, within_rules] keeps_stop [within_rules]
  keeps_andThen [OF still_preorder, within_rules] keeps_then_do [OF still_preorder, within_rules]
  keeps_checks [OF still_preorder, within_rules]

lemma within_emit [within_rules]: "keeps (still_within N scope) (emit L i)"
  "keeps (still_within N scope) (emit_unit L i)"
  unfolding emit_unit_def
  by (intro within_rules keepsI still_added [where objs = "[]"]; auto simp: emit_def)+

lemma within_readers [within_rules]:
  "keeps (still_within N scope) (getType L a)" "keeps (still_within N scope) (isFundamental L ty)"
  unfolding getType_def isFundamental_def isType_if_def
  by (intro within_rules keepsI still_added [where objs = "[]"]; auto simp: deref_def split: if_splits)+

lemma within_copy [within_rules]: "keeps (still_within N scope) (copy_with L a v)"
proof (rule keepsI)
  fix s b s'
  assume run: "copy_with L a v s = (Value b, s')"
  have "keeps (adds L) (copy_with L a v)"
    unfolding copy_with_def by (intro keeps_andThen keeps_gets adds_preorder copy_value_adds)
  then have "adds L s s'" using run by (rule keepsD)
  then show "still_within N scope s s'" by (auto simp: adds_def intro: still_added)
qed

lemma sm_find_put_cases: "sm_find (sm_put x v m) k = Some y \<Longrightarrow> k = x \<or> sm_find m k = Some y"
  by (induction m) (auto split: if_splits)

lemma within_set_symbol: "x \<in> N \<Longrightarrow> keeps (still_within N scope) (set_symbol scope x c)"
  by (auto simp: keeps_def set_symbol_def update_obj_def still_within_def names_within_def
      dest: sm_find_put_cases split: if_splits)

lemma within_declare:
  assumes "fst par \<in> N"
  shows "keeps (still_within N scope) (declare_parameter L scope par args)"
  using assms unfolding declare_parameter_def
  by (auto split: prod.split option.split list.split intro!: within_rules within_set_symbol)

lemma within_declare_all:
  "(\<forall>par \<in> set pars. fst par \<in> N) \<Longrightarrow>
   keeps (still_within N scope) (fold_comp (\<lambda>args par. declare_parameter L scope par args) args pars)"
  by (induction pars arbitrary: args) (auto intro!: within_rules within_declare)

lemma enter_body_within:
  assumes "enter_body L f func entry b s = (Value scope, s')"
  shows "names_within {''__self''} scope s'"
  using assms
  by (auto simp: enter_body_def andThen_def then_do_def new_value_def alloc_def setScope_def modifies_def
      set_insert_point_def emit_def emit_unit_def set_symbol_def update_obj_def do_if_def ret_def
      names_within_def nth_append split: if_splits)

section \<open>A body that reads another name\<close>

lemma unseen_variable:
  assumes "names_within N scope s" and "y \<notin> N" and "\<not> lval c"
  shows "fst (visit_variable L c y s) = Throw (translate_error (''\"'' @ y @ ''\" has not declared in this scope'') (where_at c))"
proof -
  have "sm_find (scope_symbols s) y = None" using assms(1,2) by (auto simp: names_within_def)
  then show ?thesis
    using assms(1,3) by (simp add: visit_variable_def andThen_def gets_def deref_def names_within_def throw_def)
qed

lemma survey_reads_unseen:
  assumes "fst (fold_comp (survey_line (translate C n)) t (Variable c y # rest) s) = Value r"
    and "names_within N scope s" and "\<not> lval c"
  shows "y \<in> N"
proof (rule ccontr)
  assume "y \<notin> N"
  from assms(1) obtain m where n: "n = Suc m"
    by (cases n) (auto simp: andThen_def survey_line_def diverge_def)
  have "\<not> lval (c\<lparr>survey := True\<rparr>)" using assms(3) by simp
  from unseen_variable [OF assms(2) \<open>y \<notin> N\<close> this, of "lib C"] assms(1)
  show False
    by (auto simp: n andThen_def survey_line_def set_survey_def visit_def split: prod.splits)
qed

lemma survey_body_reads:
  assumes "survey_body L (translate C n) f v retst pars sig (Variable c y # rest) s = (Value r, s')"
    and "\<forall>par \<in> set pars. fst par \<in> N" and "\<not> lval c"
  shows "y = ''__self'' \<or> y \<in> N"
proof -
  from assms(1) obtain func entry scope s1 s2 s3 s4 args table where
      "enter_body L f func entry False s1 = (Value scope, s2)"
    and params: "fold_comp (\<lambda>args par. declare_parameter L scope par args) None pars s2 = (Value args, s3)"
    and lines: "fold_comp (survey_line (translate C n)) None (Variable c y # rest) s3 = (Value table, s4)"
    unfolding survey_body_def Let_def then_do_def andThen_Value by blast
  then have "names_within (insert ''__self'' N) scope s2"
    using enter_body_within by (fastforce simp: names_within_def)
  moreover have "still_within (insert ''__self'' N) scope s2 s3"
    by (rule keepsD [OF within_declare_all params]) (use assms(2) in auto)
  ultimately have "names_within (insert ''__self'' N) scope s3" by (simp add: still_within_def)
  with survey_reads_unseen [OF _ this assms(3), of C n None y rest table] lines show ?thesis by simp
qed


end
