(* ===== verification/Array_Bounds.thy ===== *)
theory Array_Bounds
  imports Assignments
begin

text \<open>
  Arrays of integers with an index that the compiler knows: \<open>[e\<^sub>0, ...][k]\<close> is translated exactly when
  the index is in range.
\<close>

section \<open>What LLVM says of arrays\<close>

definition array_llvm :: "('t, 'v, 'p, 'm) llvm \<Rightarrow> bool" where
  "array_llvm L \<longleftrightarrow>
     (\<forall>t n. kind L (array_ty L t n) = ArrayTy) \<and>
     (\<forall>t n v is p m. ty_of L (fst (build L (CreateInBoundsGEP (array_ty L t n) v is) p m)) = ptr_to L t) \<and>
     (\<forall>i. const_value L (signed_const L (int_ty L 32) i) = Some (nat (i mod 2 ^ 32)))"

section \<open>While an array is filled\<close>

text \<open>
  The array is the object \<open>d\<close>, whose symbols grow. The other objects keep their values; only the
  parent of an element changes.
\<close>

definition same_value :: "('t, 'v) vobj \<Rightarrow> ('t, 'v) vobj \<Rightarrow> bool" where
  "same_value obj obj' \<longleftrightarrow> llvm_value obj' = llvm_value obj \<and> vtype obj' = vtype obj \<and> symbols obj' = symbols obj"

definition around :: "nat \<Rightarrow> ('t, 'v, 'p, 'm) tstate \<Rightarrow> ('t, 'v, 'p, 'm) tstate \<Rightarrow> bool" where
  "around d s s' \<longleftrightarrow> length (heap s) \<le> length (heap s') \<and> llvm_value (heap s' ! d) = llvm_value (heap s ! d) \<and>
     vtype (heap s' ! d) = vtype (heap s ! d) \<and>
     (\<forall>i < length (heap s). i \<noteq> d \<longrightarrow> same_value (heap s ! i) (heap s' ! i))"

lemma around_refl: "around d s s"
  by (simp add: around_def same_value_def)

lemma around_trans: "around d s s' \<Longrightarrow> around d s' s'' \<Longrightarrow> around d s s''"
  by (auto simp: around_def same_value_def)

lemma sm_names_put: "{k. sm_find (sm_put x v m) k \<noteq> None} = insert x {k. sm_find m k \<noteq> None}"
proof (rule set_eqI)
  show "k \<in> {k. sm_find (sm_put x v m) k \<noteq> None} \<longleftrightarrow> k \<in> insert x {k. sm_find m k \<noteq> None}" for k
    by (cases "k = x") (simp_all add: sm_find_put_same sm_find_put_other)
qed

definition names :: "('t, 'v, 'p, 'm) tstate \<Rightarrow> nat \<Rightarrow> string set" where
  "names s d = {k. sm_find (symbols (heap s ! d)) k \<noteq> None}"

text \<open>An element as a value, and as a place in the array.\<close>

definition num_obj :: "('t, 'v, 'p, 'm) llvm \<Rightarrow> ('t, 'v, 'p, 'm) tstate \<Rightarrow> nat \<Rightarrow> bool" where
  "num_obj L s a \<longleftrightarrow> a < length (heap s) \<and> symbols (heap s ! a) = [] \<and>
     (\<exists>w c. llvm_value (heap s ! a) = Some w \<and> ty_of L w = int_ty L 32 \<and>
       vtype (heap s ! a) = \<lparr>llvm_type = Some (int_ty L 32), is_lazy = False, is_const = c\<rparr>)"

definition place_obj :: "('t, 'v, 'p, 'm) llvm \<Rightarrow> ('t, 'v, 'p, 'm) tstate \<Rightarrow> nat \<Rightarrow> bool" where
  "place_obj L s a \<longleftrightarrow> a < length (heap s) \<and> symbols (heap s ! a) = [] \<and>
     (\<exists>p c. llvm_value (heap s ! a) = Some p \<and> ty_of L p = ptr_to L (int_ty L 32) \<and>
       vtype (heap s ! a) = \<lparr>llvm_type = Some (ptr_to L (int_ty L 32)), is_lazy = False, is_const = c\<rparr>)"

lemma around_num: "around d s s' \<Longrightarrow> a \<noteq> d \<Longrightarrow> num_obj L s a \<Longrightarrow> num_obj L s' a"
  by (auto simp: around_def num_obj_def same_value_def)

lemma around_place: "around d s s' \<Longrightarrow> a \<noteq> d \<Longrightarrow> place_obj L s a \<Longrightarrow> place_obj L s' a"
  by (auto simp: around_def place_obj_def same_value_def)

lemma num_obj_type:
  "num_obj L s a \<Longrightarrow> \<exists>c. getType L a s =
     (Value \<lparr>llvm_type = Some (int_ty L 32), is_lazy = False, is_const = c\<rparr>, s)"
  by (auto simp: num_obj_def getType_at well_typed_def)

lemma yields_num:
  assumes "yields L D s e r k" and d: "d < length (heap s)"
  shows "\<exists>v s'. r = (Value (Some v), s') \<and> num_obj L s' v \<and> v \<noteq> d \<and> around d s s' \<and> names s' d = names s d"
proof -
  from assms(1) obtain m objs w where w: "ty_of L w = int_ty L 32"
    and r: "r = (Value (Some (length (heap s) + length objs)),
      s\<lparr>ir := m, heap := heap s @ objs @ [mk_value L (Some w) e False]\<rparr>)" (is "_ = (Value (Some ?v), ?s')")
    unfolding yields_def by blast
  have "num_obj L ?s' ?v" using w by (simp add: num_obj_def) (rule exI [of Not False], simp)
  moreover have "around d s ?s'" "names ?s' d = names s d"
    using d by (auto simp: around_def same_value_def names_def nth_append)
  ultimately show ?thesis using r d by (intro exI [of _ ?v] exI [of _ ?s']) simp
qed

section \<open>The elements\<close>

lemma element_step:
  assumes L: "int_llvm L D" and d: "d < length (heap s)"
    and x: "if i = 0 then num_obj L s first \<and> first \<noteq> d else \<exists>k. yields L D s x (tr x s) k"
  shows "\<exists>v s'. array_element L tr wh (int_ty L 32) d first (i, x) s = (Value [v], s') \<and> num_obj L s' v \<and> v \<noteq> d \<and>
    around d s s' \<and> names s' d = insert (nat_string i) (names s d)"
proof -
  have "\<exists>v s1. (if i = 0 then ret (Some first) else tr x) s = (Value (Some v), s1) \<and> num_obj L s1 v \<and>
      v \<noteq> d \<and> around d s s1 \<and> names s1 d = names s d"
    using x yields_num [OF _ d] by (cases "i = 0") (simp_all add: ret_def around_refl, blast)
  then obtain v s1 where s1: "(if i = 0 then ret (Some first) else tr x) s = (Value (Some v), s1)" "num_obj L s1 v"
      "v \<noteq> d" "around d s s1" "names s1 d = names s d" by blast
  let ?h = "(heap s1)[v := (heap s1 ! v)\<lparr>parent := Some d\<rparr>]"
  let ?s2 = "s1\<lparr>heap := ?h[d := (?h ! d)\<lparr>symbols := sm_put (nat_string i) v (symbols (?h ! d))\<rparr>]\<rparr>"
  have len: "d < length (heap s1)" "v < length (heap s1)" using d s1(2,4) by (simp_all add: around_def num_obj_def)
  have "array_element L tr wh (int_ty L 32) d first (i, x) s = (Value [v], ?s2)"
    using s1 num_obj_type [OF s1(2)] len
    by (auto simp: array_element_def andThen_def the_or_crash_def ret_def then_do_def throw_if_def setParent_def
        set_symbol_def update_at)
  moreover have "around d s1 ?s2" using len s1(3) by (auto simp: around_def same_value_def nth_list_update)
  moreover have "num_obj L ?s2 v" using s1(2,3) len by (auto simp: num_obj_def)
  moreover have "names ?s2 d = insert (nat_string i) (names s1 d)"
    using len s1(3) by (simp add: names_def sm_names_put del: not_None_eq)
  ultimately show ?thesis using s1(3-5) around_trans by blast
qed

lemma elements:
  assumes L: "int_llvm L D" and tr: "\<forall>x \<in> set xs. \<forall>s. \<exists>k. yields L D s x (tr x s) k"
  shows "d < length (heap s) \<Longrightarrow> (j = 0 \<longrightarrow> num_obj L s first \<and> first \<noteq> d) \<Longrightarrow>
    \<exists>vs s'. map_comp (array_element L tr wh (int_ty L 32) d first) (zip [j..<j + length xs] xs) s = (Value vs, s') \<and>
      length (concat vs) = length xs \<and> (\<forall>v \<in> set (concat vs). num_obj L s' v \<and> v \<noteq> d) \<and> around d s s' \<and>
      names s' d = names s d \<union> nat_string ` {j..<j + length xs}"
  using tr
proof (induction xs arbitrary: j s)
  case Nil
  then show ?case by (simp add: ret_def around_refl)
next
  case (Cons x xs)
  have "if j = 0 then num_obj L s first \<and> first \<noteq> d else \<exists>k. yields L D s x (tr x s) k"
    using Cons.prems(2,3) by auto
  from element_step [where tr = tr and i = j and x = x, OF L Cons.prems(1) this, of wh] obtain v s1
    where s1: "array_element L tr wh (int_ty L 32) d first (j, x) s = (Value [v], s1)" "num_obj L s1 v" "v \<noteq> d"
      "around d s s1" "names s1 d = insert (nat_string j) (names s d)" by blast
  have "d < length (heap s1)" using Cons.prems(1) s1(4) by (simp add: around_def)
  from Cons.IH [OF this, of "Suc j"] Cons.prems(3) obtain vs s2
    where s2: "map_comp (array_element L tr wh (int_ty L 32) d first) (zip [Suc j..<Suc j + length xs] xs) s1 = (Value vs, s2)"
      "length (concat vs) = length xs" "\<forall>v \<in> set (concat vs). num_obj L s2 v \<and> v \<noteq> d" "around d s1 s2"
      "names s2 d = names s1 d \<union> nat_string ` {Suc j..<Suc j + length xs}" by auto
  have zip: "zip [j..<j + length (x # xs)] (x # xs) = (j, x) # zip [Suc j..<Suc j + length xs] xs"
    by (simp add: upt_conv_Cons del: upt_Suc)
  have "{j..<j + length (x # xs)} = insert j {Suc j..<Suc j + length xs}" by auto
  then have "names s2 d = names s d \<union> nat_string ` {j..<j + length (x # xs)}" using s1(5) s2(5) by auto
  moreover have "map_comp (array_element L tr wh (int_ty L 32) d first) (zip [j..<j + length (x # xs)] (x # xs)) s =
      (Value ([v] # vs), s2)"
    unfolding zip using s1(1) s2(1) by (simp add: andThen_def ret_def del: upt_Suc)
  moreover have "num_obj L s2 v" using around_num [OF s2(4) s1(3,2)] .
  ultimately show ?case
    using s1(3,4) s2(2-4) around_trans by (intro exI [of _ "[v] # vs"] exI [of _ s2]) auto
qed

section \<open>The places\<close>

definition placed :: "('t, 'v, 'p, 'm) llvm \<Rightarrow> ('t, 'v, 'p, 'm) tstate \<Rightarrow> nat \<Rightarrow> nat \<Rightarrow> bool" where
  "placed L s d i \<longleftrightarrow> (\<exists>c. sm_find (symbols (heap s ! d)) (nat_string i) = Some c \<and> c \<noteq> d \<and> place_obj L s c)"

lemma store_element:
  assumes L: "int_llvm L D" "place_llvm L" and v: "num_obj L s v" and p: "ty_of L p = ptr_to L (int_ty L 32)"
  shows "\<exists>m. store_full L v (Some p) s = (Value True, s\<lparr>ir := m\<rparr>)"
proof -
  obtain c where "getType L v s = (Value \<lparr>llvm_type = Some (int_ty L 32), is_lazy = False, is_const = c\<rparr>, s)"
    using num_obj_type [OF v] by blast
  then show ?thesis
    using v p L(2)
    by (auto simp: num_obj_def store_full_def andThen_def getLLVM_at the_or_crash_def ret_def place_llvm_def
        isFundamental_int [OF L(1)] then_do_def emit_unit_def emit_def)
qed

lemma move_step:
  assumes L: "int_llvm L D" "place_llvm L" and d: "d < length (heap s)" and v: "num_obj L s v" "v \<noteq> d"
    and p: "ty_of L p = ptr_to L (int_ty L 32)"
  shows "\<exists>s'. move_in L d (nat_string i) v p s = (Value (), s') \<and> around d s s' \<and> placed L s' d i \<and>
    (\<forall>k. k \<noteq> nat_string i \<longrightarrow> sm_find (symbols (heap s' ! d)) k = sm_find (symbols (heap s ! d)) k) \<and>
    names s' d = insert (nat_string i) (names s d)"
proof -
  have len: "v < length (heap s)" using v(1) by (simp add: num_obj_def)
  let ?s1 = "s\<lparr>heap := heap s @ [mk_value L (Some p) (ast_value (heap s ! v)) False]\<rparr>"
  have v1: "num_obj L ?s1 v" using v(1) by (auto simp: num_obj_def nth_append)
  from store_element [OF L v1 p] obtain m where store: "store_full L v (Some p) ?s1 = (Value True, ?s1\<lparr>ir := m\<rparr>)"
    by blast
  let ?c = "(heap s ! v)\<lparr>llvm_value := Some p, symbols := [],
    vtype := copyWithNewLLVMType (vtype (heap s ! v)) (Some (ty_of L p))\<rparr>"
  let ?n = "Suc (length (heap s))"
  let ?s2 = "?s1\<lparr>ir := m, heap := heap ?s1 @ [?c]\<rparr>"
  have copy: "copy_with L v (Some p) (?s1\<lparr>ir := m\<rparr>) = (Value ?n, ?s2)"
    using len v1 by (subst copy_with_leaf) (simp_all add: num_obj_def nth_append)
  let ?s3 = "?s2\<lparr>heap := (heap ?s2)[d := (heap s ! d)\<lparr>symbols := sm_put (nat_string i) ?n (symbols (heap s ! d))\<rparr>]\<rparr>"
  obtain q where type: "getType L v ?s1 = (Value \<lparr>llvm_type = Some (int_ty L 32), is_lazy = False, is_const = q\<rparr>, ?s1)"
    using num_obj_type [OF v1] by blast
  have "nat_string i \<noteq> []" by (subst nat_string.simps) simp
  then have "move_in L d (nat_string i) v p s = (Value (), ?s3)"
    using len d store copy type
    by (simp add: move_in_def andThen_def deref_at new_value_def alloc_def copyFull_def Let_def ret_def gets_def
        then_do_def set_symbol_def update_at nth_append assert_def)
  moreover have "around d s ?s3" using d by (auto simp: around_def same_value_def nth_append nth_list_update)
  moreover have "heap ?s3 ! d = (heap s ! d)\<lparr>symbols := sm_put (nat_string i) ?n (symbols (heap s ! d))\<rparr>"
    using d by simp
  moreover have "heap ?s3 ! ?n = ?c" using d by (simp add: nth_append)
  then have "place_obj L ?s3 ?n" using v(1) p by (auto simp: place_obj_def num_obj_def copyWithNewLLVMType_def)
  ultimately show ?thesis
    using d by (intro exI [of _ ?s3])
      (auto simp: placed_def sm_find_put_same sm_find_put_other names_def sm_names_put simp del: not_None_eq)
qed

abbreviation fill ::
  "('t, 'v, 'p, 'm) llvm \<Rightarrow> 't \<Rightarrow> 'v \<Rightarrow> nat \<Rightarrow> nat \<times> nat \<Rightarrow> ('t, 'v, 'p, 'm, unit) tcomp" where
  "fill L ty ary d \<equiv> \<lambda>(i, v). andThen (emit L (CreateInBoundsGEP ty ary [i32 L 0, i32 L i])) (\<lambda>p.
     move_in L d (nat_string i) v p)"

lemma fill_all:
  assumes L: "int_llvm L D" "place_llvm L" "array_llvm L"
  shows "d < length (heap s) \<Longrightarrow> \<forall>v \<in> set vs. num_obj L s v \<and> v \<noteq> d \<Longrightarrow>
    nat_string ` {j..<j + length vs} \<subseteq> names s d \<Longrightarrow>
    \<exists>s'. each (fill L (array_ty L (int_ty L 32) n) ary d) (zip [j..<j + length vs] vs) s = (Value (), s') \<and>
      around d s s' \<and> (\<forall>i \<in> {j..<j + length vs}. placed L s' d i) \<and>
      (\<forall>i < j. sm_find (symbols (heap s' ! d)) (nat_string i) = sm_find (symbols (heap s ! d)) (nat_string i)) \<and>
      names s' d = names s d"
proof (induction vs arbitrary: j s)
  case Nil
  then show ?case by (simp add: each_def ret_def around_refl)
next
  case (Cons v vs)
  let ?ty = "array_ty L (int_ty L 32) n"
  let ?gep = "build L (CreateInBoundsGEP ?ty ary [i32 L 0, i32 L j]) (ip s) (ir s)"
  let ?s1 = "s\<lparr>ir := snd ?gep\<rparr>"
  have p: "ty_of L (fst ?gep) = ptr_to L (int_ty L 32)" using L(3) by (simp add: array_llvm_def)
  have v: "num_obj L ?s1 v" "v \<noteq> d" and d: "d < length (heap ?s1)"
    using Cons.prems by (simp_all add: num_obj_def)
  from move_step [OF L(1,2) d v p, of j] obtain s2 where run: "move_in L d (nat_string j) v (fst ?gep) ?s1 = (Value (), s2)"
    and s2: "around d ?s1 s2" "placed L s2 d j" "names s2 d = insert (nat_string j) (names ?s1 d)"
      "\<forall>k. k \<noteq> nat_string j \<longrightarrow> sm_find (symbols (heap s2 ! d)) k = sm_find (symbols (heap ?s1 ! d)) k" by blast
  have around: "around d s s2" using s2(1) by (simp add: around_def)
  have fill: "fill L ?ty ary d (j, v) s = (Value (), s2)" using run by (simp add: andThen_def emit_def)
  have "nat_string j \<in> names s d" using Cons.prems(3) by auto
  then have names: "names s2 d = names s d" using s2(3) by (auto simp: names_def)
  have d2: "d < length (heap s2)" using around Cons.prems(1) by (simp add: around_def)
  have vs2: "\<forall>v \<in> set vs. num_obj L s2 v \<and> v \<noteq> d"
    using Cons.prems(2) around_num [OF around] by auto
  have "{Suc j..<Suc j + length vs} \<subseteq> {j..<j + length (v # vs)}" by auto
  then have "nat_string ` {Suc j..<Suc j + length vs} \<subseteq> names s2 d"
    using Cons.prems(3) unfolding names by blast
  from Cons.IH [OF d2 vs2 this] obtain s3 where
    rest: "each (fill L ?ty ary d) (zip [Suc j..<Suc j + length vs] vs) s2 = (Value (), s3)"
    and s3: "around d s2 s3" "\<forall>i \<in> {Suc j..<Suc j + length vs}. placed L s3 d i" "names s3 d = names s2 d"
      "\<forall>i < Suc j. sm_find (symbols (heap s3 ! d)) (nat_string i) = sm_find (symbols (heap s2 ! d)) (nat_string i)"
    by blast
  have zip: "zip [j..<j + length (v # vs)] (v # vs) = (j, v) # zip [Suc j..<Suc j + length vs] vs"
    by (simp add: upt_conv_Cons del: upt_Suc)
  have "placed L s3 d j"
    using s2(2) s3(4) around_place [OF s3(1)] unfolding placed_def by auto
  then have placed: "\<forall>i \<in> {j..<j + length (v # vs)}. placed L s3 d i"
    using s3(2) by (auto simp: less_Suc_eq_le le_eq_less_or_eq dest: Suc_leI)
  have "each (fill L ?ty ary d) (zip [j..<j + length (v # vs)] (v # vs)) s = (Value (), s3)"
    unfolding zip using fill rest by (simp add: each_def andThen_def)
  moreover have "\<forall>i < j. sm_find (symbols (heap s3 ! d)) (nat_string i) = sm_find (symbols (heap s ! d)) (nat_string i)"
    using s2(4) s3(4) by simp
  ultimately show ?case
    using around_trans [OF around s3(1)] placed s3(3) names by blast
qed

text \<open>An array of \<open>n\<close> integers, complete.\<close>

definition int_array :: "('t, 'v, 'p, 'm) llvm \<Rightarrow> ('t, 'v, 'p, 'm) tstate \<Rightarrow> nat \<Rightarrow> nat \<Rightarrow> bool" where
  "int_array L s d n \<longleftrightarrow> d < length (heap s) \<and> names s d = nat_string ` {..<n} \<and> (\<forall>i < n. placed L s d i) \<and>
     (\<exists>p. llvm_value (heap s ! d) = Some p \<and> ty_of L p = ptr_to L (array_ty L (int_ty L 32) n) \<and>
       vtype (heap s ! d) = \<lparr>llvm_type = Some (ty_of L p), is_lazy = False, is_const = False\<rparr>)"

lemma visit_int_array:
  assumes L: "int_llvm L D" "place_llvm L" "array_llvm L" and a: "\<not> lval a" "\<not> to_call a" and xs: "xs \<noteq> []"
    and tr: "\<forall>x \<in> set xs. \<forall>s. \<exists>k. yields L D s x (tr x s) k"
  shows "\<exists>d s'. visit_array L tr a xs s = (Value (Some d), s') \<and> int_array L s' d (length xs)"
proof -
  let ?n = "length xs" let ?ty = "array_ty L (int_ty L 32) ?n"
  from tr xs obtain k where "yields L D s (hd xs) (tr (hd xs) s) k" by (metis list.set_sel(1))
  from yields_obj [OF this] obtain first s1 w where first: "tr (hd xs) s = (Value (Some first), s1)"
    "int_obj L s1 first w False" by metis
  let ?ary = "fst (build L (CreateAlloca ?ty []) (ip s1) (ir s1))"
  let ?d = "length (heap s1)"
  let ?s2 = "s1\<lparr>ir := snd (build L (CreateAlloca ?ty []) (ip s1) (ir s1)),
    heap := heap s1 @ [mk_value L (Some ?ary) (Array a xs) False]\<rparr>"
  have d2: "?d < length (heap ?s2)" by simp
  have "num_obj L ?s2 first" "first \<noteq> ?d"
    using first(2) by (auto simp: num_obj_def int_obj_def nth_append)
  then have "0 = 0 \<longrightarrow> num_obj L ?s2 first \<and> first \<noteq> ?d" by simp
  from elements [OF L(1) tr d2 this, of "where_at a"] obtain vs s3 where
    elems: "map_comp (array_element L tr (where_at a) (int_ty L 32) ?d first) (indexed xs) ?s2 = (Value vs, s3)"
    and s3: "length (concat vs) = ?n" "\<forall>v \<in> set (concat vs). num_obj L s3 v \<and> v \<noteq> ?d" "around ?d ?s2 s3"
      "names s3 ?d = names ?s2 ?d \<union> nat_string ` {0..<0 + ?n}"
    by (auto simp: indexed_def)
  have names3: "names s3 ?d = nat_string ` {..<?n}"
    using s3(4) by (auto simp: names_def nth_append lessThan_atLeast0)
  have d3: "?d < length (heap s3)" using s3(3) by (simp add: around_def)
  have "nat_string ` {0..<0 + length (concat vs)} \<subseteq> names s3 ?d" using names3 s3(1) by (simp add: lessThan_atLeast0)
  from fill_all [OF L d3 s3(2) this, of ?n ?ary] obtain s4 where
    fills: "each (fill L ?ty ?ary ?d) (indexed (concat vs)) s3 = (Value (), s4)"
    and s4: "around ?d s3 s4" "\<forall>i < ?n. placed L s4 ?d i" "names s4 ?d = names s3 ?d"
    using s3(1) by (auto simp: indexed_def)
  have "visit_array L tr a xs s = (Value (Some ?d), s4)"
    using a xs first(1) int_obj_type [OF first(2)] elems fills
    by (simp add: visit_array_def check_constant_def then_do_def throw_if_def andThen_def ret_def the_or_crash_def
        isFundamental_int [OF L(1)] Let_def emit_def new_value_def alloc_def)
  moreover have "int_array L s4 ?d ?n"
    using s3(3) s4 d3 names3 L(2)
    by (auto simp: int_array_def around_def place_llvm_def nth_append)
  ultimately show ?thesis by blast
qed

section \<open>The index\<close>

lemma element_at_out_of_range:
  assumes "int_array L s d n" and "n \<le> i" and "i < 2 ^ 32"
  shows "element_at L a d place i s = (Throw (translate_error (''Index '' @ nat_string i @ '' is out of range.'') (where_at a)), s)"
proof -
  have "nat_string i \<notin> names s d" using assms(1,2) by (auto simp: int_array_def)
  moreover have "min i (2 ^ 32 - 1) = i" using assms(3) by simp
  ultimately show ?thesis
    using assms(1)
    by (simp add: element_at_def Let_def andThen_def deref_at int_array_def names_def throw_def del: power_numeral)
qed

lemma element_at_in_range:
  assumes L: "int_llvm L D" "place_llvm L" "array_llvm L" and "int_array L s d n" and "i < n" and "i < 2 ^ 32"
    and place: "ty_of L place = ptr_to L (array_ty L (int_ty L 32) n)"
  shows "\<exists>v s'. element_at L a d place i s = (Value (Some v), s')"
proof -
  have i: "min i (2 ^ 32 - 1) = i" using assms(6) by simp
  from assms(4,5) obtain c where d: "d < length (heap s)" and c: "sm_find (symbols (heap s ! d)) (nat_string i) = Some c"
    "place_obj L s c" by (auto simp: int_array_def placed_def)
  from c(2) obtain q x where obj: "c < length (heap s)" "symbols (heap s ! c) = []" "llvm_value (heap s ! c) = Some q"
    "ty_of L q = ptr_to L (int_ty L 32)"
    "vtype (heap s ! c) = \<lparr>llvm_type = Some (ptr_to L (int_ty L 32)), is_lazy = False, is_const = x\<rparr>"
    by (auto simp: place_obj_def)
  let ?gep = "build L (CreateInBoundsGEP (array_ty L (int_ty L 32) n) place [i32 L 0, i32 L i]) (ip s) (ir s)"
  let ?s1 = "s\<lparr>ir := snd ?gep, heap := (heap s)[c := (heap s ! c)\<lparr>llvm_value := Some (fst ?gep),
    vtype := \<lparr>llvm_type = Some (ptr_to L (int_ty L 32)), is_lazy = False, is_const = x\<rparr>, vname := nat_string i\<rparr>]\<rparr>"
  have gep: "ty_of L (fst ?gep) = ptr_to L (int_ty L 32)" using L(3) by (simp add: array_llvm_def)
  have arr: "pointee L (ptr_to L t) = t" for t using L(2) by (simp add: place_llvm_def)
  have "\<exists>v s'. fetch L (lval a) c ?s1 = (Value v, s')"
    using obj gep
    by (auto simp: fetch_def andThen_def ret_def getType_at well_typed_def fundamental_place [OF L(1,2)] need_llvm_at
        emit_def copy_def getLLVM_at copy_with_leaf)
  then obtain v s' where "fetch L (lval a) c ?s1 = (Value v, s')" by blast
  then show ?thesis
    using d c(1) obj gep i place
    by (simp add: element_at_def Let_def andThen_def deref_at getType_at well_typed_def then_do_def do_if_def emit_def
        setLLVM_def setName_def update_at arr ret_def del: power_numeral)
qed

lemma const_index:
  fixes k :: int32
  assumes "array_llvm L"
  shows "const_value L (signed_const L (int_ty L 32) (sint k)) = Some (unat k)"
proof -
  have "nat (sint k mod 2 ^ 32) = unat k"
    by (simp add: unat_eq_nat_uint uint_sint take_bit_eq_mod)
  with assms show ?thesis by (simp add: array_llvm_def)
qed

lemma apply_at_array:
  fixes k :: int32
  assumes L: "int_llvm L D" "place_llvm L" "array_llvm L" and arr: "int_array L s d n"
    and ix: "int_obj L s j (signed_const L (int_ty L 32) (sint k)) c"
  shows "apply_at L e a [Some d, Some j] s = element_at L a d (the (llvm_value (heap s ! d))) (unat k) s"
proof -
  from arr obtain p where "d < length (heap s)" "llvm_value (heap s ! d) = Some p"
    "ty_of L p = ptr_to L (array_ty L (int_ty L 32) n)" by (auto simp: int_array_def)
  moreover have "ty_of L (signed_const L (int_ty L 32) (sint k)) = int_ty L 32" "kind L (int_ty L 32) = IntegerTy"
    "kind L (array_ty L (int_ty L 32) n) = ArrayTy"
    using L(1,3) by (simp_all add: int_llvm_def array_llvm_def)
  ultimately show ?thesis
    using L(2) int_obj_llvm [OF ix]
    by (simp add: apply_at_def operand_llvm_def operand_def andThen_def the_or_crash_def ret_def getLLVM_at
        const_index [OF L(3)] place_llvm_def)
qed

text \<open>
  C20. A constant index into an array literal of integers is checked when the program is compiled: the
  element is translated exactly when the index is smaller than the length of the array; otherwise
  the translation fails with the error for the index, at the place of the operator. The index counts
  without a sign, so that a negative constant is out of range too.
\<close>

theorem array_index_checked:
  assumes "int_llvm (lib C) D" and "place_llvm (lib C)" and "array_llvm (lib C)"
    and "xs \<noteq> []" and "\<forall>x \<in> set xs. eval_int x \<noteq> None \<and> depth x \<le> n"
    and "\<not> lval b" and "\<not> to_call b" and "\<not> lval c" and "\<not> to_call c"
  shows "if unat k < length xs
    then \<exists>v s'. translate C (Suc (Suc n)) (BinaryOp At a (Array b xs) (Integer c k)) s = (Value (Some v), s')
    else \<exists>s'. translate C (Suc (Suc n)) (BinaryOp At a (Array b xs) (Integer c k)) s =
      (Throw (translate_error (''Index '' @ nat_string (unat k) @ '' is out of range.'') (where_at a)), s')"
proof -
  let ?L = "lib C" let ?e = "BinaryOp At a (Array b xs) (Integer c k)"
  have "\<forall>x \<in> set xs. \<forall>s. \<exists>k. yields ?L D s x (translate C n x s) k"
    using assms(5) translate_int [OF assms(1)] by blast
  from visit_int_array [OF assms(1-3,6,7,4) this] obtain d s1 where
    arr: "visit_array ?L (translate C n) b xs s = (Value (Some d), s1)" "int_array ?L s1 d (length xs)" by blast
  let ?w = "signed_const ?L (int_ty ?L 32) (sint k)" let ?j = "length (heap s1)"
  let ?s2 = "s1\<lparr>heap := heap s1 @ [mk_value ?L (Some ?w) (Integer c k) False]\<rparr>"
  have ix: "visit_integer ?L c k s1 = (Value (Some ?j), ?s2)"
    using assms(8,9)
    by (simp add: visit_integer_def visit_constant_def check_constant_def then_do_def throw_if_def new_value_def
        alloc_def andThen_def ret_def)
  have obj: "int_obj ?L ?s2 ?j ?w False" using assms(1) by (intro int_obj_new) (simp_all add: int_llvm_def)
  have arr2: "int_array ?L ?s2 d (length xs)"
    using arr(2) by (fastforce simp: int_array_def names_def placed_def place_obj_def nth_append)
  from arr(2) obtain p where d: "d < length (heap s1)" "llvm_value (heap s1 ! d) = Some p"
    "ty_of ?L p = ptr_to ?L (array_ty ?L (int_ty ?L 32) (length xs))"
    "vtype (heap s1 ! d) = \<lparr>llvm_type = Some (ptr_to ?L (array_ty ?L (int_ty ?L 32) (length xs))), is_lazy = False, is_const = False\<rparr>"
    by (auto simp: int_array_def)
  have "translate C (Suc (Suc n)) ?e s = apply_at ?L ?e a [Some d, Some ?j] ?s2"
    using arr(1) ix d assms(2,3) int_obj_type [OF obj] int_obj_llvm [OF obj]
    by (simp add: visit_def visit_operators_def op_is_customizable_def visit_customizable_def Let_def andThen_def
        the_or_crash_def ret_def getType_at well_typed_def isStruct_def isType_if_def the_or_diverge_def
        strip_pointer strip_not_pointer place_llvm_def array_llvm_def visit_arg_def apply_op_def)
  also have "\<dots> = element_at ?L a d p (unat k) ?s2"
    using apply_at_array [OF assms(1-3) arr2 obj] d by (simp add: nth_append)
  finally have run: "translate C (Suc (Suc n)) ?e s = element_at ?L a d p (unat k) ?s2" .
  have "unat k < 2 ^ 32" using unsigned_less [of k] by simp
  then show ?thesis
    using element_at_in_range [OF assms(1-3) arr2 _ _ d(3)] element_at_out_of_range [OF arr2]
    by (simp add: run del: translate.simps)
qed

end
