(* ===== verification/Imports.thy ===== *)
theory Imports
  imports Translator_State
begin

text \<open>
  Imports of other files, where the translator calls the parser: which error an import ends with, and
  what a file that is imported sees of the translator that imports it.
\<close>

text \<open>The node \<open>@import\<close> with the path of a file of the language.\<close>

definition imports_file :: "attribute \<Rightarrow> string \<Rightarrow> bool" where
  "imports_file a path \<longleftrightarrow> \<not> lval a \<and> sm_find (attributes a) ''m'' = Some path"

lemma visit_import_file:
  assumes "imports_file a path" and "get_function (lib C) (ir s) ''import'' = None"
  shows "translate C (Suc n) (PreVariable a ''@import'') s =
    andThen (import_module C (translate C n) path a) (opened (''Failed to open '' @ path) (where_at a)) s"
  using assms
  by (simp add: imports_file_def visit_def visit_pre_variable_def visit_import_def Let_def then_do_def
      andThen_def throw_if_def ret_def reads_def gets_def)

text \<open>
  C19. An import is the translation of the other file by itself. With the path of a file that cannot be
  read it fails with the error for that; with a file that does not parse it fails with a parse error,
  and in both cases the translator is as before. Otherwise the tree of the file is translated by a
  translator that starts with an empty scope and without flags, and only the module, the objects and
  the libraries of that translator come back.
\<close>

theorem import_translates_file:
  assumes "x3_conforms (x3_engine C)" and "lib_ok (x3_lib C)"
    and "imports_file a path" and "get_function (lib C) (ir s) ''import'' = None"
  defines "file \<equiv> absolute C path (getPath (where_at a))"
    and "inner \<equiv> (new_translator (ir s) (ip s) (heap s) [])\<lparr>link_libraries := link_libraries s\<rparr>"
  shows "case read_file C file of
      None \<Rightarrow> translate C (Suc n) (PreVariable a ''@import'') s =
        (Throw (translate_error (''Failed to open '' @ path) (where_at a)), s)
    | Some code \<Rightarrow>
        (\<exists>err h. parse (x3_engine C) (x3_lib C) new_holder code no_error (Some file) = Some (NoTree, err, h) \<and>
          has_error err \<and> err_type err = Parse \<and>
          translate C (Suc n) (PreVariable a ''@import'') s = (Throw err, s)) \<or>
        (\<exists>e h. parse (x3_engine C) (x3_lib C) new_holder code no_error (Some file) = Some (Tree e, no_error, h) \<and>
          (\<forall>v s'. translate C n e inner = (Value (Some v), s') \<longrightarrow>
            translate C (Suc n) (PreVariable a ''@import'') s =
              (Value (Some v), s\<lparr>ir := ir s', heap := heap s', link_libraries := link_libraries s'\<rparr>)) \<and>
          (\<forall>err s'. translate C n e inner = (Throw err, s') \<longrightarrow>
            fst (translate C (Suc n) (PreVariable a ''@import'') s) = Throw err))"
proof (cases "read_file C file")
  case None
  then show ?thesis
    by (simp add: visit_import_file [OF assms(3,4)] import_module_def Let_def andThen_def ret_def opened_def
        throw_def file_def del: translate.simps)
next
  case (Some code)
  show ?thesis
    by (cases rule: parse_cases [OF assms(1,2), of new_holder code no_error "Some file"])
      (auto simp: visit_import_file [OF assms(3,4)] import_module_def Let_def andThen_def ret_def opened_def
        throw_def the_or_diverge_def in_new_translator_def Some [unfolded file_def] inner_def file_def
        simp del: translate.simps)
qed

end
