(* ===== verification/Scopc.thy ===== *)
theory Scopc
  imports Translator_State Ast_Printer Linker_Flags
begin

text \<open>
  The compiler program: \<open>main\<close> of \<open>src/scopc/scopc.cpp\<close>, with \<open>module::verify\<close> and
  \<open>module::optimize\<close> of \<open>lib/assembly/module.cpp\<close>. A run is its exit code and what it does to the
  outside, in order: messages, files written and commands run. \<open>scopc\<close> is \<open>main\<close> from where its
  options are known, \<open>scopc_main\<close> begins with the command line.
\<close>

section \<open>Options, surroundings and events\<close>

datatype OutputType = OutIR | OutAST | OutAssembly | OutObject

record options =
  version_flag :: bool
  input_path :: "string option"
  output_path :: string
  out_type :: OutputType
  arch :: string
  translator_flags :: "string list"
  entry_func :: string
  optimize_level :: int

text \<open>
  What comes from libraries: the terminal styles, texts that only they know, the verifier, the
  printer and the optimisation passes of LLVM, target triples, fresh names of temporary files and
  the exit code of a command. \<open>leftover\<close> is what \<open>std::unique\<close> leaves behind.
\<close>

record 'm toolchain =
  styles :: "rang_code \<Rightarrow> string"
  show_double :: "double \<Rightarrow> string"
  show_path :: "string \<Rightarrow> string"
  usage :: string
  banner :: string
  new_module :: "string \<Rightarrow> 'm"
  broken_module :: "'m \<Rightarrow> bool"
  print_module :: "'m \<Rightarrow> string"
  module_passes :: "8 word \<Rightarrow> 8 word \<Rightarrow> 'm \<Rightarrow> 'm"
  begin_functions :: "'m \<Rightarrow> 'm"
  function_list :: "'m \<Rightarrow> string list"
  function_passes :: "8 word \<Rightarrow> 8 word \<Rightarrow> string \<Rightarrow> 'm \<Rightarrow> 'm"
  end_functions :: "'m \<Rightarrow> 'm"
  default_triple :: string
  normal_triple :: "string \<Rightarrow> string"
  tmp_file :: "nat \<Rightarrow> string"
  system_code :: "string \<Rightarrow> int"
  leftover :: "string list"

datatype event = Message string | Output string | WriteFile string string | Command string

type_synonym run = "int \<times> event list"

definition error_prefix :: "'m toolchain \<Rightarrow> string" where
  "error_prefix T =
     styles T StyleReset @ styles T BgRed @ styles T FgGray @ ''[ERROR]'' @ styles T StyleReset"

definition report :: "'m toolchain \<Rightarrow> error \<Rightarrow> run" where
  "report T err = (-1, [Message (print_error (styles T) err @ [newline])])"

section \<open>After the translation\<close>

definition verify :: "'m toolchain \<Rightarrow> 'm \<Rightarrow> error option" where
  "verify T m =
     (if broken_module T m
      then Some (mk_error (''Invaild IR has generated'' @ [newline] @ ''IR:'' @ [newline] @ print_module T m)
        LocEmpty Bug)
      else None)"

definition out_path :: "options \<Rightarrow> string" where
  "out_path opts = (if output_path opts \<noteq> ''-'' then output_path opts else ''/dev/stdout'')"

text \<open>\<open>module::optimize\<close>: the passes on the module, then those on each of its functions.\<close>

definition optimize :: "'m toolchain \<Rightarrow> 8 word \<Rightarrow> 8 word \<Rightarrow> 'm \<Rightarrow> 'm" where
  "optimize T optLevel sizeLevel m =
     (let m1 = begin_functions T (module_passes T optLevel sizeLevel m)
      in end_functions T (fold (function_passes T optLevel sizeLevel) (function_list T m1) m1))"

text \<open>The optimisation level is cut to eight bits.\<close>

definition optimized :: "'m toolchain \<Rightarrow> options \<Rightarrow> 'm \<Rightarrow> 'm" where
  "optimized T opts m =
     (let optlevel = (word_of_int (optimize_level opts) :: 8 word) in
      if optlevel \<noteq> 0 then optimize T optlevel optlevel m else m)"

definition emit_files :: "'m toolchain \<Rightarrow> options \<Rightarrow> string list \<Rightarrow> 'm \<Rightarrow> run" where
  "emit_files T opts libs m =
     (let irpath = (if out_type opts = OutIR then out_path opts else tmp_file T 0 @ ''.ll'');
          ir_file = WriteFile irpath (print_module T m) in
      if out_type opts = OutIR then (0, [ir_file])
      else
        let asmpath = (if out_type opts = OutAssembly then out_path opts else tmp_file T 1 @ ''.s'');
            triple = normal_triple T (if arch opts \<noteq> ''native'' then arch opts else default_triple T);
            llc = ''llc -relocation-model=pic -mtriple='' @ triple @ '' -filetype asm '' @ irpath
              @ '' -o='' @ asmpath in
        if out_type opts = OutAssembly then (0, [ir_file, Command llc])
        else
          let clang = ''clang '' @ asmpath @ '' '' @ fst (generateLinkerFlags (leftover T) libs)
            @ '' --target='' @ triple @ '' -o '' @ out_path opts in
          (system_code T clang, [ir_file, Command llc, Command clang]))"

definition back_end :: "'m toolchain \<Rightarrow> options \<Rightarrow> string list \<Rightarrow> 'm \<Rightarrow> run" where
  "back_end T opts libs m =
     (case verify T m of
        Some err \<Rightarrow> report T err
      | None \<Rightarrow> emit_files T opts libs (optimized T opts m))"

section \<open>Translation\<close>

definition compile ::
  "('t, 'v, 'p, 'm) env \<Rightarrow> 'm toolchain \<Rightarrow> options \<Rightarrow> nat \<Rightarrow> expr \<Rightarrow> error \<Rightarrow> ('t, 'v, 'p, 'm, run) tcomp" where
  "compile C T opts n ast err =
     then_do (createMain C)
       (andThen (translateAST C n ast err) (\<lambda>(err, tlv).
        case tlv of
          None \<Rightarrow> ret (report T err)
        | Some v \<Rightarrow>
            andThen (createMainRet C n v err) (\<lambda>(err, f).
            case f of
              None \<Rightarrow> ret (report T err)
            | Some _ \<Rightarrow> gets (\<lambda>s. back_end T opts (link_libraries s) (ir s)))))"

definition run_compiler ::
  "('t, 'v, 'p, 'm) env \<Rightarrow> 'm toolchain \<Rightarrow> options \<Rightarrow> nat \<Rightarrow> string \<Rightarrow> expr \<Rightarrow> error \<Rightarrow> run outcome" where
  "run_compiler C T opts n inpath ast err =
     fst (compile (C\<lparr>entry_function_name := entry_func opts\<rparr>) T opts n ast err
       (new_translator (new_module T inpath) (no_point (lib C)) [] (translator_flags opts)))"

section \<open>main\<close>

definition scopc ::
  "('t, 'v, 'p, 'm) env \<Rightarrow> 'm toolchain \<Rightarrow> options \<Rightarrow> nat \<Rightarrow> run outcome" where
  "scopc C T opts n =
     (if version_flag opts then Value (0, [Message (banner T)])
      else case input_path opts of
        None \<Rightarrow>
          Value (1, [Message (error_prefix T @ '': no input file specified.'' @ [newline] @ usage T)])
      | Some path \<Rightarrow>
          let inpath = absolute C path None in
          case read_file C inpath of
            None \<Rightarrow>
              Value (0, [Message (error_prefix T @ '': failed to open \"'' @ show_path T inpath @ ''\"''
                @ [newline])])
          | Some code \<Rightarrow>
              case parse (x3_engine C) (x3_lib C) new_holder code no_error (Some inpath) of
                None \<Rightarrow> Diverge
              | Some (Escaped x, err, h) \<Rightarrow> Crash
              | Some (NoTree, err, h) \<Rightarrow> Value (report T err)
              | Some (Tree ast, err, h) \<Rightarrow>
                  if out_type opts = OutAST then
                    Value (0, [WriteFile (out_path opts) (print_expr (show_double T) ast @ [newline])])
                  else run_compiler C T opts n inpath ast err)"

section \<open>The command line\<close>

text \<open>
  What the library \<open>args\<close> finds on a command line: the flags that were given, a choice of \<open>-t\<close> by
  its name, and numbers as numbers. It throws when help is asked for, when the line does not parse,
  and when a value is not allowed.
\<close>

record settings =
  given_type :: "string option"
  given_output :: "string option"
  given_arch :: "string option"
  given_flags :: "string list option"
  given_entry :: "string option"
  given_level :: "int option"
  given_version :: bool
  given_input :: "string option"

datatype cli_result = Help | ParseError string | ValidationError string | Parsed settings

definition type_choices :: "(string \<times> OutputType) list" where
  "type_choices = [(''ir'', OutIR), (''ast'', OutAST), (''asm'', OutAssembly), (''obj'', OutObject)]"

text \<open>The value of an option that was not given is its default.\<close>

definition get_or :: "'a \<Rightarrow> 'a option \<Rightarrow> 'a" where
  "get_or d given = (case given of Some v \<Rightarrow> v | None \<Rightarrow> d)"

definition options_of :: "settings \<Rightarrow> options" where
  "options_of st =
     \<lparr>version_flag = given_version st, input_path = given_input st,
      output_path = get_or ''./a.out'' (given_output st),
      out_type = get_or OutObject (Option.bind (given_type st) (map_of type_choices)),
      arch = get_or ''native'' (given_arch st), translator_flags = get_or [] (given_flags st),
      entry_func = get_or ''main'' (given_entry st), optimize_level = get_or 3 (given_level st)\<rparr>"

definition cli_error :: "'m toolchain \<Rightarrow> string \<Rightarrow> run" where
  "cli_error T msg = (1, [Message (error_prefix T @ '': '' @ msg @ [newline]), Message (usage T)])"

definition scopc_main ::
  "('t, 'v, 'p, 'm) env \<Rightarrow> 'm toolchain \<Rightarrow> (string list \<Rightarrow> cli_result) \<Rightarrow> nat \<Rightarrow> string list \<Rightarrow> run outcome" where
  "scopc_main C T parse_cli n argv =
     (case parse_cli argv of
        Help \<Rightarrow> Value (0, [Output (usage T)])
      | ParseError msg \<Rightarrow> Value (cli_error T msg)
      | ValidationError msg \<Rightarrow> Value (cli_error T msg)
      | Parsed st \<Rightarrow> scopc C T (options_of st) n)"

section \<open>How a run ends\<close>

abbreviation writes_nothing :: "event list \<Rightarrow> bool" where
  "writes_nothing evs \<equiv> (\<nexists>p t. WriteFile p t \<in> set evs)"

lemma back_end_writes: "fst (back_end T opts libs m) = 0 \<Longrightarrow> \<not> writes_nothing (snd (back_end T opts libs m))"
  by (auto simp: back_end_def report_def emit_files_def Let_def split: option.splits if_splits)

lemma compile_cases:
  assumes "compile C T opts n ast err s = (Value r, s')"
  obtains e where "r = report T e" | libs m where "r = back_end T opts libs m"
  using assms
  by (auto simp: compile_def then_do_def andThen_Value ret_def gets_def split: option.splits)

lemma run_compiler_cases:
  assumes "run_compiler C T opts n inpath ast err = Value r"
  obtains e where "r = report T e" | libs m where "r = back_end T opts libs m"
  using assms unfolding run_compiler_def by (metis compile_cases prod.collapse)

lemma run_compiler_success:
  assumes "run_compiler C T opts n p ast err = Value (0, evs)"
  shows "\<not> writes_nothing evs"
proof (rule run_compiler_cases [OF assms])
  fix libs m
  assume "(0, evs) = back_end T opts libs m"
  from this [symmetric] back_end_writes [of T opts libs m] show ?thesis by simp
qed (simp add: report_def)


text \<open>
  C24. With \<open>-t ast\<close> and an input that can be read, a run always ends: either it writes the printed
  tree that \<open>parse\<close> returns for the text of the file and exits with 0, or it prints a parse error
  and exits with -1.
\<close>

theorem scopc_ast:
  assumes "x3_conforms (x3_engine C)" and "lib_ok (x3_lib C)" and "\<not> version_flag opts"
    and "input_path opts = Some path" and "read_file C (absolute C path None) = Some code"
    and "out_type opts = OutAST"
  shows "(\<exists>e err. parse (x3_engine C) (x3_lib C) new_holder code no_error (Some (absolute C path None)) =
        Some (Tree e, err, new_holder) \<and>
      scopc C T opts n = Value (0, [WriteFile (out_path opts) (print_expr (show_double T) e @ [newline])])) \<or>
    (\<exists>err. has_error err \<and> err_type err = Parse \<and> scopc C T opts n = Value (report T err))"
  by (cases rule: parse_cases [OF assms(1,2), of new_holder code no_error "Some (absolute C path None)"])
    (auto simp: scopc_def Let_def assms(3-6))

lemma createMain_ends: "\<exists>s'. createMain C s = (Value (), s')"
  by (simp add: createMain_def Let_def andThen_def creates_def set_insert_point_def modifies_def)

text \<open>
  C21. An error that the translator throws is the error the user sees: the run prints that error,
  writes no file and exits with -1.
\<close>

theorem scopc_translation_error:
  assumes "\<not> version_flag opts" and "input_path opts = Some path"
    and "read_file C (absolute C path None) = Some code" and "out_type opts \<noteq> OutAST"
    and "parse (x3_engine C) (x3_lib C) new_holder code no_error (Some (absolute C path None)) =
      Some (Tree ast, no_error, h)"
    and "createMain (C\<lparr>entry_function_name := entry_func opts\<rparr>)
      (new_translator (new_module T (absolute C path None)) (no_point (lib C)) [] (translator_flags opts)) = ((Value ()), s)"
    and "translate (C\<lparr>entry_function_name := entry_func opts\<rparr>) n ast s = (Throw e, s')"
  shows "scopc C T opts n = Value (-1, [Message (print_error (styles T) e @ [newline])])"
  using assms
  by (simp add: scopc_def Let_def run_compiler_def compile_def then_do_def andThen_def translateAST_def
      catch_error_def ret_def report_def)

section \<open>The optimisation level\<close>

lemma level_cut:
  assumes "l mod 256 = optimize_level opts mod 256"
  shows "scopc C T (opts\<lparr>optimize_level := l\<rparr>) n = scopc C T opts n"
proof -
  let ?opts = "opts\<lparr>optimize_level := l\<rparr>"
  have "(word_of_int l :: 8 word) = word_of_int (optimize_level opts)"
    using assms by (simp add: word_of_int_eq_iff take_bit_eq_mod)
  then have "optimized T ?opts = optimized T opts" by (simp add: optimized_def fun_eq_iff)
  moreover have "emit_files T ?opts = emit_files T opts"
    by (simp add: emit_files_def out_path_def Let_def fun_eq_iff)
  ultimately have "back_end T ?opts libs m = back_end T opts libs m" for libs m
    by (simp add: back_end_def split: option.split)
  then have "run_compiler C T ?opts n p e err = run_compiler C T opts n p e err" for p e err
    by (simp add: run_compiler_def compile_def cong: option.case_cong)
  then show ?thesis
    by (auto simp: scopc_def out_path_def Let_def split: option.split parse_result.split)
qed

text \<open>
  C35. The optimisation level counts modulo 256: two command lines that differ only in levels with the
  same rest give the same run, so that \<open>-O 256\<close> turns the optimisation off as \<open>-O 0\<close> does.
\<close>

theorem optimize_level_cut:
  assumes "given_level st = Some l" and "l mod 256 = l' mod 256"
  shows "scopc_main C T (\<lambda>_. Parsed st) n argv =
    scopc_main C T (\<lambda>_. Parsed (st\<lparr>given_level := Some l'\<rparr>)) n argv"
proof -
  have "options_of (st\<lparr>given_level := Some l'\<rparr>) = (options_of st)\<lparr>optimize_level := l'\<rparr>"
    by (simp add: options_of_def get_or_def)
  with level_cut [of l' "options_of st" C T n] assms show ?thesis
    by (simp add: scopc_main_def options_of_def get_or_def)
qed

end
