(* ===== verification/Top_Level.thy ===== *)
theory Top_Level
  imports Int_Programs Scopc
begin

text \<open>
  The composition of the parser, the translator and the compiler program on files whose content is not
  a function: what the user sees.
\<close>

text \<open>
  What LLVM says of the functions of a module: instructions and basic blocks do not change them, a
  function that is created under a new name is found under it, and an integer is no function.
\<close>

definition fun_llvm :: "('t, 'v, 'p, 'm) llvm \<Rightarrow> bool" where
  "fun_llvm L \<longleftrightarrow>
     (\<forall>i p m. get_function L (snd (build L i p m)) = get_function L m) \<and>
     (\<forall>n f m. get_function L (snd (create_block L n f m)) = get_function L m) \<and>
     (\<forall>t n m. get_function L m n = None \<longrightarrow>
        get_function L (snd (create_function L t n True m)) n = Some (fst (create_function L t n True m))) \<and>
     (\<forall>w. ty_of L w = int_ty L 32 \<longrightarrow> \<not> is_function L w)"

lemma createMain_function:
  assumes "fun_llvm (lib C)" and "get_function (lib C) (ir s) (entry_function_name C) = None"
  shows "\<exists>s' f. createMain C s = (Value (), s') \<and> get_function (lib C) (ir s') (entry_function_name C) = Some f"
  using assms
  by (simp add: createMain_def Let_def andThen_def creates_def set_insert_point_def modifies_def fun_llvm_def)

lemma builds_functions:
  "fun_llvm L \<Longrightarrow> (m, m') \<in> builds L \<Longrightarrow> get_function L m' = get_function L m"
  by (erule builds_keep [where Q = "\<lambda>m'. get_function L m' = get_function L m"]) (simp_all add: fun_llvm_def)

lemma createMainRet_no_function:
  assumes "get_function (lib C) (ir s) (entry_function_name C) = Some f"
    and "heap s ! v = mk_value (lib C) (Some w) e b" and "v < length (heap s)" and "\<not> is_function (lib C) w"
  shows "createMainRet C n v err s =
    (Value (mk_error ''Top-level value must be function'' (where_at (attr e)) Translate, None), s)"
  using assms
  by (simp add: createMainRet_def Let_def andThen_def reads_def gets_def the_or_crash_def ret_def deref_def
      need_llvm_at mk_value_def)

text \<open>
  C22. A file whose content is not a function is refused. If the file parses to an integer expression,
  the run ends with the error that a function is required at the top level, at the place of the
  expression, and exits with -1 without writing a file; the expression itself is translated without
  an error first.
\<close>

theorem scopc_requires_function:
  assumes "int_llvm (lib C) D" and "fun_llvm (lib C)"
    and "get_function (lib C) (new_module T (absolute C path None)) (entry_func opts) = None"
    and "\<not> version_flag opts" and "input_path opts = Some path"
    and "read_file C (absolute C path None) = Some code" and "out_type opts \<noteq> OutAST"
    and "parse (x3_engine C) (x3_lib C) new_holder code no_error (Some (absolute C path None)) =
      Some (Tree ast, no_error, h)"
    and "eval_int ast = Some k" and "depth ast \<le> n"
  shows "scopc C T opts n = Value (-1, [Message (print_error (styles T)
    (mk_error ''Top-level value must be function'' (where_at (attr ast)) Translate) @ [newline])])"
proof -
  let ?C = "C\<lparr>entry_function_name := entry_func opts\<rparr>"
  let ?start = "new_translator (new_module T (absolute C path None)) (no_point (lib C)) [] (translator_flags opts)"
  have "get_function (lib ?C) (ir ?start) (entry_function_name ?C) = None"
    using assms(3) by (simp add: new_translator_def)
  from createMain_function [of ?C ?start] this assms(2) obtain s f where s: "createMain ?C ?start = (Value (), s)"
    and f: "get_function (lib C) (ir s) (entry_func opts) = Some f" by auto
  from translate_int [of ?C D ast k n s] assms(1,9,10) obtain m objs w where
    run: "translate ?C n ast s = (Value (Some (length (heap s) + length objs)),
      s\<lparr>ir := m, heap := heap s @ objs @ [mk_value (lib C) (Some w) ast False]\<rparr>)" (is "_ = (Value (Some ?v), ?s')")
    and w: "(ir s, m) \<in> builds (lib C)" "ty_of (lib C) w = int_ty (lib C) 32"
    by (auto simp: yields_def)
  have "createMainRet ?C n ?v no_error ?s' =
      (Value (mk_error ''Top-level value must be function'' (where_at (attr ast)) Translate, None), ?s')"
  proof (rule createMainRet_no_function)
    show "get_function (lib ?C) (ir ?s') (entry_function_name ?C) = Some f"
      using builds_functions [OF assms(2) w(1)] f by simp
    show "\<not> is_function (lib ?C) w" using assms(2) w(2) by (simp add: fun_llvm_def)
  qed (simp_all add: nth_append)
  with s run show ?thesis
    using assms(4-8)
    by (simp add: scopc_def Let_def run_compiler_def compile_def then_do_def andThen_def translateAST_def
        catch_error_def ret_def report_def)
qed

end
