(* ===== verification/Source_Compiled.thy ===== *)
theory Source_Compiled
  imports Source_Parsed Int_Variables
begin

text \<open>
  From the text of a program to its code: the parser and the translator together, on integer
  expressions and blocks of assignments. The reference is the number, or the store, that the tree has;
  the tree that the parser makes has other places, which occur in errors only.
\<close>

section \<open>The reference semantics does not depend on places\<close>

lemma eval_int_canon: "eval_int (canon e) = eval_int e"
  by (induction e rule: eval_int.induct) (auto simp: canon_attr_def)

lemma depth_canon: "depth (canon e) = depth e"
  by (induction e rule: depth.induct) auto

definition unplaced :: "error + 'a \<Rightarrow> error + 'a" where
  "unplaced = map_sum (\<lambda>err. err\<lparr>location := LocEmpty\<rparr>) id"

lemma unplaced_simps [simp]:
  "unplaced (Inl err) = Inl (err\<lparr>location := LocEmpty\<rparr>)" "unplaced (Inr r) = Inr r"
  by (simp_all add: unplaced_def)

lemma unplaced_errors [simp]:
  "(undeclared x wh)\<lparr>location := LocEmpty\<rparr> = undeclared x LocEmpty" "(read_only wh)\<lparr>location := LocEmpty\<rparr> = read_only LocEmpty"
  by (simp_all add: undeclared_def read_only_def translate_error_def mk_error_def)

lemma unplaced_Inr: "unplaced q = Inr r \<longleftrightarrow> q = Inr r"
  by (cases q) simp_all

lemma unplaced_Inl: "unplaced q = Inl err \<longleftrightarrow> (\<exists>e. q = Inl e \<and> err = e\<lparr>location := LocEmpty\<rparr>)"
  by (cases q) auto

lemma unplaced_both: "unplaced (both f q r) = both f (unplaced q) (unplaced r)"
  by (cases q; cases r) (simp_all add: both_def)

abbreviation same_result :: "(error + 'a) option \<Rightarrow> (error + 'a) option \<Rightarrow> bool" where
  "same_result p q \<equiv> map_option unplaced p = map_option unplaced q"

lemma same_result_cases:
  assumes "same_result p q"
  obtains "p = None" "q = None"
    | err err' where "p = Some (Inl err)" "q = Some (Inl err')" "err\<lparr>location := LocEmpty\<rparr> = err'\<lparr>location := LocEmpty\<rparr>"
    | r where "p = Some (Inr r)" "q = Some (Inr r)"
  using assms by (cases p; cases q; cases "the p"; cases "the q") auto

lemma eval_in_canon: "same_result (eval_in S (canon e)) (eval_in S e)"
proof (induction e)
  case (BinaryOp op a x y)
  from BinaryOp.IH show ?case
    by (cases "int_op op")
      (auto elim!: same_result_cases simp: unplaced_both [simplified] both_def split: option.splits sum.splits)
qed (auto simp: canon_attr_def split: option.splits)

lemma const_in_canon: "const_in S (canon e) = const_in S e"
  by (cases e) auto

lemma canon_variable: "canon e = Variable b x \<Longrightarrow> \<exists>a. e = Variable a x"
  by (cases e) auto

lemma canon_assign: "canon e = BinaryOp Assign a (Variable b x) y \<Longrightarrow> \<exists>a b y. e = BinaryOp Assign a (Variable b x) y"
  by (cases e) (auto dest: canon_variable)

lemma exec_line_canon: "same_result (exec_line S (canon e)) (exec_line S e)"
proof (cases "\<exists>a b x e'. e = BinaryOp Assign a (Variable b x) e'")
  case True
  then obtain a b x e' where e: "e = BinaryOp Assign a (Variable b x) e'" by blast
  have "lval (canon_attr b) = lval b" "attributes (canon_attr b) = attributes b" by (simp_all add: canon_attr_def)
  with eval_in_canon [of S e'] show ?thesis
    unfolding e
    by (auto elim!: same_result_cases simp: const_in_canon new_attribute_def split: option.splits bool.splits)
next
  case False
  then have "\<nexists>a b x e'. canon e = BinaryOp Assign a (Variable b x) e'"
    by (auto dest: canon_assign)
  with False exec_line_other [of e S] exec_line_other [of "canon e" S] eval_in_canon [of S e] show ?thesis
    by (auto elim!: same_result_cases)
qed

lemma exec_lines_canon: "same_result (exec_lines S k (map canon es)) (exec_lines S k es)"
proof (induction es arbitrary: S k)
  case (Cons e es)
  from exec_line_canon [of S e] show ?case
    by (elim same_result_cases) (auto simp: Cons.IH split: prod.splits)
qed simp

lemma depth_setter [simp]: "depth (setter_visitor f e) = depth e"
  by (cases e) simp_all

lemma depth_marked: "depth (marked e) = depth e"
  by (induction e rule: depth.induct) (auto simp: set_lval_def set_to_call_def)

lemma eval_int_marked: "eval_int e = Some k \<Longrightarrow> eval_int (marked e) = Some k"
proof (induction e arbitrary: k rule: eval_int.induct)
  case (2 op a x y)
  then have "op \<noteq> Assign" "op \<noteq> Call" by auto
  with 2 show ?case by (auto split: option.splits)
qed auto

section \<open>Expressions\<close>

text \<open>
  C6. The text of an integer expression is compiled to its number. For an expression of integer
  constants and the operators for addition, subtraction, multiplication and on bits, the parser and the
  translator run on its text without an error, and the value that is built is the number of the
  expression: the grammar's precedence and grouping, the reading of its constants and the instructions
  together give 32-bit arithmetic with wrap-around.
\<close>

theorem source_compiled:
  assumes "x3_conforms E" and "number_lib L" and "int_llvm (lib C) D"
    and "readable e" and "eval_int e = Some k" and "depth e \<le> n"
  shows "\<exists>t m objs w. parse E L holder (source e) err path = Some (Tree t, err, holder) \<and>
    translate C n t s = (Value (Some (length (heap s) + length objs)),
      s\<lparr>ir := m, heap := heap s @ objs @ [mk_value (lib C) (Some w) t False]\<rparr>) \<and>
    (ir s, m) \<in> builds (lib C) \<and> ty_of (lib C) w = int_ty (lib C) 32 \<and> D w = k"
proof -
  from parse_source [OF assms(1,2,4)] obtain t where t: "parse E L holder (source e) err path = Some (Tree t, err, holder)"
    and "canon t = canon (marked e)" .
  then have "eval_int t = Some k" "depth t \<le> n"
    using eval_int_canon [of t] eval_int_canon [of "marked e"] eval_int_marked [OF assms(5)]
      depth_canon [of t] depth_canon [of "marked e"] depth_marked [of e] assms(6) by simp_all
  from translate_int [OF assms(3) this] t show ?thesis unfolding yields_def by blast
qed

section \<open>Blocks\<close>

text \<open>
  C3. The text of a block is compiled to code that has the store of the block. The parser reads the
  text of a scope to lines on which the translator does what the reference semantics does with the
  lines of the scope: for a scope where that has an error, a name that is not declared or a constant
  that is assigned again, it throws an error with the same message; otherwise it ends without an
  error, the current scope stands for the new store, with the places holding its numbers, and the value
  of the block is the number of its last line.
\<close>

theorem source_block_compiled:
  assumes "x3_conforms E" and "number_lib L"
    and "int_llvm (lib C) D" and "place_llvm (lib C)" and "mem_llvm (lib C) D M" and "represents (lib C) M s S"
    and "readable (Scope a es)" and "exec_lines S None (map marked es) = Some q" and "\<forall>e \<in> set es. depth e \<le> n"
  shows "\<exists>b ts. parse E L holder (source (Scope a es)) err path = Some (Tree (Scope b ts), err, holder) \<and>
    (case q of
       Inl x \<Rightarrow> \<exists>x' s'. apply_bb (lib C) (translate C n) ts s = (Throw x', s') \<and> message x' = message x
     | Inr (S', k) \<Rightarrow> \<exists>open v s'. apply_bb (lib C) (translate C n) ts s = (Value (open, v), s') \<and>
         represents (lib C) M s' S' \<and> stands_for (lib C) D s' v k)"
proof -
  from parse_source [OF assms(1,2,7)] obtain t where t: "parse E L holder (source (Scope a es)) err path = Some (Tree t, err, holder)"
    and c: "canon t = canon (marked (Scope a es))" .
  from c obtain b ts where ts: "t = Scope b ts" "map canon ts = map canon (map marked es)"
    by (cases t) auto
  from ts(2) exec_lines_canon [of S None ts] exec_lines_canon [of S None "map marked es"]
  have "same_result (exec_lines S None ts) (exec_lines S None (map marked es))" by simp
  with assms(8) obtain r where r: "exec_lines S None ts = Some r" "unplaced r = unplaced q" by auto
  have "\<forall>e \<in> set ts. depth e \<le> n"
  proof
    fix e
    assume "e \<in> set ts"
    then have "canon e \<in> canon ` marked ` set es" using ts(2) by (metis image_eqI image_set)
    with assms(9) show "depth e \<le> n" by (metis depth_canon depth_marked imageE)
  qed
  note block = integer_block_correct [OF assms(3-6) r(1) this]
  show ?thesis
  proof (cases q)
    case (Inl x)
    with r(2) obtain x' where x: "r = Inl x'" "x'\<lparr>location := LocEmpty\<rparr> = x\<lparr>location := LocEmpty\<rparr>" by (cases r) auto
    from arg_cong [OF x(2), of message] have "message x' = message x" by simp
    with block t ts(1) x(1) Inl show ?thesis by auto
  next
    case (Inr p)
    with r(2) have "r = q" by (cases r) auto
    with block t ts(1) Inr show ?thesis by (cases p) simp
  qed
qed

end
