(* ===== verification/Llvm_Demo.thy ===== *)
theory Llvm_Demo
  imports Value_Copy Operand_Rules Int_Variables Link_Requests Function_Scope Array_Bounds Imports Top_Level
    Source_Compiled
begin

text \<open>
  A small LLVM in the sense of the record \<open>llvm\<close>, with an environment and a parser library of its
  own: the concrete programs on which the theorems about the translator are applied run on it. An
  integer value carries its number, so that the instructions on integers compute; a module is its
  functions, the instructions built so far, and the memory cells after them.
\<close>

datatype dty =
    DVoid | DInt nat | DDouble | DLabel | DPtr dty | DStruct nat | DArr dty nat
  | DFun dty "dty list" bool

datatype dval = DVal dty int32 | DFunction dty string | DBlock nat | DPlace dty nat

record dmod =
  dfuns :: "(string \<times> dval) list"
  structs :: "dty list list"
  built :: "(dty, dval) instr list"
  blocks :: nat
  cells :: "int32 list"

fun dkind :: "dty \<Rightarrow> type_kind" where
  "dkind DVoid = VoidTy"
| "dkind (DInt n) = IntegerTy"
| "dkind DDouble = DoubleTy"
| "dkind DLabel = LabelTy"
| "dkind (DPtr t) = PointerTy"
| "dkind (DStruct n) = StructTy"
| "dkind (DArr t n) = ArrayTy"
| "dkind (DFun t ts v) = FunctionTy"

fun dpointee :: "dty \<Rightarrow> dty" where
  "dpointee (DPtr t) = t"
| "dpointee t = t"

fun dfun_params :: "dty \<Rightarrow> dty list" where
  "dfun_params (DFun t ts v) = ts"
| "dfun_params t = []"

fun dfun_result :: "dty \<Rightarrow> dty" where
  "dfun_result (DPtr (DFun t ts v)) = t"
| "dfun_result t = t"

fun dty_of :: "dval \<Rightarrow> dty" where
  "dty_of (DVal t n) = t"
| "dty_of (DFunction t s) = DPtr t"
| "dty_of (DBlock n) = DLabel"
| "dty_of (DPlace t n) = DPtr t"

fun dnum :: "dval \<Rightarrow> int32" where
  "dnum (DVal t n) = n"
| "dnum v = 0"

fun dbin :: "bin_instr \<Rightarrow> int32 \<Rightarrow> int32 \<Rightarrow> int32" where
  "dbin CreateAdd x y = x + y"
| "dbin CreateSub x y = x - y"
| "dbin CreateMul x y = x * y"
| "dbin CreateAnd x y = and x y"
| "dbin CreateOr x y = or x y"
| "dbin CreateXor x y = xor x y"
| "dbin b x y = 0"

definition is_comparison :: "bin_instr \<Rightarrow> bool" where
  "is_comparison b \<longleftrightarrow>
     b \<in> {CreateICmpEQ, CreateICmpNE, CreateICmpSGT, CreateICmpSLT, CreateICmpSGE, CreateICmpSLE}"

text \<open>The cell of a place for an integer, its number, and what an instruction does to the cells.\<close>

fun dcell :: "'a dmod_scheme \<Rightarrow> dval \<Rightarrow> int32 option" where
  "dcell m (DPlace t n) = (if t = DInt 32 \<and> n < length (cells m) then Some (cells m ! n) else None)"
| "dcell m v = None"

fun dcells :: "(dty, dval) instr \<Rightarrow> 'a dmod_scheme \<Rightarrow> int32 list" where
  "dcells (CreateAlloca t s) m = cells m @ [0]"
| "dcells (CreateStore v (DPlace t n)) m = (cells m)[n := dnum v]"
| "dcells i m = cells m"

fun dresult :: "(dty, dval) instr \<Rightarrow> 'a dmod_scheme \<Rightarrow> dval" where
  "dresult (CreateBin b x y) m =
     DVal (if is_comparison b then DInt 1 else dty_of x) (dbin b (dnum x) (dnum y))"
| "dresult (CreateLoad v) m =
     DVal (dpointee (dty_of v)) (case dcell m v of Some k \<Rightarrow> k | None \<Rightarrow> 0)"
| "dresult (CreateAlloca t s) m = DPlace t (length (cells m))"
| "dresult (CreateGEP t v is) m = DPlace t (length (built m))"
| "dresult (CreateInBoundsGEP t v is) m =
     DPlace (case t of DArr u k \<Rightarrow> u | _ \<Rightarrow> t) (length (built m))"
| "dresult (CreateStructGEP t v i) m = DPlace (DInt 32) (length (built m))"
| "dresult (CreateCall f args) m = DVal (dfun_result (dty_of f)) 0"
| "dresult (CreatePtrToInt v t) m = DVal t 0"
| "dresult (CreatePointerCast v t s) m = DVal t 0"
| "dresult (CreateSIToFP v t) m = DVal t 0"
| "dresult (CreateFPToSI v t) m = DVal t 0"
| "dresult (CreateGlobalStringPtr s) m = DVal (DPtr (DInt 8)) 0"
| "dresult i m = DVal DVoid 0"

definition small_llvm :: "(dty, dval, nat, 'a dmod_scheme) llvm" where
  "small_llvm =
     \<lparr>kind = dkind, void_ty = DVoid, int_ty = DInt, double_ty = DDouble, ptr_to = DPtr,
      pointee = dpointee, array_ty = DArr, fun_ty = DFun, fun_params = dfun_params,
      fun_vararg = (\<lambda>t. case t of DFun _ _ v \<Rightarrow> v | _ \<Rightarrow> False),
      indexed_type = (\<lambda>t v. True), print_type = (\<lambda>m t. ''type''),
      parse_type = (\<lambda>m s. if s = ''i32'' then Some (DInt 32) else None),
      new_struct = (\<lambda>m. (DStruct (length (structs m)), m\<lparr>structs := structs m @ [[]]\<rparr>)),
      set_body = (\<lambda>t ts m. case t of DStruct n \<Rightarrow> m\<lparr>structs := (structs m)[n := ts]\<rparr> | _ \<Rightarrow> m),
      set_struct_name = (\<lambda>t s m. m),
      identified_structs = (\<lambda>m. map DStruct [0..<length (structs m)]),
      layout_identical = (\<lambda>m t u. case (t, u) of (DStruct i, DStruct j) \<Rightarrow> structs m ! i = structs m ! j
        | _ \<Rightarrow> False),
      ty_of = dty_of, is_function = (\<lambda>v. case v of DFunction _ _ \<Rightarrow> True | _ \<Rightarrow> False),
      const_value = (\<lambda>v. case v of DVal (DInt k) n \<Rightarrow> Some (unat n) | _ \<Rightarrow> None),
      signed_const = (\<lambda>t i. DVal t (word_of_int i)), int_const = (\<lambda>t n. DVal t (word_of_nat n)),
      fp_const = (\<lambda>t d. DVal t 0), null_value = (\<lambda>t. DVal t 0),
      value_name = (\<lambda>m v. case v of DFunction _ s \<Rightarrow> s | _ \<Rightarrow> []),
      get_function = (\<lambda>m s. map_of (dfuns m) s),
      create_function = (\<lambda>t s b m. (DFunction t s,
        if b then m\<lparr>dfuns := dfuns m @ [(s, DFunction t s)]\<rparr> else m)),
      insert_function = (\<lambda>s t m. if map_of (dfuns m) s = None
        then m\<lparr>dfuns := dfuns m @ [(s, DFunction t s)]\<rparr> else m),
      intrinsic_decl = (\<lambda>i ts m. (DFunction (DFun (hd ts) ts False) ''llvm'', m)),
      fun_args = (\<lambda>m f. map (\<lambda>t. DVal t 0) (dfun_params (dpointee (dty_of f)))),
      fun_blocks = (\<lambda>m f. []), entry_block = (\<lambda>m f. DBlock 0),
      create_block = (\<lambda>s f m. (DBlock (blocks m), m\<lparr>blocks := Suc (blocks m)\<rparr>)),
      block_parent = (\<lambda>m b. DFunction (DFun DVoid [] False) ''main''),
      block_insts = (\<lambda>m b. []), erase = (\<lambda>v m. m),
      no_point = 0, at_end = (\<lambda>v. case v of DBlock n \<Rightarrow> n | _ \<Rightarrow> 0), insert_block = DBlock,
      build = (\<lambda>i p m. (dresult i m, m\<lparr>built := built m @ [i], cells := dcells i m\<rparr>)),
      parse_ir_file = (\<lambda>s m. None)\<rparr>"

abbreviation demo_llvm :: "(dty, dval, nat, dmod) llvm" where
  "demo_llvm \<equiv> small_llvm"

definition demo_env :: "(dty, dval, nat, dmod) env" where
  "demo_env =
     \<lparr>lib = demo_llvm, entry_function_name = ''main'', absolute = (\<lambda>p b. p),
      read_file = (\<lambda>p. None), h2ir_path = (\<lambda>p. p), run_h2ir = (\<lambda>p m. m),
      x3_engine = (\<lambda>X sk g i v. None), x3_lib = demo_lib\<rparr>"

definition demo_state :: "(dty, dval, nat, dmod) tstate" where
  "demo_state =
     new_translator \<lparr>dfuns = [(''main'', DFunction (DFun (DInt 32) [DInt 32] False) ''main'')],
       structs = [], built = [], blocks = 1, cells = []\<rparr> 0 [] []"

section \<open>Programs\<close>

text \<open>\<open>40 + 2\<close>\<close>

definition demo_sum :: expr where
  "demo_sum = BinaryOp Add new_attribute (Integer new_attribute 40) (Integer new_attribute 2)"

lemma demo_sum_runs: "fst (translate demo_env 3 demo_sum demo_state) = Value (Some 3)"
  by code_simp


text \<open>A run of the sum, with the state after it.\<close>

lemma demo_sum_run:
  "translate demo_env 3 demo_sum demo_state = (Value (Some 3), snd (translate demo_env 3 demo_sum demo_state))"
  using demo_sum_runs by (metis prod.collapse)

theorem translate_keeps_state_witness:
  "this_scope (snd (translate demo_env 3 demo_sum demo_state)) = this_scope demo_state"
  using translate_keeps_state [OF demo_sum_run] by blast

lemma demo_state_typed: "typed_heap (lib demo_env) demo_state"
  by (simp add: typed_heap_def demo_state_def new_translator_def well_typed_def void_value_def)

lemma demo_sum_objects: "length (heap (snd (translate demo_env 3 demo_sum demo_state))) = 4"
  by code_simp

theorem translate_types_witness:
  "fst (getType (lib demo_env) 3 (snd (translate demo_env 3 demo_sum demo_state))) =
     Value (vtype (heap (snd (translate demo_env 3 demo_sum demo_state)) ! 3))"
  using translate_types [OF demo_state_typed demo_sum_run, of 3] by (simp add: demo_sum_objects)

section \<open>The hypotheses of the theorems hold here\<close>

lemma demo_int_llvm: "int_llvm (lib demo_env) dnum"
proof -
  have "dnum (DVal t (dbin b x y)) = f x y \<and> \<not> is_comparison b" if "int_instr b = Some f" for t b x y f
    using that by (cases b) (auto simp: is_comparison_def)
  then show ?thesis by (auto simp: int_llvm_def demo_env_def small_llvm_def)
qed

theorem translate_int_correct_witness:
  "\<exists>w a. fst (translate demo_env 5 demo_sum demo_state) = Value (Some a) \<and>
     dty_of w = DInt 32 \<and> dnum w = 42"
  using translate_int_correct [OF demo_int_llvm, of demo_sum 42 5 demo_state]
  by (auto simp: demo_sum_def new_attribute_def demo_env_def small_llvm_def)

text \<open>A structure with one member.\<close>

definition demo_heap :: "(dty, dval) vobj list" where
  "demo_heap =
     [(mk_value demo_llvm (Some (DPlace (DStruct 0) 0)) default_expr False)\<lparr>symbols := [(''m'', 1)]\<rparr>,
      mk_value demo_llvm (Some (DVal (DInt 32) 7)) default_expr False]"

abbreviation demo_objects :: "(dty, dval, nat, dmod) tstate" where
  "demo_objects \<equiv> demo_state\<lparr>heap := demo_heap\<rparr>"

lemma demo_tree: "\<exists>T. tree_of demo_llvm 2 (heap demo_objects) 0 = Some T \<and> height T = 2"
  by (simp add: demo_heap_def numeral_2_eq_2 sound_obj_def well_typed_def mk_value_def void_value_def)



lemma demo_place_llvm: "place_llvm (lib demo_env)"
  by (simp add: place_llvm_def demo_env_def small_llvm_def)

lemma demo_one_llvm: "one_llvm (lib demo_env) dnum"
  by (simp add: one_llvm_def demo_env_def small_llvm_def)

theorem inot_flips_lowest_bit_witness: "\<exists>w. dnum w = 7 \<and> dnum w \<noteq> not 6"
  using inot_flips_lowest_bit [OF demo_int_llvm demo_one_llvm, of "Integer new_attribute 6" 6 1]
  by (auto simp: new_attribute_def)

lemma demo_block_llvm: "block_llvm (lib demo_env)"
  by (simp add: block_llvm_def demo_env_def small_llvm_def)

lemma demo_scope: "this_scope demo_state < length (heap demo_state)" "scope_symbols demo_state = []"
  by (simp_all add: demo_state_def new_translator_def void_value_def)

text \<open>\<open>x = 1; x = 2\<close>, without \<open>mut\<close>.\<close>

definition demo_target :: attribute where
  "demo_target = new_attribute\<lparr>lval := True\<rparr>"

theorem assigned_once_witness:
  "\<exists>s' s''. translate demo_env 2 (BinaryOp Assign new_attribute (Variable demo_target ''x'') (Integer new_attribute 2)) s' =
     (Throw (translate_error ''Assignment of read-only variable'' LocEmpty), s'')"
  using assigned_once [OF demo_int_llvm demo_place_llvm, of "''x''" demo_target demo_target demo_state
      "Integer new_attribute 1" 1 1 "Integer new_attribute 2" 2 new_attribute new_attribute] demo_scope
  by (auto simp: demo_target_def new_attribute_def numeral_2_eq_2)

theorem constants_not_assignable_witness:
  "translate demo_env 2 (BinaryOp Assign new_attribute (Integer demo_target 1) (Integer new_attribute 2)) demo_state =
     (Throw (translate_error ''An integer constant is not to be assigned'' LocEmpty), demo_state)"
  using constants_not_assignable [of "Integer demo_target 1" "''An integer constant is not to be assigned''" 2 demo_env]
  by (simp add: misuse_def demo_target_def new_attribute_def)

theorem empty_scope_call_null_witness:
  "\<exists>s'. translateAST demo_env 2 (BinaryOp Call new_attribute (Scope new_attribute []) (ArgList new_attribute []))
     no_error demo_state = (Value (no_error, None), s')"
  using empty_scope_call_null [OF demo_block_llvm _ demo_scope(1), of new_attribute 2 new_attribute new_attribute no_error]
  by (simp add: new_attribute_def)

text \<open>\<open>y = 7; x#mut = 1; x = x + y; x = y; x = 3\<close>, without and with the last line.\<close>

lemma dcell_same: "dcell (m\<lparr>built := is\<rparr>) = dcell m"
proof
  show "dcell (m\<lparr>built := is\<rparr>) v = dcell m v" for v by (cases v) auto
qed

lemma dcell_alloca:
  "dcell (m\<lparr>built := is, cells := cells m @ [0]\<rparr>) = (dcell m)(DPlace (DInt 32) (length (cells m)) \<mapsto> 0)"
proof
  show "dcell (m\<lparr>built := is, cells := cells m @ [0]\<rparr>) v =
      ((dcell m)(DPlace (DInt 32) (length (cells m)) \<mapsto> 0)) v" for v
    by (cases v) (auto simp: nth_append)
qed

lemma dcell_store:
  assumes "dcell m p \<noteq> None"
  shows "dcell (m\<lparr>built := is, cells := dcells (CreateStore w p) m\<rparr>) = (dcell m)(p \<mapsto> dnum w)"
proof
  show "dcell (m\<lparr>built := is, cells := dcells (CreateStore w p) m\<rparr>) v = ((dcell m)(p \<mapsto> dnum w)) v" for v
    using assms by (cases p; cases v) (auto split: if_splits)
qed

lemma demo_instr:
  "build demo_llvm i p m = (dresult i m, m\<lparr>built := built m @ [i], cells := dcells i m\<rparr>)"
  "int_ty demo_llvm = DInt" "ty_of demo_llvm = dty_of" "ptr_to demo_llvm = DPtr"
  by (simp_all add: small_llvm_def)

lemma demo_mem_llvm: "mem_llvm (lib demo_env) dnum dcell"
proof -
  have pointee: "dpointee (dty_of v) = DInt 32" if "dcell m v = Some k" for m v k
    using that by (cases v) (simp_all split: if_splits)
  have "lib demo_env = demo_llvm" by (simp add: demo_env_def)
  then show ?thesis
    by (auto simp: mem_llvm_def demo_instr dcell_same dcell_alloca dcell_store pointee simp del: dcells.simps(2))
qed

definition demo_assign :: "string \<Rightarrow> string smap \<Rightarrow> expr \<Rightarrow> expr" where
  "demo_assign x as e = BinaryOp Assign new_attribute (Variable (demo_target\<lparr>attributes := as\<rparr>) x) e"

abbreviation demo_var :: "string \<Rightarrow> expr" where
  "demo_var x \<equiv> Variable new_attribute x"

definition demo_decls :: "expr list" where
  "demo_decls = [demo_assign ''y'' [] (Integer new_attribute 7), demo_assign ''x'' [(''mut'', [])] (Integer new_attribute 1)]"

definition demo_update :: expr where
  "demo_update = demo_assign ''x'' [] (BinaryOp Add new_attribute (demo_var ''x'') (demo_var ''y''))"

lemmas demo_lines = demo_decls_def demo_update_def demo_assign_def demo_target_def new_attribute_def

lemma demo_represents: "represents (lib demo_env) dcell demo_state Map.empty"
  using demo_scope by (simp add: represents_def holds_def)

theorem integer_block_correct_witness:
  "\<exists>open v s'. apply_bb (lib demo_env) (translate demo_env 3) (demo_decls @ [demo_update]) demo_state =
     (Value (open, v), s') \<and> stands_for (lib demo_env) dnum s' v (Some 8)"
proof -
  obtain S where "exec_lines Map.empty None (demo_decls @ [demo_update]) = Some (Inr (S, Some 8))"
    by (simp add: demo_lines both_def)
  from integer_block_correct [OF demo_int_llvm demo_place_llvm demo_mem_llvm demo_represents this, of 3]
  show ?thesis by (auto simp: demo_lines)
qed

text \<open>\<open>(1+2)*3\<close>, and \<open>{x#mut=1+2;x=x*x;x;}\<close>\<close>

definition demo_plus :: expr where
  "demo_plus = BinaryOp Add new_attribute (Integer new_attribute 1) (Integer new_attribute 2)"

definition demo_product :: expr where
  "demo_product = BinaryOp Mul new_attribute demo_plus (Integer new_attribute 3)"

definition demo_square :: "expr list" where
  "demo_square =
     [BinaryOp Assign new_attribute (Variable (new_attribute\<lparr>attributes := [(''mut'', [])]\<rparr>) ''x'') demo_plus,
      BinaryOp Assign new_attribute (demo_var ''x'') (BinaryOp Mul new_attribute (demo_var ''x'') (demo_var ''x'')),
      demo_var ''x'']"

lemmas demo_square_defs = demo_product_def demo_square_def demo_plus_def new_attribute_def

lemma demo_sources:
  "source demo_product = ''(1+2)*3''" "source (Scope new_attribute demo_square) = ''{x#mut=1+2;x=x*x;x;}''"
  by (simp_all add: demo_square_defs grouped_def int_string_def nat_string.simps sample_digits [simplified])

lemma demo_readable: "readable demo_product" "readable (Scope new_attribute demo_square)"
  by (simp_all add: demo_square_defs unmarked_def infix_op_def variable_text_def like_number_def like_letter_def
      like_bool_def attribute_ok_def is_alpha_def)

theorem source_compiled_witness:
  "\<exists>t m objs w s'. parse x3_exec signed_lib new_holder ''(1+2)*3'' no_error None = Some (Tree t, no_error, new_holder) \<and>
    translate demo_env 3 t demo_state = (Value (Some (length (heap demo_state) + length objs)), s') \<and>
    heap s' = heap demo_state @ objs @ [mk_value (lib demo_env) (Some w) t False] \<and>
    ir s' = m \<and> dnum w = 9"
proof -
  have "eval_int demo_product = Some 9" "depth demo_product \<le> 3" by (simp_all add: demo_square_defs)
  from source_compiled [OF x3_exec_conforms signed_lib_numbers demo_int_llvm demo_readable(1) this,
      of new_holder no_error None demo_state] demo_sources(1)
  show ?thesis by fastforce
qed

theorem source_block_compiled_witness:
  "\<exists>b ts open v s'.
     parse x3_exec signed_lib new_holder ''{x#mut=1+2;x=x*x;x;}'' no_error None = Some (Tree (Scope b ts), no_error, new_holder) \<and>
     apply_bb (lib demo_env) (translate demo_env 3) ts demo_state = (Value (open, v), s') \<and>
     stands_for (lib demo_env) dnum s' v (Some 9)"
proof -
  obtain S where "exec_lines Map.empty None (map marked demo_square) = Some (Inr (S, Some 9))"
    by (simp add: demo_square_defs both_def set_lval_def)
  moreover have "\<forall>e \<in> set demo_square. depth e \<le> 3" by (simp add: demo_square_defs)
  ultimately show ?thesis
    using source_block_compiled [OF x3_exec_conforms signed_lib_numbers demo_int_llvm demo_place_llvm demo_mem_llvm
      demo_represents demo_readable(2), of _ 3 new_holder no_error None] demo_sources(2)
    by fastforce
qed

lemma demo_declared: "\<exists>s. represents (lib demo_env) dcell s [''y'' \<mapsto> (7, True), ''x'' \<mapsto> (1, False)]"
proof -
  have "exec_lines Map.empty None demo_decls = Some (Inr ([''y'' \<mapsto> (7, True), ''x'' \<mapsto> (1, False)], Some 1))"
    by (simp add: demo_lines)
  moreover have "stands_for (lib demo_env) dnum demo_state None None" by (simp add: stands_for_def)
  ultimately show ?thesis
    using translate_lines [OF demo_int_llvm demo_place_llvm demo_mem_llvm demo_represents, of None None demo_decls _ 2]
    by (fastforce simp: demo_decls_def demo_assign_def)
qed

theorem mut_lost_by_assignment_witness:
  "\<exists>s s'. apply_bb (lib demo_env) (translate demo_env 2)
     [demo_assign ''x'' [] (demo_var ''y''), demo_assign ''x'' [] (Integer new_attribute 3)] s =
     (Throw (translate_error ''Assignment of read-only variable'' LocEmpty), s')"
proof -
  obtain s where s: "represents (lib demo_env) dcell s [''y'' \<mapsto> (7, True), ''x'' \<mapsto> (1, False)]"
    using demo_declared by blast
  let ?b = "demo_target\<lparr>attributes := []\<rparr>"
  from mut_lost_by_assignment [OF demo_int_llvm demo_place_llvm demo_mem_llvm s, of "''x''" 1 "''y''" 7 ?b
      new_attribute ?b "Integer new_attribute 3" 3 2 new_attribute new_attribute]
  show ?thesis by (auto simp: demo_assign_def demo_target_def new_attribute_def)
qed

text \<open>\<open>2 ** 3\<close>\<close>

definition demo_power :: expr where
  "demo_power = BinaryOp Pow new_attribute (Integer new_attribute 2) (Integer new_attribute 3)"

lemma demo_power_runs: "fst (translate demo_env (Suc 1) demo_power demo_state) = Value (Some 3)"
  by code_simp


text \<open>\<open>x#heap = 5\<close>\<close>

definition heap_target :: attribute where
  "heap_target = demo_target\<lparr>attributes := [(''heap'', [])]\<rparr>"

definition demo_on_heap :: expr where
  "demo_on_heap = BinaryOp Assign new_attribute (Variable heap_target ''x'') (Integer new_attribute 5)"

lemma demo_on_heap_runs: "fst (translate demo_env (Suc 1) demo_on_heap demo_state) = Value (Some 2)"
  by code_simp


text \<open>The function \<open>(x){ x }\<close> and a number to call it with.\<close>

definition demo_params :: "wrapped list" where
  "demo_params = [(new_attribute, ''x'')]"

abbreviation demo_lambda :: "(dty, dval, nat, dmod) tstate" where
  "demo_lambda \<equiv> demo_state\<lparr>heap := heap demo_state @
     [mk_value demo_llvm (Some (DFunction (DFun DVoid [DInt 32] False) ''f''))
        (Function new_attribute demo_params [Variable new_attribute ''x'']) True,
      mk_value demo_llvm (Some (DVal (DInt 32) 7)) default_expr False]\<rparr>"

lemma demo_lambda_runs:
  "fst (evaluate demo_llvm (translate demo_env 2) 1 [2] demo_lambda) = Value (Some 11)"
  by code_simp


text \<open>\<open>[4, 5][2]\<close>\<close>

lemma demo_array_llvm: "array_llvm (lib demo_env)"
  by (auto simp: array_llvm_def demo_env_def small_llvm_def unsigned_of_int take_bit_eq_mod)

lemma nat_string_2: "nat_string 2 = ''2''"
  by code_simp

theorem array_index_checked_witness:
  "\<exists>s'. translate demo_env 3 (BinaryOp At new_attribute
     (Array new_attribute [Integer new_attribute 4, Integer new_attribute 5]) (Integer new_attribute 2)) demo_state =
     (Throw (translate_error ''Index 2 is out of range.'' LocEmpty), s')"
  using array_index_checked [OF demo_int_llvm demo_place_llvm demo_array_llvm,
      of "[Integer new_attribute 4, Integer new_attribute 5]" 1 new_attribute new_attribute 2 new_attribute demo_state]
  by (simp add: new_attribute_def nat_string_2 numeral_3_eq_3 del: translate.simps)

section \<open>Runs of the compiler\<close>

text \<open>A file that holds \<open>x\<close>, and a tool chain without colours.\<close>

definition file_env :: "(dty, dval, nat, dmod) env" where
  "file_env = demo_env\<lparr>x3_engine := x3_exec, read_file := (\<lambda>p. Some ''x'')\<rparr>"

definition demo_tools :: "dmod toolchain" where
  "demo_tools =
     \<lparr>styles = (\<lambda>c. []), show_double = (\<lambda>d. ''0''), show_path = (\<lambda>p. p), usage = [], banner = [],
      new_module = (\<lambda>p. ir demo_state), broken_module = (\<lambda>m. False), print_module = (\<lambda>m. []),
      module_passes = (\<lambda>n k m. m), begin_functions = (\<lambda>m. m), function_list = (\<lambda>m. []),
      function_passes = (\<lambda>n k f m. m), end_functions = (\<lambda>m. m), default_triple = [], normal_triple = (\<lambda>t. t), tmp_file = (\<lambda>n. []),
      system_code = (\<lambda>c. 0), leftover = []\<rparr>"

definition demo_options :: "OutputType \<Rightarrow> options" where
  "demo_options out =
     \<lparr>version_flag = False, input_path = Some ''a.scc'', output_path = ''a.out'', out_type = out,
      arch = ''native'', translator_flags = [], entry_func = ''main'', optimize_level = 3\<rparr>"

lemma file_env_simps [simp]:
  "x3_engine file_env = x3_exec" "x3_lib file_env = demo_lib" "read_file file_env p = Some ''x''"
  "absolute file_env p b = p" "lib file_env = demo_llvm"
  by (simp_all add: file_env_def demo_env_def)

theorem scopc_ast_witness:
  "(\<exists>f t. scopc file_env demo_tools (demo_options OutAST) 0 = Value (0, [WriteFile f t])) \<or>
   (\<exists>m. scopc file_env demo_tools (demo_options OutAST) 0 = Value (-1, [Message m]))"
  using scopc_ast [of file_env "demo_options OutAST" "''a.scc''" "''x''" demo_tools 0]
    x3_exec_conforms demo_lib_ok
  by (auto simp: demo_options_def report_def)

theorem scopc_translation_error_witness:
  "\<exists>m. scopc file_env demo_tools (demo_options OutIR) 1 = Value (-1, [Message m])"
proof -
  let ?C = "file_env\<lparr>entry_function_name := ''main''\<rparr>"
  let ?start = "new_translator (ir demo_state) (no_point demo_llvm) [] []"
  let ?x = "Variable (new_attribute\<lparr>where_at := mk_location ''x'' (1, 1) (0, 1) (Some ''a.scc'')\<rparr>) ''x''"
  obtain s where main: "createMain ?C ?start = (Value (), s)" using createMain_ends by blast
  then have "this_scope s < length (heap s) \<and> scope_symbols s = []"
    by (auto simp: createMain_def Let_def andThen_def creates_def set_insert_point_def modifies_def
        new_translator_def void_value_def)
  then obtain e s' where run: "translate ?C 1 ?x s = (Throw e, s')"
    by (simp add: visit_def visit_variable_def andThen_def gets_def deref_at throw_def new_attribute_def)
  show ?thesis
    using scopc_translation_error [of "demo_options OutIR" "''a.scc''" file_env "''x''" ?x new_holder
        demo_tools s 1 e s'] main run
    by (auto simp: demo_options_def demo_tools_def exec_variable)
qed

text \<open>A file that holds \<open>7\<close>\<close>

abbreviation number_env :: "(dty, dval, nat, dmod) env" where
  "number_env \<equiv> file_env\<lparr>read_file := (\<lambda>p. Some ''7'')\<rparr>"

lemma exec_integer:
  "parse x3_exec demo_lib h ''7'' err path =
     Some (Tree (Integer (new_attribute\<lparr>where_at := mk_location ''7'' (1, 1) (0, 1) path\<rparr>) 7), err, h)"
  by (simp add: run_simps cong: run_congs option.case_cong_weak pres.case_cong_weak)

lemma demo_fun_llvm: "fun_llvm (lib demo_env)"
  by (auto simp: fun_llvm_def demo_env_def small_llvm_def map_add_def split: dval.splits)

theorem scopc_requires_function_witness:
  "\<exists>m. scopc number_env (demo_tools\<lparr>new_module := (\<lambda>p. (ir demo_state)\<lparr>dfuns := []\<rparr>)\<rparr>) (demo_options OutIR) 1 =
     Value (-1, [Message m])"
  using scopc_requires_function [of number_env dnum
      "demo_tools\<lparr>new_module := (\<lambda>p. (ir demo_state)\<lparr>dfuns := []\<rparr>)\<rparr>" "''a.scc''" "demo_options OutIR" "''7''"
      "Integer (new_attribute\<lparr>where_at := mk_location ''7'' (1, 1) (0, 1) (Some ''a.scc'')\<rparr>) 7" new_holder 7 1]
    demo_int_llvm demo_fun_llvm exec_integer [of new_holder no_error "Some ''a.scc''"]
  by (auto simp: demo_options_def demo_env_def file_env_def small_llvm_def new_attribute_def)

text \<open>\<open>-O 256\<close>\<close>

definition demo_settings :: "int \<Rightarrow> settings" where
  "demo_settings l =
     \<lparr>given_type = Some ''ir'', given_output = None, given_arch = None, given_flags = None,
      given_entry = None, given_level = Some l, given_version = False, given_input = Some ''a.scc''\<rparr>"

theorem optimize_level_cut_witness:
  "scopc_main file_env demo_tools (\<lambda>_. Parsed (demo_settings 256)) 1 [] =
   scopc_main file_env demo_tools (\<lambda>_. Parsed (demo_settings 0)) 1 []"
  using optimize_level_cut [of "demo_settings 256" 256 0 file_env demo_tools 1 "[]"]
  by (simp add: demo_settings_def)

text \<open>\<open>@import#m:"n.scc"\<close>, where the file holds \<open>7\<close>\<close>

theorem import_translates_file_witness:
  "\<exists>v s'. translate number_env (Suc 1)
     (PreVariable (new_attribute\<lparr>attributes := [(''m'', ''n.scc'')]\<rparr>) ''@import'') demo_state = (Value (Some v), s')"
proof -
  let ?a = "new_attribute\<lparr>attributes := [(''m'', ''n.scc'')]\<rparr>"
  let ?e = "Integer (new_attribute\<lparr>where_at := mk_location ''7'' (1, 1) (0, 1) (Some ''n.scc'')\<rparr>) 7"
  let ?inner = "(new_translator (ir demo_state) (ip demo_state) (heap demo_state) [])
    \<lparr>link_libraries := link_libraries demo_state\<rparr>"
  have parsed: "parse x3_exec demo_lib new_holder ''7'' no_error (Some ''n.scc'') = Some (Tree ?e, no_error, new_holder)"
    by (rule exec_integer)
  have "int_llvm (lib number_env) dnum" using demo_int_llvm by (simp add: demo_env_def)
  from translate_int [OF this, of ?e 7 1 ?inner] obtain v s' where
    "translate number_env 1 ?e ?inner = (Value (Some v), s')"
    by (auto simp: yields_def new_attribute_def)
  moreover have "imports_file ?a ''n.scc''" "get_function (lib number_env) (ir demo_state) ''import'' = None"
    by (simp_all add: imports_file_def new_attribute_def demo_state_def new_translator_def small_llvm_def)
  moreover have "absolute number_env ''n.scc'' (getPath (where_at ?a)) = ''n.scc''" by (simp add: file_env_def demo_env_def)
  ultimately show ?thesis
    using import_translates_file [of number_env ?a "''n.scc''" demo_state 1] parsed x3_exec_conforms demo_lib_ok
    by (auto simp del: translate.simps One_nat_def)
qed

end
