(* ===== verification/Function_Compiled.thy ===== *)
theory Function_Compiled
  imports Source_Compiled Return_Types Top_Level
begin

text \<open>
  The compilation of a function without parameters (\<open>evaluator::operator()\<close> for functions): the body is
  translated twice, first into a function that is thrown away, to find its return type, then into
  the function that stays. The body assigns integer variables and ends with a \<open>ret\<close>; its meaning is
  the number it returns.
\<close>

section \<open>Reference semantics\<close>

fun returned_expr :: "expr \<Rightarrow> expr option" where
  "returned_expr (SingleOp Ret a e) = Some e"
| "returned_expr _ = None"

fun value_of_body :: "int_store \<Rightarrow> expr list \<Rightarrow> (error + int32) option" where
  "value_of_body S [] = None"
| "value_of_body S (e # es) =
     (case returned_expr e of
        Some x \<Rightarrow> if es = [] then eval_in S x else None
      | None \<Rightarrow>
          (case exec_line S e of
             None \<Rightarrow> None
           | Some (Inl err) \<Rightarrow> Some (Inl err)
           | Some (Inr (S', k)) \<Rightarrow> value_of_body S' es))"

lemma returned_exprD: "returned_expr e = Some x \<Longrightarrow> \<exists>a. e = SingleOp Ret a x"
  by (cases e rule: returned_expr.cases) auto

text \<open>The number of a body does not depend on places, or on the marks that the first pass sets.\<close>

lemma returned_canon: "returned_expr (canon e) = map_option canon (returned_expr e)"
  by (cases e rule: returned_expr.cases) auto

lemma value_of_body_canon: "same_result (value_of_body S (map canon es)) (value_of_body S es)"
proof (induction es arbitrary: S)
  case (Cons e es)
  show ?case
  proof (cases "returned_expr e")
    case None
    from exec_line_canon [of S e] None show ?thesis
      by (elim same_result_cases) (auto simp: returned_canon Cons.IH split: prod.splits)
  qed (simp add: returned_canon eval_in_canon)
qed simp

lemma value_of_body_same:
  assumes "value_of_body S es = Some q" and "map canon es = map canon es'"
  obtains q' where "value_of_body S es' = Some q'" and "unplaced q' = unplaced q"
proof -
  have "same_result (value_of_body S es) (value_of_body S es')"
    using value_of_body_canon [of S es] value_of_body_canon [of S es'] assms(2) by simp
  with assms(1) show thesis by (cases "value_of_body S es'") (auto intro: that)
qed

lemma canon_survey: "canon (set_survey e b) = canon e"
  unfolding set_survey_def by (induction e) (auto simp: canon_attr_def)

lemma depth_survey: "depth (set_survey e b) = depth e"
  by (metis canon_survey depth_canon)

section \<open>LLVM on functions\<close>

text \<open>
  What LLVM says of functions with their basic blocks and the operands \<open>R\<close> of their \<open>ret\<close>
  instructions. Instructions are added at the end of a block, and only \<open>ret\<close> adds an operand; the view
  of the instructions has their types. A function of one block, called without arguments, gives
  the number its \<open>ret\<close> stands for.
\<close>

definition ret_llvm :: "('t, 'v, 'p, 'm) llvm \<Rightarrow> ('v \<Rightarrow> int32) \<Rightarrow> ('m \<Rightarrow> 'v \<Rightarrow> 'v option list) \<Rightarrow> bool" where
  "ret_llvm L D R \<longleftrightarrow>
     (\<forall>i p m. fun_blocks L (snd (build L i p m)) = fun_blocks L m) \<and>
     (\<forall>i p m. plain_instr i \<longrightarrow> R (snd (build L i p m)) = R m) \<and>
     (\<forall>v p m f. insert_block L p \<in> set (fun_blocks L m f) \<longrightarrow> R m f = [] \<longrightarrow>
        R (snd (build L (CreateRet v) p m)) = (R m)(f := [v])) \<and>
     (\<forall>m f. returned (all_insts L m f) = map (map_option (ty_of L)) (R m f)) \<and>
     (\<forall>m f b w p. fun_blocks L m f = [b] \<longrightarrow> R m f = [Some w] \<longrightarrow>
        ty_of L (fst (build L (CreateCall f []) p m)) = ty_of L w \<and>
        D (fst (build L (CreateCall f []) p m)) = D w)"

text \<open>
  A function is created under a new address, without blocks, and leaves the functions that are there;
  so does one that is erased. A block is created at the end of its function.
\<close>

definition new_llvm :: "('t, 'v, 'p, 'm) llvm \<Rightarrow> ('m \<Rightarrow> 'v \<Rightarrow> 'v option list) \<Rightarrow> bool" where
  "new_llvm L R \<longleftrightarrow>
     (\<forall>t n b m f m'. create_function L t n b m = (f, m') \<longrightarrow>
        ty_of L f = ptr_to L t \<and> is_function L f \<and> (\<forall>n. get_function L m n \<noteq> Some f) \<and>
        (\<forall>n g. get_function L m n = Some g \<longrightarrow> get_function L m' n = Some g) \<and>
        fun_blocks L m' = (fun_blocks L m)(f := []) \<and> R m' = (R m)(f := [])) \<and>
     (\<forall>n f m b m'. create_block L n (Some f) m = (b, m') \<longrightarrow>
        insert_block L (at_end L b) = b \<and>
        fun_blocks L m' = (fun_blocks L m)(f := fun_blocks L m f @ [b]) \<and> R m' = R m) \<and>
     (\<forall>f m. is_function L f \<longrightarrow>
        (\<forall>n g. get_function L m n = Some g \<longrightarrow> g \<noteq> f \<longrightarrow> get_function L (erase L f m) n = Some g) \<and>
        (\<forall>g. g \<noteq> f \<longrightarrow> fun_blocks L (erase L f m) g = fun_blocks L m g \<and> R (erase L f m) g = R m g)) \<and>
     (\<forall>r ts v. fun_params L (fun_ty L r ts v) = ts) \<and>
     (\<forall>m f. is_function L f \<longrightarrow> length (fun_args L m f) = length (fun_params L (pointee L (ty_of L f))))"

text \<open>The entry function, whose block is still open.\<close>

definition main_open ::
  "('t, 'v, 'p, 'm) llvm \<Rightarrow> ('m \<Rightarrow> 'v \<Rightarrow> 'v option list) \<Rightarrow> string \<Rightarrow> 'v \<Rightarrow> 'v \<Rightarrow> 'm \<Rightarrow> bool" where
  "main_open L R name mainf bb m \<longleftrightarrow>
     get_function L m name = Some mainf \<and> bb \<in> set (fun_blocks L m mainf) \<and> R m mainf = []"

lemma builds_rets:
  assumes "ret_llvm L D R" and "(m, m') \<in> builds L"
  shows "R m' = R m" and "fun_blocks L m' = fun_blocks L m"
  using assms(1) builds_keep [OF assms(2), where Q = "\<lambda>m'. R m' = R m"]
    builds_keep [OF assms(2), where Q = "\<lambda>m'. fun_blocks L m' = fun_blocks L m"]
  by (simp_all add: ret_llvm_def)

lemma main_open_builds:
  "fun_llvm L \<Longrightarrow> ret_llvm L D R \<Longrightarrow> (m, m') \<in> builds L \<Longrightarrow> main_open L R name g bb m \<Longrightarrow> main_open L R name g bb m'"
  by (simp add: main_open_def builds_rets builds_functions)

lemma main_open_function:
  assumes "new_llvm L R" and "create_function L t n b m = (f, m')" and "main_open L R name g bb m"
  shows "main_open L R name g bb m'" and "f \<noteq> g"
  using assms unfolding new_llvm_def main_open_def by (auto dest!: conjunct1)

lemma main_open_block:
  assumes "fun_llvm L" and "new_llvm L R" and "create_block L n (Some f) m = (b, m')" and "main_open L R name g bb m"
  shows "main_open L R name g bb m'"
proof -
  have "get_function L m' = get_function L m" using assms(1,3) unfolding fun_llvm_def by (metis snd_conv)
  moreover have "fun_blocks L m' = (fun_blocks L m)(f := fun_blocks L m f @ [b])" "R m' = R m"
    using assms(2,3) unfolding new_llvm_def by blast+
  ultimately show ?thesis using assms(4) by (auto simp: main_open_def)
qed

lemma main_open_erase:
  "new_llvm L R \<Longrightarrow> is_function L f \<Longrightarrow> f \<noteq> g \<Longrightarrow> main_open L R name g bb m \<Longrightarrow> main_open L R name g bb (erase L f m)"
  unfolding new_llvm_def main_open_def by metis

lemma main_open_ret:
  assumes "fun_llvm L" and "ret_llvm L D R" and "f \<noteq> g"
    and "insert_block L p \<in> set (fun_blocks L m f)" and "R m f = []" and "main_open L R name g bb m"
  shows "main_open L R name g bb (snd (build L (CreateRet v) p m))"
  using assms by (simp add: main_open_def fun_llvm_def ret_llvm_def)

section \<open>The lines of a body\<close>

text \<open>A step forward, and then a \<open>ret\<close> with a value for the number \<open>k\<close> and an object for its line.\<close>

definition body_returns ::
  "('t, 'v, 'p, 'm) llvm \<Rightarrow> ('v \<Rightarrow> int32) \<Rightarrow> ('t, 'v, 'p, 'm) tstate \<Rightarrow> int32 \<Rightarrow>
   ('t, 'v, 'p, 'm) tstate \<Rightarrow> bool" where
  "body_returns L D s k s' \<longleftrightarrow> (\<exists>s1 w obj. advances L s s1 \<and> ty_of L w = int_ty L 32 \<and> D w = k \<and>
     s' = s1\<lparr>ir := snd (build L (CreateRet (Some w)) (ip s) (ir s1)), heap := heap s1 @ [obj]\<rparr>)"

lemma returns_from:
  assumes "advances L s s1" and "body_returns L D s1 k s'"
  shows "body_returns L D s k s'"
proof -
  have "ip s1 = ip s" using assms(1) by (simp add: advances_def)
  with assms(2) show ?thesis
    unfolding body_returns_def by (metis advances_trans [OF assms(1)])
qed


lemma translate_ret:
  assumes L: "int_llvm (lib C) D" "place_llvm (lib C)" "mem_llvm (lib C) D M"
    and S: "represents (lib C) M s S" and e: "eval_in S e = Some q" "depth e \<le> n"
  shows "case q of
      Inl err \<Rightarrow> fst (translate C (Suc n) (SingleOp Ret a e) s) = Throw err
    | Inr k \<Rightarrow> \<exists>i s'. translate C (Suc n) (SingleOp Ret a e) s = (Value (Some i), s') \<and>
        i < length (heap s') \<and> body_returns (lib C) D s k s'"
proof -
  have visit: "translate C (Suc n) (SingleOp Ret a e) s =
      andThen (translate C n e) (\<lambda>r. apply_ret (lib C) [r]) s"
    by (simp add: visit_def visit_operators_def op_is_customizable_def andThen_def ret_def apply_op_def Let_def
        split: prod.split outcome.split)
  note run = translate_in [OF L S e]
  show ?thesis
  proof (cases q)
    case (Inl err)
    with run show ?thesis
      by (cases "translate C n e s") (simp add: evaluates_error visit andThen_def del: translate.simps)
  next
    case (Inr k)
    with run obtain i s1 w where s1: "translate C n e s = (Value (Some i), s1)" "int_obj (lib C) s1 i w (const_in S e)"
        "D w = k" "extends (lib C) M s s1"
      by (auto simp: evaluates_number)
    let ?m = "snd (build (lib C) (CreateRet (Some w)) (ip s1) (ir s1))"
    have i: "i < length (heap s1)" "symbols (heap s1 ! i) = []" "ty_of (lib C) w = int_ty (lib C) 32"
      using s1(2) by (simp_all add: int_obj_def)
    have "apply_ret (lib C) [Some i] s1 = (Value (Some (length (heap s1))),
        s1\<lparr>ir := ?m, heap := heap s1 @ [void_value\<lparr>rtable := Some ([], field_ids (heap s1 ! i))\<rparr>]\<rparr>)"
      using i int_obj_llvm [OF s1(2)]
      by (simp add: apply_ret_def andThen_def operand_def the_or_crash_def ret_def then_do_def emit_unit_def emit_def
          alloc_def generateRetTable_def deref_at nth_append setRetTable_def update_at)
    moreover have "advances (lib C) s s1" "ip s1 = ip s"
      using extends_advances [OF s1(4)] by (simp_all add: advances_def)
    ultimately show ?thesis
      using Inr s1(1,3) i(3) unfolding body_returns_def
      by (simp add: visit andThen_def del: translate.simps) blast
  qed
qed

text \<open>
  The two passes are loops over the lines with their own accumulators; they share that a line that
  throws ends them, and that they go on with the state after a line that has a value.
\<close>

locale line_loop =
  fixes C :: "('t, 'v, 'p, 'm) env" and n :: nat
    and g :: "'acc \<Rightarrow> expr \<Rightarrow> ('t, 'v, 'p, 'm, 'acc) tcomp"
  assumes stops: "fst (translate C n e s) = Throw err \<Longrightarrow> fst (g acc e s) = Throw err"
    and goes_on: "translate C n e s = (Value (Some i), s') \<Longrightarrow> i < length (heap s') \<Longrightarrow>
      \<exists>acc'. g acc e s = (Value acc', s')"
begin

lemma body_run:
  assumes L: "int_llvm (lib C) D" "place_llvm (lib C)" "mem_llvm (lib C) D M"
  shows "represents (lib C) M s S \<Longrightarrow> value_of_body S es = Some q \<Longrightarrow> \<forall>e \<in> set es. depth e \<le> n \<Longrightarrow>
    case q of
      Inl err \<Rightarrow> fst (fold_comp g acc es s) = Throw err
    | Inr k \<Rightarrow> \<exists>acc' s'. fold_comp g acc es s = (Value acc', s') \<and> body_returns (lib C) D s k s'"
proof (induction es arbitrary: s S acc)
  case Nil
  then show ?case by simp
next
  case (Cons e es)
  show ?case
  proof (cases "returned_expr e")
    case (Some x)
    then obtain a where e: "e = SingleOp Ret a x" by (blast dest: returned_exprD)
    with Cons.prems(3) obtain m where n: "n = Suc m" "depth x \<le> m" by (cases n) auto
    from Some Cons.prems(2) have es: "es = []" "eval_in S x = Some q" by (auto split: if_splits)
    note run = translate_ret [OF L Cons.prems(1) es(2) n(2), of a, folded n(1) e]
    show ?thesis
    proof (cases q)
      case (Inl err)
      with run have "fst (translate C n e s) = Throw err" by simp
      from stops [OF this, of acc] Inl es(1) show ?thesis by (cases "g acc e s") (simp add: andThen_def)
    next
      case (Inr k)
      with run obtain i s' where s': "translate C n e s = (Value (Some i), s')" "i < length (heap s')"
          "body_returns (lib C) D s k s'" by auto
      from goes_on [OF s'(1,2), of acc] obtain acc' where "g acc e s = (Value acc', s')" by blast
      with Inr es(1) s'(3) show ?thesis by (auto simp: andThen_def ret_def)
    qed
  next
    case None
    with Cons.prems(2) obtain r where r: "exec_line S e = Some r" by (auto split: option.splits)
    from Cons.prems(3) have "depth e \<le> n" by simp
    from translate_line [OF L Cons.prems(1) r this] have run: "executes (lib C) D M s r (translate C n e s)" .
    show ?thesis
    proof (cases r)
      case (Inl err)
      with run have "fst (translate C n e s) = Throw err" by (simp add: executes_def)
      from stops [OF this, of acc] Inl None r Cons.prems(2) show ?thesis
        by (cases "g acc e s") (auto simp: andThen_def)
    next
      case (Inr Sk)
      then obtain S1 k1 where Sk: "r = Inr (S1, k1)" by (cases Sk) simp
      with run obtain i s1 w c where s1: "translate C n e s = (Value (Some i), s1)" "int_obj (lib C) s1 i w c"
          "represents (lib C) M s1 S1" "advances (lib C) s s1"
        by (auto simp: executes_def)
      then have "i < length (heap s1)" by (simp add: int_obj_def)
      from goes_on [OF s1(1) this, of acc] obtain acc' where "g acc e s = (Value acc', s1)" by blast
      then have fold: "fold_comp g acc (e # es) s = fold_comp g acc' es s1" by (simp add: andThen_def)
      have "value_of_body S1 es = Some q" "\<forall>e \<in> set es. depth e \<le> n"
        using Cons.prems(2,3) None r Sk by simp_all
      from Cons.IH [OF s1(3) this, of acc'] s1(4) show ?thesis
        unfolding fold by (cases q) (auto intro: returns_from)
    qed
  qed
qed

end

text \<open>The loop of the first pass, and that of the second.\<close>

lemma fold_comp_map: "fold_comp (\<lambda>b x. f b (h x)) b xs = fold_comp f b (map h xs)"
  by (induction xs arbitrary: b) (simp_all add: andThen_def)

interpretation survey_loop: line_loop C n
  "\<lambda>table e. andThen (translate C n e) (\<lambda>r. case table of
     Some t \<Rightarrow> ret (Some t)
   | None \<Rightarrow> andThen (the_or_crash r) (\<lambda>v. andThen (deref v) (\<lambda>obj. ret (rtable obj))))" for C n
proof unfold_locales
  fix e s err acc
  assume "fst (translate C n e s) = Throw err"
  then show "fst (andThen (translate C n e) (\<lambda>r. case acc of
       Some t \<Rightarrow> ret (Some t)
     | None \<Rightarrow> andThen (the_or_crash r) (\<lambda>v. andThen (deref v) (\<lambda>obj. ret (rtable obj)))) s) = Throw err"
    by (cases "translate C n e s") (simp add: andThen_def)
qed (auto simp: andThen_def the_or_crash_def ret_def deref_at split: option.split)

interpretation emit_loop: line_loop C n "\<lambda>_ e. andThen (translate C n e) (\<lambda>_. ret ())" for C n
proof unfold_locales
  fix e s err acc
  assume "fst (translate C n e s) = Throw err"
  then show "fst (andThen (translate C n e) (\<lambda>_. ret ()) s) = Throw err"
    by (cases "translate C n e s") (simp add: andThen_def)
qed (simp add: andThen_def ret_def)

section \<open>Entering a function\<close>

definition values_kept :: "('t, 'v, 'p, 'm) tstate \<Rightarrow> ('t, 'v, 'p, 'm) tstate \<Rightarrow> bool" where
  "values_kept s s' \<longleftrightarrow> length (heap s) \<le> length (heap s') \<and>
     (\<forall>i < length (heap s). llvm_value (heap s' ! i) = llvm_value (heap s ! i))"

lemma values_kept_trans: "values_kept s s' \<Longrightarrow> values_kept s' s'' \<Longrightarrow> values_kept s s''"
  by (auto simp: values_kept_def)

lemma values_kept_need:
  "values_kept s s' \<Longrightarrow> v < length (heap s) \<Longrightarrow> llvm_value (heap s ! v) = Some w \<Longrightarrow> need_llvm v s' = (Value w, s')"
  by (rule need_llvm_at) (auto simp: values_kept_def)

text \<open>A function that has just been entered: its one block is open, and its scope has no variable.\<close>

definition entered ::
  "('t, 'v, 'p, 'm) llvm \<Rightarrow> ('m \<Rightarrow> 'v \<rightharpoonup> int32) \<Rightarrow> ('m \<Rightarrow> 'v \<Rightarrow> 'v option list) \<Rightarrow> 'v \<Rightarrow>
   ('t, 'v, 'p, 'm) tstate \<Rightarrow> bool" where
  "entered L M R func s \<longleftrightarrow> represents L M s Map.empty \<and> fun_blocks L (ir s) func = [insert_block L (ip s)] \<and>
     R (ir s) func = []"

lemma enter_body_run:
  "\<exists>m. enter_body L f func entry b s = (Value (length (heap s)), s\<lparr>ir := m, ip := at_end L entry,
      this_scope := length (heap s), heap := heap s @
        [(mk_value L (Some entry) f False)\<lparr>symbols := [(''__self'', Suc (length (heap s)))]\<rparr>,
         mk_value L (Some (fst (build L (CreateAlloca (ty_of L func) ''__self'') (at_end L entry) (ir s)))) f False]\<rparr>) \<and>
    (ir s, m) \<in> builds L"
proof -
  let ?place = "build L (CreateAlloca (ty_of L func) ''__self'') (at_end L entry) (ir s)"
  let ?m = "if b then snd (build L (CreateStore func (fst ?place)) (at_end L entry) (snd ?place)) else snd ?place"
  have "(ir s, ?m) \<in> builds L" by (simp add: builds_step builds_instr)
  then show ?thesis
    by (intro exI [of _ ?m]) (simp add: enter_body_def andThen_def then_do_def new_value_def alloc_def setScope_def
        modifies_def set_insert_point_def emit_def set_symbol_def update_at nth_append do_if_def emit_unit_def ret_def
        list_update_append)
qed

lemma enter_function:
  assumes L: "fun_llvm L" "ret_llvm L D R" "new_llvm L R" and main: "main_open L R nm mainf bb (ir s)"
  obtains func m0 entry m1 scope s1
  where "create_function L t name True (ir s) = (func, m0)" and "create_block L bn (Some func) m0 = (entry, m1)"
    and "enter_body L f func entry b (s\<lparr>ir := m1\<rparr>) = (Value scope, s1)"
    and "entered L M R func s1" and "values_kept s s1" and "main_open L R nm mainf bb (ir s1)"
    and "func \<noteq> mainf" and "is_function L func" and "ty_of L func = ptr_to L t"
proof -
  obtain func m0 where f: "create_function L t name True (ir s) = (func, m0)" by fastforce
  obtain entry m1 where e: "create_block L bn (Some func) m0 = (entry, m1)" by fastforce
  from enter_body_run [of L f func entry b "s\<lparr>ir := m1\<rparr>"] obtain m where
    run: "enter_body L f func entry b (s\<lparr>ir := m1\<rparr>) = (Value (length (heap s)), s\<lparr>ir := m, ip := at_end L entry,
      this_scope := length (heap s), heap := heap s @
        [(mk_value L (Some entry) f False)\<lparr>symbols := [(''__self'', Suc (length (heap s)))]\<rparr>,
         mk_value L (Some (fst (build L (CreateAlloca (ty_of L func) ''__self'') (at_end L entry) m1))) f False]\<rparr>)"
      (is "_ = (_, ?s1)")
    and m: "(m1, m) \<in> builds L" by auto
  have func: "fun_blocks L m0 func = []" "R m0 func = []" "is_function L func" "ty_of L func = ptr_to L t"
    using L(3) f unfolding new_llvm_def by (metis fun_upd_same)+
  have entry: "insert_block L (at_end L entry) = entry" "fun_blocks L m1 func = [entry]" "R m1 func = []"
    using L(3) e func(1,2) unfolding new_llvm_def by (metis append_Nil fun_upd_same)+
  have "represents L M ?s1 Map.empty"
    by (auto simp: represents_def nth_append intro!: holdsI exI [of _ undefined])
  then have "entered L M R func ?s1" using entry builds_rets [OF L(2) m] by (simp add: entered_def)
  moreover have "main_open L R nm mainf bb m" "func \<noteq> mainf"
    using main_open_builds [OF L(1,2) m main_open_block [OF L(1,3) e main_open_function(1) [OF L(3) f main]]]
      main_open_function(2) [OF L(3) f main] by simp_all
  moreover have "values_kept s ?s1" by (simp add: values_kept_def nth_append)
  ultimately show thesis using func(3,4) by (intro that [OF f e run]) simp_all
qed

text \<open>What a body that has returned leaves.\<close>

lemma entered_returns:
  assumes L: "fun_llvm L" "ret_llvm L D R" and s: "entered L M R func s" "body_returns L D s k s'"
  obtains w where "R (ir s') func = [Some w]" and "ty_of L w = int_ty L 32" and "D w = k"
    and "fun_blocks L (ir s') func = fun_blocks L (ir s) func" and "values_kept s s'"
    and "func \<noteq> mainf \<Longrightarrow> main_open L R nm mainf bb (ir s) \<Longrightarrow> main_open L R nm mainf bb (ir s')"
proof -
  from s(2) obtain s1 w obj where adv: "advances L s s1" and w: "ty_of L w = int_ty L 32" "D w = k"
    and s': "s' = s1\<lparr>ir := snd (build L (CreateRet (Some w)) (ip s) (ir s1)), heap := heap s1 @ [obj]\<rparr>"
    unfolding body_returns_def by blast
  from adv have m: "(ir s, ir s1) \<in> builds L" by (simp add: advances_def)
  note same = builds_rets [OF L(2) m]
  have block: "insert_block L (ip s) \<in> set (fun_blocks L (ir s1) func)" "R (ir s1) func = []"
    using s(1) same by (simp_all add: entered_def)
  have "R (ir s') func = [Some w]" using L(2) block unfolding ret_llvm_def s' by simp
  moreover have "fun_blocks L (ir s') = fun_blocks L (ir s)" using L(2) same(2) unfolding ret_llvm_def s' by simp
  moreover have "values_kept s s'" using adv by (auto simp: values_kept_def advances_def s' nth_append)
  moreover have "func \<noteq> mainf \<Longrightarrow> main_open L R nm mainf bb (ir s) \<Longrightarrow> main_open L R nm mainf bb (ir s')"
    using main_open_ret [OF L _ block] main_open_builds [OF L m] unfolding s' by simp
  ultimately show thesis using w by (intro that) simp_all
qed

section \<open>The two passes\<close>

text \<open>One step of a computation.\<close>

lemma step_value: "c s = (Value a, s') \<Longrightarrow> andThen c K s = K a s'"
  by (simp add: andThen_def)

lemma step_ir:
  "andThen (gets h'') K'' s = K'' (h'' s) s"
  "andThen (reads h) K s = K (h (ir s)) s"
  "andThen (creates h') K' s = K' (fst (h' (ir s))) (s\<lparr>ir := snd (h' (ir s))\<rparr>)"
  by (simp_all add: andThen_def reads_def gets_def creates_def)

text \<open>The scan of the surveyed body, when it has one \<open>ret\<close> with a value.\<close>

lemma ret_type_single:
  assumes "returned is = [Some t]"
  shows "ret_type_of wh None is s = (Value (Some t), s)"
proof -
  have "ret_type_of wh (Some t) is s = (Value (Some t), s)" if "returned is = []" for "is"
    using that by (simp add: ret_type_of_known)
  with assms show ?thesis by (induction "is" rule: returned.induct) auto
qed

text \<open>The two outcomes of a pass over a body.\<close>

definition pass_outcome ::
  "error + int32 \<Rightarrow> (int32 \<Rightarrow> 'a \<Rightarrow> ('t, 'v, 'p, 'm) tstate \<Rightarrow> bool) \<Rightarrow>
   'a outcome \<times> ('t, 'v, 'p, 'm) tstate \<Rightarrow> bool" where
  "pass_outcome q Q r \<longleftrightarrow>
     (case q of Inl err \<Rightarrow> fst r = Throw err | Inr k \<Rightarrow> \<exists>a s'. r = (Value a, s') \<and> Q k a s')"

lemma pass_outcome_simps [simp]:
  "pass_outcome (Inl err) Q r \<longleftrightarrow> fst r = Throw err"
  "pass_outcome (Inr k) Q r \<longleftrightarrow> (\<exists>a s'. r = (Value a, s') \<and> Q k a s')"
  by (simp_all add: pass_outcome_def)

lemma survey_body_run:
  assumes L: "int_llvm (lib C) D" "place_llvm (lib C)" "mem_llvm (lib C) D M"
    and F: "fun_llvm (lib C)" "ret_llvm (lib C) D R" "new_llvm (lib C) R"
    and body: "value_of_body Map.empty (map (\<lambda>e. set_survey e True) es) = Some q" "\<forall>e \<in> set es. depth (set_survey e True) \<le> n"
    and s: "main_open (lib C) R nm mainf bb (ir s)" "v < length (heap s)" "llvm_value (heap s ! v) = Some w"
  shows "pass_outcome q (\<lambda>k tr s'. snd tr = int_ty (lib C) 32 \<and> main_open (lib C) R nm mainf bb (ir s') \<and> values_kept s s')
    (survey_body (lib C) (translate C n) f v None [] [] es s)"
proof -
  let ?L = "lib C"
  have need: "need_llvm v s = (Value w, s)" using s(2,3) by (simp add: need_llvm_at)
  obtain func m0 entry m1 scope s1
    where f: "create_function ?L (fun_ty ?L (void_ty ?L) [] False) (value_name ?L (ir s) w) True (ir s) = (func, m0)"
      and e: "create_block ?L ''entry_survey'' (Some func) m0 = (entry, m1)"
      and run: "enter_body ?L f func entry False (s\<lparr>ir := m1\<rparr>) = (Value scope, s1)"
      and s1: "entered ?L M R func s1" "values_kept s s1" "main_open ?L R nm mainf bb (ir s1)"
      and func: "func \<noteq> mainf" "is_function ?L func"
    by (rule enter_function [OF F s(1)])
  have start: "survey_body ?L (translate C n) f v None [] [] es s =
      andThen (fold_comp (survey_line (translate C n)) None es) (\<lambda>table.
      andThen (reads (\<lambda>m. all_insts ?L m func)) (\<lambda>is.
      andThen (ret_type_of (where_at (attr f)) None is) (\<lambda>found.
      then_do (do_if (found = None) (emit_unit ?L CreateRetVoid))
     (let ret_type = (case found of Some t \<Rightarrow> t | None \<Rightarrow> void_ty ?L) in
      then_do (ret ())
     (then_do (changes (erase ?L func)) (ret (table, ret_type))))))) s1"
    by (simp add: survey_body_def Let_def step_ir f e step_value [where c = "need_llvm v", OF need]
        step_value [where c = "enter_body ?L f func entry False", OF run])
  have loop: "fold_comp (survey_line (translate C n)) None es =
      fold_comp (\<lambda>table e. andThen (translate C n e) (\<lambda>r. case table of
        Some t \<Rightarrow> ret (Some t)
      | None \<Rightarrow> andThen (the_or_crash r) (\<lambda>v. andThen (deref v) (\<lambda>obj. ret (rtable obj))))) None
        (map (\<lambda>e. set_survey e True) es)"
    unfolding survey_line_def [abs_def] by (rule fold_comp_map)
  have "represents ?L M s1 Map.empty" "\<forall>e \<in> set (map (\<lambda>e. set_survey e True) es). depth e \<le> n"
    using s1(1) body(2) by (simp_all add: entered_def)
  note lines = survey_loop.body_run [OF L this(1) body(1) this(2), where acc = None, folded loop]
  show ?thesis
  proof (cases q)
    case (Inl err)
    with lines have "fst (fold_comp (survey_line (translate C n)) None es s1) = Throw err" by simp
    then show ?thesis
      unfolding start Inl by (cases "fold_comp (survey_line (translate C n)) None es s1") (simp add: andThen_def)
  next
    case (Inr k)
    with lines obtain table s2 where s2: "fold_comp (survey_line (translate C n)) None es s1 = (Value table, s2)"
        "body_returns ?L D s1 k s2" by auto
    from entered_returns [OF F(1,2) s1(1) s2(2)] obtain u where u: "R (ir s2) func = [Some u]" "ty_of ?L u = int_ty ?L 32"
      and kept: "values_kept s1 s2" "main_open ?L R nm mainf bb (ir s2)"
      using func(1) s1(3) by metis
    have "returned (all_insts ?L (ir s2) func) = [Some (int_ty ?L 32)]"
      using F(2) u unfolding ret_llvm_def by simp
    note found = ret_type_single [OF this, of "where_at (attr f)" s2]
    have "survey_body ?L (translate C n) f v None [] [] es s =
        (Value (table, int_ty ?L 32), s2\<lparr>ir := erase ?L func (ir s2)\<rparr>)"
      unfolding start using s2(1) found
      by (simp add: andThen_def then_do_def reads_def gets_def ret_def do_if_def changes_def modifies_def Let_def)
    moreover have "main_open ?L R nm mainf bb (erase ?L func (ir s2))"
      using main_open_erase [OF F(3) func(2,1) kept(2)] .
    moreover have "values_kept s (s2\<lparr>ir := erase ?L func (ir s2)\<rparr>)"
      using values_kept_trans [OF s1(2) kept(1)] by (simp add: values_kept_def)
    ultimately show ?thesis using Inr by simp
  qed
qed

lemma emit_body_run:
  assumes L: "int_llvm (lib C) D" "place_llvm (lib C)" "mem_llvm (lib C) D M"
    and F: "fun_llvm (lib C)" "ret_llvm (lib C) D R" "new_llvm (lib C) R"
    and body: "value_of_body Map.empty es = Some q" "\<forall>e \<in> set es. depth e \<le> n"
    and s: "main_open (lib C) R nm mainf bb (ir s)" "v < length (heap s)" "llvm_value (heap s ! v) = Some w"
  shows "pass_outcome q (\<lambda>k func s'. main_open (lib C) R nm mainf bb (ir s') \<and> values_kept s s' \<and>
      is_function (lib C) func \<and> ty_of (lib C) func = ptr_to (lib C) (fun_ty (lib C) (int_ty (lib C) 32) [] False) \<and>
      (\<exists>b u. fun_blocks (lib C) (ir s') func = [b] \<and> R (ir s') func = [Some u] \<and>
        ty_of (lib C) u = int_ty (lib C) 32 \<and> D u = k))
    (emit_body (lib C) (translate C n) f v (int_ty (lib C) 32) [] [] es s)"
proof -
  let ?L = "lib C"
  have need: "need_llvm v s = (Value w, s)" using s(2,3) by (simp add: need_llvm_at)
  obtain func m0 entry m1 scope s1
    where f: "create_function ?L (fun_ty ?L (int_ty ?L 32) [] False) (value_name ?L (ir s) w) True (ir s) = (func, m0)"
      and e: "create_block ?L ''entry'' (Some func) m0 = (entry, m1)"
      and run: "enter_body ?L f func entry True (s\<lparr>ir := m1\<rparr>) = (Value scope, s1)"
      and s1: "entered ?L M R func s1" "values_kept s s1" "main_open ?L R nm mainf bb (ir s1)"
      and func: "func \<noteq> mainf" "is_function ?L func" "ty_of ?L func = ptr_to ?L (fun_ty ?L (int_ty ?L 32) [] False)"
    by (rule enter_function [OF F s(1)])
  have "kind ?L (int_ty ?L 32) \<noteq> VoidTy" using L(1) by (simp add: int_llvm_def)
  then have start: "emit_body ?L (translate C n) f v (int_ty ?L 32) [] [] es s =
      andThen (each (\<lambda>line. andThen (translate C n line) (\<lambda>_. ret ())) es) (\<lambda>_. then_do (ret ()) (ret func)) s1"
    by (simp add: emit_body_def step_ir f e step_value [where c = "need_llvm v", OF need]
        step_value [where c = "enter_body ?L f func entry True", OF run] do_if_def)
  have "represents ?L M s1 Map.empty" using s1(1) by (simp add: entered_def)
  note lines = emit_loop.body_run [OF L this body(1) body(2), where acc = "()", folded each_def]
  show ?thesis
  proof (cases q)
    case (Inl err)
    with lines have "fst (each (\<lambda>line. andThen (translate C n line) (\<lambda>_. ret ())) es s1) = Throw err" by simp
    then show ?thesis
      unfolding start Inl
      by (cases "each (\<lambda>line. andThen (translate C n line) (\<lambda>_. ret ())) es s1") (simp add: andThen_def)
  next
    case (Inr k)
    with lines obtain s2 where s2: "each (\<lambda>line. andThen (translate C n line) (\<lambda>_. ret ())) es s1 = (Value (), s2)"
        "body_returns ?L D s1 k s2" by auto
    from entered_returns [OF F(1,2) s1(1) s2(2)] obtain u where u: "R (ir s2) func = [Some u]" "ty_of ?L u = int_ty ?L 32"
        "D u = k" and kept: "values_kept s1 s2" "main_open ?L R nm mainf bb (ir s2)"
        "fun_blocks ?L (ir s2) func = fun_blocks ?L (ir s1) func"
      using func(1) s1(3) by metis
    have "emit_body ?L (translate C n) f v (int_ty ?L 32) [] [] es s = (Value func, s2)"
      unfolding start using s2(1) by (simp add: andThen_def then_do_def ret_def)
    moreover have "\<exists>b. fun_blocks ?L (ir s2) func = [b]" using kept(3) s1(1) by (simp add: entered_def)
    ultimately show ?thesis
      using Inr u kept(2) func(2,3) values_kept_trans [OF s1(2) kept(1)] by auto
  qed
qed

section \<open>A function as a value\<close>

text \<open>A function without parameters whose one block returns a value for the number \<open>k\<close>.\<close>

definition number_function ::
  "('t, 'v, 'p, 'm) llvm \<Rightarrow> ('v \<Rightarrow> int32) \<Rightarrow> ('m \<Rightarrow> 'v \<Rightarrow> 'v option list) \<Rightarrow> 'm \<Rightarrow> 'v \<Rightarrow> int32 \<Rightarrow> bool" where
  "number_function L D R m func k \<longleftrightarrow> is_function L func \<and>
     ty_of L func = ptr_to L (fun_ty L (int_ty L 32) [] False) \<and>
     (\<exists>b w. fun_blocks L m func = [b] \<and> R m func = [Some w] \<and> ty_of L w = int_ty L 32 \<and> D w = k)"

text \<open>
  The outcome of a function as an expression: an error with the message of the semantics, or an object for
  a function that returns the number, with the insertion point and the entry function as before.
\<close>

definition compiles_to ::
  "('t, 'v, 'p, 'm) llvm \<Rightarrow> ('v \<Rightarrow> int32) \<Rightarrow> ('m \<Rightarrow> 'v \<Rightarrow> 'v option list) \<Rightarrow> string \<Rightarrow> 'v \<Rightarrow> 'v \<Rightarrow>
   ('t, 'v, 'p, 'm) tstate \<Rightarrow> expr \<Rightarrow> error + int32 \<Rightarrow>
   nat option outcome \<times> ('t, 'v, 'p, 'm) tstate \<Rightarrow> bool" where
  "compiles_to L D R nm mainf bb s f q r \<longleftrightarrow>
     (case q of
        Inl err \<Rightarrow> \<exists>err'. fst r = Throw err' \<and> message err' = message err
      | Inr k \<Rightarrow> \<exists>d func s' tab. r = (Value (Some d), s') \<and> d < length (heap s') \<and>
          heap s' ! d = (mk_value L (Some func) f False)\<lparr>rtable := tab\<rparr> \<and> ip s' = ip s \<and>
          main_open L R nm mainf bb (ir s') \<and> number_function L D R (ir s') func k)"

text \<open>The two passes in a row, with the insertion point and the scope restored.\<close>

lemma evaluate_function_run:
  assumes L: "int_llvm (lib C) D" "place_llvm (lib C)" "mem_llvm (lib C) D M"
    and F: "fun_llvm (lib C)" "ret_llvm (lib C) D R" "new_llvm (lib C) R"
    and a: "attributes a = []" "\<not> survey a"
    and body: "value_of_body Map.empty es = Some q" "\<forall>e \<in> set es. depth e \<le> n"
    and s: "main_open (lib C) R nm mainf bb (ir s)" "v < length (heap s)" "llvm_value (heap s ! v) = Some w"
      "well_typed (lib C) (heap s ! v)" "ty_of (lib C) w = ptr_to (lib C) (fun_ty (lib C) t [] False)"
  shows "compiles_to (lib C) D R nm mainf bb s (Function a [] es) q
    (evaluate_function (lib C) (translate C n) v [] a [] es s)"
proof -
  let ?L = "lib C" let ?f = "Function a [] es"
  have types: "pointee ?L (ptr_to ?L u) = u" "fun_params ?L (fun_ty ?L t [] False) = []" for u
    using L(2) F(3) by (simp_all add: place_llvm_def new_llvm_def)
  have ty: "type_of ?L v s = (Value (ptr_to ?L (fun_ty ?L t [] False)), s)"
    using s(2-5) by (simp add: type_of_def andThen_def getType_at the_or_crash_def ret_def well_typed_def)
  have start: "evaluate_function ?L (translate C n) v [] a [] es s =
      andThen (survey_body ?L (translate C n) ?f v None [] [] es) (\<lambda>(table, ret_type).
      andThen (emit_body ?L (translate C n) ?f v ret_type [] [] es) (\<lambda>newfunc.
      then_do (setScope (this_scope s))
     (then_do (set_insert_point (ip s))
     (andThen (new_value ?L newfunc ?f) (\<lambda>destv.
      then_do (setRetTable destv table)
      (ret (Some destv))))))) s"
    by (simp add: evaluate_function_def Let_def step_value [where c = "type_of ?L v", OF ty] types a
        expected_ret_type_def signature_types_def throw_if_def then_do_def step_ir)
  have "map canon es = map canon (map (\<lambda>e. set_survey e True) es)" by (simp add: canon_survey)
  from value_of_body_same [OF body(1) this] obtain q' where
    q': "value_of_body Map.empty (map (\<lambda>e. set_survey e True) es) = Some q'" "unplaced q' = unplaced q" .
  have "\<forall>e \<in> set es. depth (set_survey e True) \<le> n" using body(2) by (simp add: depth_survey)
  note survey = survey_body_run [OF L F q'(1) this s(1-3), of ?f]
  show ?thesis
  proof (cases q)
    case (Inl err)
    with q'(2) obtain err' where err': "q' = Inl err'" "err'\<lparr>location := LocEmpty\<rparr> = err\<lparr>location := LocEmpty\<rparr>"
      by (cases q') auto
    from arg_cong [OF err'(2), of message] have "message err' = message err" by simp
    moreover have "fst (survey_body ?L (translate C n) ?f v None [] [] es s) = Throw err'" using survey err'(1) by simp
    ultimately show ?thesis
      unfolding start Inl
      by (cases "survey_body ?L (translate C n) ?f v None [] [] es s") (simp add: compiles_to_def andThen_def)
  next
    case (Inr k)
    with q'(2) have "q' = Inr k" by (cases q') auto
    with survey obtain table s1 where s1: "survey_body ?L (translate C n) ?f v None [] [] es s = (Value (table, int_ty ?L 32), s1)"
        "main_open ?L R nm mainf bb (ir s1)" "values_kept s s1"
      by auto
    have v1: "v < length (heap s1)" "llvm_value (heap s1 ! v) = Some w" using s1(3) s(2,3) by (auto simp: values_kept_def)
    from emit_body_run [OF L F body s1(2) v1, of ?f] Inr obtain func s2
      where s2: "emit_body ?L (translate C n) ?f v (int_ty ?L 32) [] [] es s1 = (Value func, s2)"
        "main_open ?L R nm mainf bb (ir s2)" "number_function ?L D R (ir s2) func k"
      by (auto simp: number_function_def)
    let ?s' = "s2\<lparr>this_scope := this_scope s, ip := ip s,
      heap := heap s2 @ [(mk_value ?L (Some func) ?f False)\<lparr>rtable := table\<rparr>]\<rparr>"
    have "evaluate_function ?L (translate C n) v [] a [] es s = (Value (Some (length (heap s2))), ?s')"
      unfolding start using s1(1) s2(1)
      by (simp add: andThen_def then_do_def setScope_def modifies_def set_insert_point_def new_value_def alloc_def
          setRetTable_def update_at nth_append list_update_append ret_def)
    with Inr s2(2,3) show ?thesis by (auto simp: compiles_to_def nth_append)
  qed
qed

lemma translate_function:
  assumes L: "int_llvm (lib C) D" "place_llvm (lib C)" "mem_llvm (lib C) D M"
    and F: "fun_llvm (lib C)" "ret_llvm (lib C) D R" "new_llvm (lib C) R"
    and a: "attributes a = []" "\<not> survey a" "\<not> lval a"
    and body: "value_of_body Map.empty es = Some q" "\<forall>e \<in> set es. depth e \<le> n"
    and main: "main_open (lib C) R nm mainf bb (ir s)"
  shows "compiles_to (lib C) D R nm mainf bb s (Function a [] es) q (translate C (Suc n) (Function a [] es) s)"
proof -
  let ?L = "lib C" let ?f = "Function a [] es" let ?t = "fun_ty ?L (void_ty ?L) [] False"
  obtain f m where f: "create_function ?L ?t [] False (ir s) = (f, m)" by fastforce
  let ?s = "s\<lparr>ir := m, heap := heap s @ [mk_value ?L (Some f) ?f True]\<rparr>"
  have "ty_of ?L f = ptr_to ?L ?t" using F(3) f unfolding new_llvm_def by metis
  moreover have "main_open ?L R nm mainf bb (ir ?s)" using main_open_function(1) [OF F(3) f main] by simp
  ultimately have run: "compiles_to ?L D R nm mainf bb ?s ?f q
      (evaluate_function ?L (translate C n) (length (heap s)) [] a [] es ?s)"
    by (intro evaluate_function_run [OF L F a(1,2) body, where t = "void_ty ?L"])
      (simp_all add: nth_append well_typed_def)
  have "translate C (Suc n) ?f s = evaluate_function ?L (translate C n) (length (heap s)) [] a [] es ?s"
    using a f
    by (simp add: visit_def Let_def visit_function_def then_do_def throw_if_def creates_def new_lazy_def andThen_def
        alloc_def ret_def evaluate_def getType_at deref_at nth_append well_typed_def)
      (simp add: mk_value_def void_value_def)
  with run show ?thesis by (cases q) (simp_all add: compiles_to_def del: translate.simps)
qed

end
