(* ===== verification/Program_Compiled.thy ===== *)
theory Program_Compiled
  imports Function_Compiled
begin

text \<open>
  A whole run of the compiler program, from the text of a file to the module that it hands to the back
  end: the parser, the two passes over the top-level function, and the entry function that calls it.
\<close>

section \<open>The entry function\<close>

lemma createMain_run:
  assumes F: "fun_llvm (lib C)" "ret_llvm (lib C) D R" "new_llvm (lib C) R"
    and new: "get_function (lib C) (ir s) (entry_function_name C) = None"
  obtains s' mainf where "createMain C s = (Value (), s')" and "flags s' = flags s"
    and "main_open (lib C) R (entry_function_name C) mainf (insert_block (lib C) (ip s')) (ir s')"
proof -
  let ?L = "lib C" let ?n = "entry_function_name C"
  let ?t = "fun_ty ?L (int_ty ?L 32) [int_ty ?L 32, ptr_to ?L (ptr_to ?L (int_ty ?L 8))] False"
  obtain f m where f: "create_function ?L ?t ?n True (ir s) = (f, m)" by fastforce
  obtain b m' where b: "create_block ?L ''entry'' (Some f) m = (b, m')" by fastforce
  have "get_function ?L m ?n = Some f" using F(1) new f unfolding fun_llvm_def by (metis fst_conv snd_conv)
  moreover have "get_function ?L m' = get_function ?L m" using F(1) b unfolding fun_llvm_def by (metis snd_conv)
  moreover have "fun_blocks ?L m f = []" "R m f = []" using F(3) f unfolding new_llvm_def by (metis fun_upd_same)+
  moreover have "insert_block ?L (at_end ?L b) = b" "fun_blocks ?L m' f = fun_blocks ?L m f @ [b]" "R m' = R m"
    using F(3) b unfolding new_llvm_def by (metis fun_upd_same)+
  ultimately have "main_open ?L R ?n f (insert_block ?L (at_end ?L b)) m'" by (simp add: main_open_def)
  then show thesis
    using f b
    by (intro that [of "s\<lparr>ir := m', ip := at_end ?L b\<rparr>"])
      (simp_all add: createMain_def Let_def step_ir set_insert_point_def modifies_def)
qed

text \<open>
  A function without parameters is called by the entry function, which returns what it returns.
\<close>

lemma createMainRet_number:
  assumes L: "int_llvm (lib C) D" and F: "fun_llvm (lib C)" "ret_llvm (lib C) D R" "new_llvm (lib C) R"
    and P: "place_llvm (lib C)" and flag: "''not-entry'' \<notin> set (flags s)"
    and main: "main_open (lib C) R (entry_function_name C) mainf (insert_block (lib C) (ip s)) (ir s)"
    and v: "v < length (heap s)" "heap s ! v = (mk_value (lib C) (Some func) e False)\<lparr>rtable := tab\<rparr>"
    and func: "number_function (lib C) D R (ir s) func k"
  shows "\<exists>s' w. createMainRet C n v err s = (Value (err, Some func), s') \<and>
    get_function (lib C) (ir s') (entry_function_name C) = Some mainf \<and> R (ir s') mainf = [Some w] \<and> D w = k"
proof -
  let ?L = "lib C"
  have get: "get_function ?L (ir s) (entry_function_name C) = Some mainf" using main by (simp add: main_open_def)
  have f: "is_function ?L func" "ty_of ?L func = ptr_to ?L (fun_ty ?L (int_ty ?L 32) [] False)"
    using func by (simp_all add: number_function_def)
  then have noargs: "fun_args ?L m func = []" for m
    using F(3) P unfolding new_llvm_def place_llvm_def by (metis length_0_conv)
  let ?s = "s\<lparr>heap := heap s @ [heap s ! v]\<rparr>"
  have copy: "copy ?L v s = (Value (length (heap s)), ?s)"
    using v by (simp add: copy_def andThen_def getLLVM_at copy_with_leaf copyWithNewLLVMType_def mk_value_def void_value_def)
  have args: "main_arguments ?L func mainf s = (Value [], s)"
    by (simp add: main_arguments_def noargs andThen_def reads_def gets_def ret_def)
  have call: "call_top C n v func mainf s = (Value (Some func, []), ?s)"
    using v copy args
    by (simp add: call_top_def Let_def andThen_def evaluate_def getType_at well_typed_def
        ret_def the_or_crash_def getLLVM_at nth_append)
  obtain w m where w: "build ?L (CreateCall func []) (ip s) (ir s) = (w, m)" by fastforce
  have called: "ty_of ?L w = int_ty ?L 32" "D w = k"
    using F(2) func w unfolding ret_llvm_def number_function_def by (metis fst_conv)+
  then have notvoid: "kind ?L (ty_of ?L w) \<noteq> VoidTy" using L by (simp add: int_llvm_def)
  let ?m = "snd (build ?L (CreateRet (Some w)) (ip s) m)"
  have "createMainRet C n v err s = (Value (err, Some func), ?s\<lparr>ir := ?m\<rparr>)"
    using get v f(1) flag call w notvoid
    by (simp add: createMainRet_def Let_def reads_def gets_def andThen_def the_or_crash_def ret_def deref_at need_llvm_at hasFlag_def
        catch_error_def emit_def emit_unit_def then_do_def)
  moreover have "(ir s, m) \<in> builds ?L" using builds_instr [of "CreateCall func []" "ir s" ?L "ip s"] w by simp
  from main_open_builds [OF F(1,2) this main] have "get_function ?L m (entry_function_name C) = Some mainf"
    "R ?m = (R m)(mainf := [Some w])"
    using F(2) unfolding main_open_def ret_llvm_def by auto
  moreover have "get_function ?L ?m = get_function ?L m" using F(1) by (simp add: fun_llvm_def)
  ultimately show ?thesis using called(2) by auto
qed

text \<open>The tree of the program, from \<open>createMain\<close> to the back end.\<close>

lemma compile_function:
  assumes L: "int_llvm (lib C) D" "place_llvm (lib C)" "mem_llvm (lib C) D M"
    and F: "fun_llvm (lib C)" "ret_llvm (lib C) D R" "new_llvm (lib C) R"
    and s: "get_function (lib C) (ir s) (entry_function_name C) = None" "''not-entry'' \<notin> set (flags s)"
    and a: "attributes a = []" "\<not> survey a" "\<not> lval a"
    and body: "value_of_body Map.empty es = Some q" "\<forall>e \<in> set es. depth e \<le> n"
  shows "case q of
      Inl err \<Rightarrow> \<exists>x. message x = message err \<and>
        fst (compile C T opts (Suc n) (Function a [] es) no_error s) = Value (report T x)
    | Inr k \<Rightarrow> \<exists>libs m mainf w.
        fst (compile C T opts (Suc n) (Function a [] es) no_error s) = Value (back_end T opts libs m) \<and>
        get_function (lib C) m (entry_function_name C) = Some mainf \<and> R m mainf = [Some w] \<and> D w = k"
proof -
  let ?f = "Function a [] es"
  obtain s1 mainf where s1: "createMain C s = (Value (), s1)" "flags s1 = flags s"
    and main: "main_open (lib C) R (entry_function_name C) mainf (insert_block (lib C) (ip s1)) (ir s1)"
    by (rule createMain_run [OF F s(1)])
  note translated = translate_function [OF L F a body main]
  show ?thesis
  proof (cases q)
    case (Inl err)
    with translated obtain x where "fst (translate C (Suc n) ?f s1) = Throw x" "message x = message err"
      by (auto simp: compiles_to_def simp del: translate.simps)
    with s1(1) Inl show ?thesis
      by (cases "translate C (Suc n) ?f s1")
        (simp add: compile_def then_do_def andThen_def translateAST_def catch_error_def ret_def del: translate.simps, blast)
  next
    case (Inr k)
    with translated obtain d func s2 tab where s2: "translate C (Suc n) ?f s1 = (Value (Some d), s2)" "d < length (heap s2)"
        "heap s2 ! d = (mk_value (lib C) (Some func) ?f False)\<lparr>rtable := tab\<rparr>" "ip s2 = ip s1"
        "main_open (lib C) R (entry_function_name C) mainf (insert_block (lib C) (ip s1)) (ir s2)"
        "number_function (lib C) D R (ir s2) func k"
      by (auto simp: compiles_to_def simp del: translate.simps)
    have "flags s2 = flags s" using keepsD [OF kept_translate s2(1)] s1(2) by (simp add: kept_def grown_def)
    with s(2) have "''not-entry'' \<notin> set (flags s2)" by simp
    from createMainRet_number [OF L(1) F L(2) this s2(5) [folded s2(4)] s2(2,3,6), of "Suc n" no_error]
    obtain s3 w where s3: "createMainRet C (Suc n) d no_error s2 = (Value (no_error, Some func), s3)"
      "get_function (lib C) (ir s3) (entry_function_name C) = Some mainf" "R (ir s3) mainf = [Some w]" "D w = k" by blast
    have "fst (compile C T opts (Suc n) ?f no_error s) = Value (back_end T opts (link_libraries s3) (ir s3))"
      using s1(1) s2(1) s3(1)
      by (simp add: compile_def then_do_def andThen_def translateAST_def catch_error_def ret_def gets_def
          del: translate.simps)
    with s3(2-4) Inr show ?thesis by auto
  qed
qed

section \<open>A run of the program\<close>

text \<open>The tree of the file, and the text it is read from.\<close>

lemma parse_function:
  assumes "x3_conforms E" and "lib_ok L" and "number_lib L" and "readable (Function a [] es)"
  obtains b ts where "parse E L new_holder (source (Function a [] es)) err path = Some (Tree (Function b [] ts), err, new_holder)"
    and "map canon ts = map canon (map marked es)" and "attributes b = []" and "\<not> survey b" and "\<not> lval b"
proof -
  from parse_source [OF assms(1,3,4)] obtain t
    where t: "parse E L new_holder (source (Function a [] es)) err path = Some (Tree t, err, new_holder)"
      and "canon t = canon (marked (Function a [] es))" .
  then obtain b ts where b: "t = Function b [] ts" "map canon ts = map canon (map marked es)" "canon_attr b = canon_attr a"
    by (cases t) auto
  from b(3) assms(4) have "attributes b = []" "\<not> lval b"
    by (simp_all add: canon_attr_def unmarked_def)
  moreover have "wf_tree t"
    using t by (cases rule: parse_cases [OF assms(1,2), of new_holder "source (Function a [] es)" err path]) auto
  then have "\<not> survey b" by (simp add: b(1) wf_tree_def plain_def clean_def)
  ultimately show thesis using t b(1,2) by (intro that) simp_all
qed

text \<open>
  C1. A program is compiled to its number. Let the file hold the text of a function without
  parameters whose body declares and assigns integer variables and ends with a return. If the body
  has an error, a name that is not declared or a constant that is assigned again, the run prints
  an error with the message of the semantics, writes no file and exits with -1. Otherwise it hands to
  the back end a module in which the entry function has one \<open>ret\<close>, of a value that stands for
  the number that the body returns in 32-bit arithmetic.
\<close>

theorem program_compiled:
  assumes "x3_conforms (x3_engine C)" and "lib_ok (x3_lib C)" and "number_lib (x3_lib C)"
    and "int_llvm (lib C) D" and "place_llvm (lib C)" and "mem_llvm (lib C) D M"
    and "fun_llvm (lib C)" and "ret_llvm (lib C) D R" and "new_llvm (lib C) R"
    and "get_function (lib C) (new_module T (absolute C path None)) (entry_func opts) = None"
    and "\<not> version_flag opts" and "input_path opts = Some path" and "out_type opts \<noteq> OutAST"
    and "''not-entry'' \<notin> set (translator_flags opts)"
    and "read_file C (absolute C path None) = Some (source (Function a [] es))"
    and "readable (Function a [] es)"
    and "value_of_body Map.empty (map marked es) = Some q" and "\<forall>e \<in> set es. depth e \<le> n"
  shows "case q of
      Inl err \<Rightarrow> \<exists>err'. message err' = message err \<and>
        scopc C T opts (Suc n) = Value (-1, [Message (print_error (styles T) err' @ [newline])])
    | Inr k \<Rightarrow> \<exists>libs m mainf w. scopc C T opts (Suc n) = Value (back_end T opts libs m) \<and>
        get_function (lib C) m (entry_func opts) = Some mainf \<and> R m mainf = [Some w] \<and> D w = k"
proof -
  let ?C = "C\<lparr>entry_function_name := entry_func opts\<rparr>" let ?file = "absolute C path None"
  let ?start = "new_translator (new_module T ?file) (no_point (lib C)) [] (translator_flags opts)"
  from parse_function [OF assms(1-3,16)] obtain b ts
    where parsed: "parse (x3_engine C) (x3_lib C) new_holder (source (Function a [] es)) no_error (Some ?file) =
        Some (Tree (Function b [] ts), no_error, new_holder)"
      and ts: "map canon ts = map canon (map marked es)" and b: "attributes b = []" "\<not> survey b" "\<not> lval b" .
  from value_of_body_same [OF assms(17) ts [symmetric]] obtain q'
    where q': "value_of_body Map.empty ts = Some q'" "unplaced q' = unplaced q" .
  have deep: "\<forall>e \<in> set ts. depth e \<le> n"
  proof
    fix e
    assume "e \<in> set ts"
    then have "canon e \<in> canon ` marked ` set es" using ts by (metis image_eqI image_set)
    with assms(18) show "depth e \<le> n" by (metis depth_canon depth_marked imageE)
  qed
  have run: "scopc C T opts (Suc n) = fst (compile ?C T opts (Suc n) (Function b [] ts) no_error ?start)"
    using assms(11-13,15) parsed by (simp add: scopc_def Let_def run_compiler_def)
  have "get_function (lib ?C) (ir ?start) (entry_function_name ?C) = None" "''not-entry'' \<notin> set (flags ?start)"
    using assms(10,14) by (simp_all add: new_translator_def)
  note compiled = compile_function [of ?C D M R, OF _ _ _ _ _ _ this b q'(1) deep, of T opts, folded run]
  show ?thesis
  proof (cases q)
    case (Inl err)
    with q'(2) obtain err' where err': "q' = Inl err'" "err'\<lparr>location := LocEmpty\<rparr> = err\<lparr>location := LocEmpty\<rparr>"
      by (cases q') auto
    from arg_cong [OF err'(2), of message] have "message err' = message err" by simp
    with compiled assms(4-9) err'(1) Inl show ?thesis by (auto simp: report_def)
  next
    case (Inr k)
    with q'(2) have "q' = Inr k" by (cases q') auto
    with compiled assms(4-9) Inr show ?thesis by simp
  qed
qed

end
