(* ===== verification/Program_Demo.thy ===== *)
theory Program_Demo
  imports Llvm_Demo Program_Compiled
begin

text \<open>
  The small LLVM with functions that have bodies: a module also keeps its basic blocks, each with its
  function and the operands of its \<open>ret\<close> instructions. On it the hypotheses of \<open>program_compiled\<close> hold,
  and the theorem is applied to a program.
\<close>

record bmod = dmod +
  bodies :: "(dval option \<times> dval option list) list"

section \<open>Functions and blocks\<close>

fun dname :: "dval \<Rightarrow> string" where
  "dname (DFunction t s) = s"
| "dname v = []"

text \<open>A name that no function has.\<close>

definition fresh_name :: "bmod \<Rightarrow> string \<Rightarrow> string" where
  "fresh_name m s =
     (let used = map (\<lambda>nf. dname (snd nf)) (dfuns m) in if s \<in> set used then s @ concat used @ ''.'' else s)"

definition add_function :: "dty \<Rightarrow> string \<Rightarrow> bool \<Rightarrow> bmod \<Rightarrow> dval \<times> bmod" where
  "add_function t s b m =
     (let f = DFunction t (fresh_name m s) in
      (f, m\<lparr>dfuns := dfuns m @ (if b then [(s, f)] else []),
         bodies := map (\<lambda>gv. if fst gv = Some f then (None, []) else gv) (bodies m)\<rparr>))"

definition add_block :: "string \<Rightarrow> dval option \<Rightarrow> bmod \<Rightarrow> dval \<times> bmod" where
  "add_block s f m = (DBlock (length (bodies m)), m\<lparr>bodies := bodies m @ [(f, [])]\<rparr>)"

definition blocks_of :: "bmod \<Rightarrow> dval \<Rightarrow> dval list" where
  "blocks_of m f = map DBlock (filter (\<lambda>n. fst (bodies m ! n) = Some f) [0..<length (bodies m)])"

fun insts_of :: "bmod \<Rightarrow> dval \<Rightarrow> dty inst_view list" where
  "insts_of m (DBlock n) =
     (if n < length (bodies m) then map (\<lambda>v. RetInst (map_option dty_of v)) (snd (bodies m ! n)) else [])"
| "insts_of m v = []"

text \<open>The operands that a function returns, and the instructions.\<close>

definition operands_of :: "dval \<Rightarrow> dval option \<times> dval option list \<Rightarrow> dval option list" where
  "operands_of f gv = (if fst gv = Some f then snd gv else [])"

definition rets_of :: "bmod \<Rightarrow> dval \<Rightarrow> dval option list" where
  "rets_of m f = concat (map (operands_of f) (bodies m))"

fun add_ret :: "(dty, dval) instr \<Rightarrow> nat \<Rightarrow> (dval option \<times> dval option list) list \<Rightarrow>
  (dval option \<times> dval option list) list" where
  "add_ret (CreateRet v) p bs = (if p < length bs then bs[p := (fst (bs ! p), snd (bs ! p) @ [v])] else bs)"
| "add_ret i p bs = bs"

fun instr_result :: "(dty, dval) instr \<Rightarrow> bmod \<Rightarrow> dval" where
  "instr_result (CreateCall f args) m =
     (case rets_of m f of [Some w] \<Rightarrow> DVal (dty_of w) (dnum w) | _ \<Rightarrow> DVal (dfun_result (dty_of f)) 0)"
| "instr_result i m = dresult i m"

definition program_llvm :: "(dty, dval, nat, bmod) llvm" where
  "program_llvm = small_llvm\<lparr>create_function := add_function, create_block := add_block, fun_blocks := blocks_of,
     block_insts := insts_of,
     build := (\<lambda>i p m. (instr_result i m,
       m\<lparr>built := built m @ [i], cells := dcells i m, bodies := add_ret i p (bodies m)\<rparr>))\<rparr>"

lemma program_llvm_simps [simp]:
  "kind program_llvm = dkind" "int_ty program_llvm = DInt" "ptr_to program_llvm = DPtr"
  "pointee program_llvm = dpointee" "fun_ty program_llvm = DFun" "fun_params program_llvm = dfun_params"
  "ty_of program_llvm = dty_of" "signed_const program_llvm t k = DVal t (word_of_int k)"
  "is_function program_llvm v = (case v of DFunction _ _ \<Rightarrow> True | _ \<Rightarrow> False)"
  "get_function program_llvm m s = map_of (dfuns m) s" "create_function program_llvm = add_function"
  "create_block program_llvm = add_block" "fun_blocks program_llvm = blocks_of" "block_insts program_llvm = insts_of"
  "fun_args program_llvm m f = map (\<lambda>t. DVal t 0) (dfun_params (dpointee (dty_of f)))"
  "erase program_llvm f m = m" "insert_block program_llvm = DBlock"
  "at_end program_llvm v = (case v of DBlock n \<Rightarrow> n | _ \<Rightarrow> 0)"
  "build program_llvm i p m = (instr_result i m,
     m\<lparr>built := built m @ [i], cells := dcells i m, bodies := add_ret i p (bodies m)\<rparr>)"
  by (simp_all add: program_llvm_def small_llvm_def)

section \<open>The hypotheses\<close>

lemma program_int_llvm: "int_llvm program_llvm dnum"
proof -
  have "dnum (DVal t (dbin b x y)) = f x y \<and> \<not> is_comparison b" if "int_instr b = Some f" for t b x y f
    using that by (cases b) (auto simp: is_comparison_def)
  then show ?thesis by (auto simp: int_llvm_def)
qed

lemma program_place_llvm: "place_llvm program_llvm"
  by (simp add: place_llvm_def)

lemma pcell_store:
  "dcell m p = Some k \<Longrightarrow>
   dcell (m\<lparr>built := is, cells := dcells (CreateStore w p) m, bodies := bs\<rparr>) v = ((dcell m)(p \<mapsto> dnum w)) v"
  by (cases p; cases v) (auto split: if_splits)

lemma pcell_same: "dcell (m\<lparr>built := is, bodies := bs\<rparr>) v = dcell m v"
  by (cases v) auto

lemma pcell_alloca:
  "dcell (m\<lparr>built := is, cells := cells m @ [0], bodies := bs\<rparr>) v =
   ((dcell m)(DPlace (DInt 32) (length (cells m)) \<mapsto> 0)) v"
  by (cases v) (auto simp: nth_append)

lemma program_mem_llvm: "mem_llvm program_llvm dnum dcell"
proof -
  have pointee: "dpointee (dty_of v) = DInt 32" if "dcell m v = Some k" for m :: bmod and v k
    using that by (cases v) (simp_all split: if_splits)
  have same: "dcell (m\<lparr>built := is, bodies := bs\<rparr>) = dcell m" for m :: bmod and "is" bs
    by (rule ext) (rule pcell_same)
  have alloca: "dcell (m\<lparr>built := is, cells := cells m @ [0], bodies := bs\<rparr>) =
      (dcell m)(DPlace (DInt 32) (length (cells m)) \<mapsto> 0)" for m :: bmod and "is" bs
    by (rule ext) (rule pcell_alloca)
  have store: "dcell m p = Some k \<Longrightarrow>
      dcell (m\<lparr>built := is, cells := dcells (CreateStore w p) m, bodies := bs\<rparr>) = (dcell m)(p \<mapsto> dnum w)"
    for m :: bmod and p k "is" w bs
    by (rule ext) (rule pcell_store)
  show ?thesis
    by (auto simp: mem_llvm_def same alloca store pointee simp del: dcells.simps(2) add_ret.simps)
qed

lemma program_fun_llvm: "fun_llvm program_llvm"
  by (auto simp: fun_llvm_def add_block_def add_function_def Let_def map_add_def split: dval.splits)

lemma length_concat_member: "x \<in> set xs \<Longrightarrow> length x \<le> length (concat xs)"
  by (induction xs) auto

lemma fresh_name_new:
  assumes "map_of (dfuns m) n = Some f"
  shows "f \<noteq> DFunction t (fresh_name m s)"
proof
  let ?used = "map (\<lambda>nf. dname (snd nf)) (dfuns m)"
  assume f: "f = DFunction t (fresh_name m s)"
  from assms have "fresh_name m s \<in> set ?used" by (force simp: f dest: map_of_SomeD)
  from length_concat_member [OF this] this show False by (simp add: fresh_name_def Let_def split: if_splits)
qed

lemma rets_add_function:
  "rets_of (snd (add_function t s b m)) g = ((rets_of m)(fst (add_function t s b m) := [])) g"
  by (auto simp: rets_of_def add_function_def Let_def operands_of_def comp_def intro!: arg_cong [of _ _ concat])

lemma rets_add_block: "rets_of (snd (add_block s f m)) = rets_of m"
  by (rule ext) (simp add: rets_of_def add_block_def operands_of_def)

lemma blocks_add_function:
  "blocks_of (snd (add_function t s b m)) g = ((blocks_of m)(fst (add_function t s b m) := [])) g"
  by (auto simp: blocks_of_def add_function_def Let_def intro!: arg_cong [of _ _ "map DBlock"] filter_cong
      split: if_splits)

lemma blocks_add_block:
  "blocks_of (snd (add_block s (Some f) m)) g = ((blocks_of m)(f := blocks_of m f @ [fst (add_block s (Some f) m)])) g"
proof -
  have "filter (\<lambda>n. fst ((bodies m @ [(Some f, [])]) ! n) = Some h) [0..<length (bodies m)] =
      filter (\<lambda>n. fst (bodies m ! n) = Some h) [0..<length (bodies m)]" for h
    by (rule filter_cong) (simp_all add: nth_append)
  then show ?thesis by (simp add: blocks_of_def add_block_def)
qed

lemma blocks_add_ret: "blocks_of (m\<lparr>built := is, cells := cs, bodies := add_ret i p (bodies m)\<rparr>) = blocks_of m"
proof
  have "length (add_ret i p bs) = length bs \<and> (\<forall>n < length bs. fst (add_ret i p bs ! n) = fst (bs ! n))" for bs
    by (cases i) (auto simp: nth_list_update)
  then show "blocks_of (m\<lparr>built := is, cells := cs, bodies := add_ret i p (bodies m)\<rparr>) f = blocks_of m f" for f
    by (auto simp: blocks_of_def intro!: arg_cong [of _ _ "map DBlock"] filter_cong)
qed

lemma rets_plain: "plain_instr i \<Longrightarrow> rets_of (m\<lparr>built := is, cells := cs, bodies := add_ret i p (bodies m)\<rparr>) = rets_of m"
  by (cases i) (simp_all add: rets_of_def fun_eq_iff)

lemma concat_update: "p < length xs \<Longrightarrow> \<forall>x \<in> set xs. h x = [] \<Longrightarrow> concat (map h (xs[p := y])) = h y"
proof (induction xs arbitrary: p)
  case (Cons x xs)
  then show ?case by (cases p) auto
qed simp

lemma rets_add_ret:
  assumes "DBlock p \<in> set (blocks_of m f)" and "rets_of m f = []"
  shows "rets_of (m\<lparr>built := is, cells := cs, bodies := add_ret (CreateRet v) p (bodies m)\<rparr>) = (rets_of m)(f := [v])"
proof
  fix g
  let ?bs = "bodies m" let ?b = "(Some f, snd (?bs ! p) @ [v])"
  from assms(1) have p: "p < length ?bs" "fst (?bs ! p) = Some f" by (auto simp: blocks_of_def)
  have empty: "\<forall>gv \<in> set ?bs. operands_of f gv = []" using assms(2) by (auto simp: rets_of_def)
  have "rets_of (m\<lparr>built := is, cells := cs, bodies := add_ret (CreateRet v) p ?bs\<rparr>) g =
      concat (map (operands_of g) (?bs[p := ?b]))"
    using p by (simp add: rets_of_def)
  also have "\<dots> = ((rets_of m)(f := [v])) g"
  proof (cases "g = f")
    case True
    have "operands_of f (?bs ! p) = []" using empty p(1) by simp
    with p(2) have "operands_of f ?b = [v]" by (simp add: operands_of_def)
    with True concat_update [OF p(1) empty, of ?b] show ?thesis by simp
  next
    case False
    then have "operands_of g ?b = operands_of g (?bs ! p)" using p(2) by (simp add: operands_of_def)
    then have "map (operands_of g) (?bs[p := ?b]) = map (operands_of g) ?bs"
      using p(1) by (simp add: map_update list_update_same_conv)
    with False show ?thesis by (simp add: rets_of_def)
  qed
  finally show "rets_of (m\<lparr>built := is, cells := cs, bodies := add_ret (CreateRet v) p ?bs\<rparr>) g = ((rets_of m)(f := [v])) g" .
qed

lemma concat_map_filter: "concat (map h (filter P xs)) = concat (map (\<lambda>x. if P x then h x else []) xs)"
  by (induction xs) auto

lemma rets_returned: "returned (all_insts program_llvm m f) = map (map_option dty_of) (rets_of m f)"
proof -
  have single: "returned (map (\<lambda>v. RetInst (map_option dty_of v)) vs) = map (map_option dty_of) vs" for vs
    by (induction vs) auto
  have "returned (all_insts program_llvm m f) =
      concat (map (\<lambda>n. if fst (bodies m ! n) = Some f then returned (insts_of m (DBlock n)) else []) [0..<length (bodies m)])"
    by (simp add: returned_all_insts blocks_of_def comp_def concat_map_filter del: insts_of.simps)
  also have "\<dots> = concat (map (\<lambda>n. map (map_option dty_of) (operands_of f (bodies m ! n))) [0..<length (bodies m)])"
    by (intro arg_cong [of _ _ concat] map_cong refl) (simp add: single operands_of_def)
  also have "\<dots> = concat (map (\<lambda>gv. map (map_option dty_of) (operands_of f gv)) (map ((!) (bodies m)) [0..<length (bodies m)]))"
    by (simp add: comp_def)
  finally show ?thesis by (simp add: rets_of_def map_nth map_concat comp_def)
qed

lemma program_ret_llvm: "ret_llvm program_llvm dnum rets_of"
  unfolding ret_llvm_def
  by (simp add: blocks_add_ret rets_plain rets_add_ret rets_returned del: add_ret.simps dcells.simps)

lemma program_new_llvm: "new_llvm program_llvm rets_of"
proof -
  have "ty_of program_llvm f = ptr_to program_llvm t \<and> is_function program_llvm f \<and>
      (\<forall>n. get_function program_llvm m n \<noteq> Some f) \<and>
      (\<forall>n g. get_function program_llvm m n = Some g \<longrightarrow> get_function program_llvm m' n = Some g) \<and>
      fun_blocks program_llvm m' = (fun_blocks program_llvm m)(f := []) \<and> rets_of m' = (rets_of m)(f := [])"
    if new: "create_function program_llvm t n b m = (f, m')" for t n b m f m'
  proof -
    have f: "f = DFunction t (fresh_name m n)" "dfuns m' = dfuns m @ (if b then [(n, f)] else [])"
      using new by (auto simp: add_function_def Let_def)
    have "blocks_of m' = (blocks_of m)(f := [])" "rets_of m' = (rets_of m)(f := [])"
      using new blocks_add_function [of t n b m] rets_add_function [of t n b m] by (simp_all add: fun_eq_iff)
    then show ?thesis using f(2) fresh_name_new [of m _ f t n] by (auto simp: f(1))
  qed
  moreover have "insert_block program_llvm (at_end program_llvm b) = b \<and>
      fun_blocks program_llvm m' = (fun_blocks program_llvm m)(f := fun_blocks program_llvm m f @ [b]) \<and> rets_of m' = rets_of m"
    if new: "create_block program_llvm n (Some f) m = (b, m')" for n f m b m'
  proof -
    have "b = DBlock (length (bodies m))" using new by (simp add: add_block_def)
    with new blocks_add_block [of n f m] rets_add_block [of n "Some f" m] show ?thesis by (simp add: fun_eq_iff)
  qed
  ultimately show ?thesis by (auto simp: new_llvm_def)
qed

section \<open>A program\<close>

text \<open>\<open>(){x#mut=1+2;x=x*x;|>x;}\<close>\<close>

definition program_lines :: "expr list" where
  "program_lines =
     [BinaryOp Assign new_attribute (Variable (new_attribute\<lparr>attributes := [(''mut'', [])]\<rparr>) ''x'') demo_plus,
      BinaryOp Assign new_attribute (demo_var ''x'') (BinaryOp Mul new_attribute (demo_var ''x'') (demo_var ''x'')),
      SingleOp Ret new_attribute (demo_var ''x'')]"

abbreviation program_tree :: expr where
  "program_tree \<equiv> Function new_attribute [] program_lines"

lemmas program_defs = program_lines_def demo_plus_def new_attribute_def

lemma program_source: "source program_tree = ''(){x#mut=1+2;x=x*x;|>x;}''"
  by (simp add: program_defs grouped_def int_string_def nat_string.simps sample_digits [simplified])

lemma program_readable: "readable program_tree"
  by (simp add: program_defs unmarked_def infix_op_def variable_text_def like_number_def like_letter_def
      like_bool_def attribute_ok_def is_alpha_def)

lemma program_value: "value_of_body Map.empty (map marked program_lines) = Some (Inr 9)"
  by (simp add: program_defs both_def set_lval_def)

lemma signed_lib_ok: "lib_ok signed_lib"
proof -
  have int: "consumes demo_int" "real_p demo_lib = real_p signed_lib" "bool_p demo_lib = bool_p signed_lib"
    using demo_lib_ok by (simp_all add: lib_ok_def demo_lib_def signed_lib_def)
  then have "consumes signed_int"
    unfolding consumes_def signed_int_def by (fastforce split: list.splits if_splits)
  with demo_lib_ok show ?thesis by (simp add: lib_ok_def signed_lib_def)
qed

definition program_env :: "(dty, dval, nat, bmod) env" where
  "program_env =
     \<lparr>lib = program_llvm, entry_function_name = ''main'', absolute = (\<lambda>p b. p),
      read_file = (\<lambda>p. Some ''(){x#mut=1+2;x=x*x;|>x;}''), h2ir_path = (\<lambda>p. p), run_h2ir = (\<lambda>p m. m),
      x3_engine = x3_exec, x3_lib = signed_lib\<rparr>"

definition program_tools :: "bmod toolchain" where
  "program_tools =
     \<lparr>styles = (\<lambda>c. []), show_double = (\<lambda>d. ''0''), show_path = (\<lambda>p. p), usage = [], banner = [],
      new_module = (\<lambda>p. \<lparr>dfuns = [], structs = [], built = [], blocks = 0, cells = [], bodies = []\<rparr>), broken_module = (\<lambda>m. False),
      print_module = (\<lambda>m. []), module_passes = (\<lambda>n k m. m), begin_functions = (\<lambda>m. m), function_list = (\<lambda>m. []),
      function_passes = (\<lambda>n k f m. m), end_functions = (\<lambda>m. m), default_triple = [], normal_triple = (\<lambda>t. t),
      tmp_file = (\<lambda>n. []), system_code = (\<lambda>c. 0), leftover = []\<rparr>"

lemma program_env_simps:
  "x3_engine program_env = x3_exec" "x3_lib program_env = signed_lib" "lib program_env = program_llvm"
  "absolute program_env p b = p" "read_file program_env p = Some (source program_tree)"
  unfolding program_source by (simp_all add: program_env_def)

theorem program_compiled_witness:
  "\<exists>libs m mainf w.
     scopc program_env program_tools (demo_options OutIR) (Suc 3) = Value (back_end program_tools (demo_options OutIR) libs m) \<and>
     map_of (dfuns m) ''main'' = Some mainf \<and> rets_of m mainf = [Some w] \<and> dnum w = 9"
proof -
  have lines: "\<forall>e \<in> set program_lines. depth e \<le> 3" by (simp add: program_defs)
  have opts: "\<not> version_flag (demo_options OutIR)" "input_path (demo_options OutIR) = Some ''a.scc''"
    "out_type (demo_options OutIR) \<noteq> OutAST" "''not-entry'' \<notin> set (translator_flags (demo_options OutIR))"
    "entry_func (demo_options OutIR) = ''main''"
    by (simp_all add: demo_options_def)
  have "map_of (dfuns (new_module program_tools p)) ''main'' = None" for p by (simp add: program_tools_def)
  with program_compiled [where C = program_env and D = dnum and M = dcell and R = rets_of and T = program_tools,
      OF _ _ _ _ _ _ _ _ _ _ opts(1-4) _ program_readable program_value lines, unfolded program_env_simps]
    x3_exec_conforms signed_lib_ok signed_lib_numbers program_int_llvm program_place_llvm program_mem_llvm
    program_fun_llvm program_ret_llvm program_new_llvm
  show ?thesis by (simp add: opts(5))
qed

end
